(* ===== verification/Prelude.thy ===== *)
theory Prelude
  imports Main "HOL-Library.Word" "HOL-Library.Multiset" "HOL-Library.List_Lexorder"
    "HOL-Library.Char_ord"
begin

text \<open>
  Generic vocabulary shared by every component: Go's string helpers (a Go string is a
  sequence of bytes, here a \<^typ>\<open>string\<close>), decimal formatting (\<open>%d\<close>, \<open>%04d\<close>), sequencing of
  fallible steps, and facts about prefixes in lexicographic order, about list updates and
  about multisets gathered over a list of workers.
\<close>

named_theorems result_intros \<open>introduction rules for sequenced results\<close>
named_theorems mset_collect \<open>rewriting of multisets gathered over a list of workers\<close>

section \<open>Sequencing fallible steps\<close>

text \<open>\<open>if err != nil { return err }\<close>: the first error ends the sequence.\<close>

fun rbind :: "'e + 'a \<Rightarrow> ('a \<Rightarrow> 'e + 'b) \<Rightarrow> 'e + 'b" where
  "rbind (Inl e) f = Inl e"
| "rbind (Inr x) f = f x"

lemma rbind_Inr_iff: "rbind m f = Inr y \<longleftrightarrow> (\<exists>x. m = Inr x \<and> f x = Inr y)"
  by (cases m) auto

lemma rbind_Inl_iff: "rbind m f = Inl e \<longleftrightarrow> m = Inl e \<or> (\<exists>x. m = Inr x \<and> f x = Inl e)"
  by (cases m) auto

lemma rbind_Inr_elim:
  assumes "rbind m f = Inr y"
  obtains x where "m = Inr x" and "f x = Inr y"
  using assms by (auto simp: rbind_Inr_iff)

section \<open>Go's string functions\<close>

text \<open>\<open>strings.HasPrefix\<close>, \<open>HasSuffix\<close>, \<open>TrimPrefix\<close>, \<open>Contains\<close> and \<open>bytes.HasPrefix\<close>.\<close>

definition has_prefix :: "'a list \<Rightarrow> 'a list \<Rightarrow> bool" where
  "has_prefix s p \<longleftrightarrow> length p \<le> length s \<and> take (length p) s = p"

definition has_suffix :: "'a list \<Rightarrow> 'a list \<Rightarrow> bool" where
  "has_suffix s p \<longleftrightarrow> length p \<le> length s \<and> drop (length s - length p) s = p"

definition trim_prefix :: "'a list \<Rightarrow> 'a list \<Rightarrow> 'a list" where
  "trim_prefix s p = (if has_prefix s p then drop (length p) s else s)"

fun contains_sub :: "'a list \<Rightarrow> 'a list \<Rightarrow> bool" where
  "contains_sub [] sub = has_prefix [] sub"
| "contains_sub (c # cs) sub = (has_prefix (c # cs) sub \<or> contains_sub cs sub)"

lemma has_prefix_iff: "has_prefix s p \<longleftrightarrow> (\<exists>t. s = p @ t)"
  unfolding has_prefix_def
proof (intro iffI)
  assume "length p \<le> length s \<and> take (length p) s = p"
  then have "s = p @ drop (length p) s" by (metis append_take_drop_id)
  then show "\<exists>t. s = p @ t" ..
qed auto

lemma has_prefix_append [simp]: "has_prefix (p @ t) p"
  by (simp add: has_prefix_def)

lemma has_prefix_Nil [simp]: "has_prefix s []"
  by (simp add: has_prefix_def)

lemma has_prefix_refl [simp]: "has_prefix s s"
  by (simp add: has_prefix_def)

lemma has_suffix_iff: "has_suffix s p \<longleftrightarrow> (\<exists>t. s = t @ p)"
  unfolding has_suffix_def
proof (intro iffI)
  assume "length p \<le> length s \<and> drop (length s - length p) s = p"
  then have "s = take (length s - length p) s @ p" by (metis append_take_drop_id)
  then show "\<exists>t. s = t @ p" ..
qed auto

lemma trim_prefix_append [simp]: "trim_prefix (p @ t) p = t"
  by (simp add: trim_prefix_def)

lemma contains_sub_append: "contains_sub (a @ sub @ b) sub"
proof (induction a)
  case Nil
  have "has_prefix (sub @ b) sub" by simp
  then show ?case by (cases "sub @ b") (simp_all del: has_prefix_append)
next
  case (Cons x xs)
  then show ?case by simp
qed

section \<open>Decimal formatting\<close>

definition digit_char :: "nat \<Rightarrow> char" where
  "digit_char d = char_of (48 + d)"

fun show_nat :: "nat \<Rightarrow> string" where
  "show_nat n = (if n < 10 then [digit_char n] else show_nat (n div 10) @ [digit_char (n mod 10)])"

declare show_nat.simps [simp del]

definition show_int :: "int \<Rightarrow> string" where
  "show_int i = (if i < 0 then CHR ''-'' # show_nat (nat (- i)) else show_nat (nat i))"

text \<open>\<open>%04d\<close> of a non-negative number: at least four digits, padded with zeros.\<close>

definition pad4 :: "nat \<Rightarrow> string" where
  "pad4 n = replicate (4 - length (show_nat n)) (CHR ''0'') @ show_nat n"

definition char_digit :: "char \<Rightarrow> nat" where
  "char_digit c = of_char c - 48"

definition read_nat :: "string \<Rightarrow> nat" where
  "read_nat s = foldl (\<lambda>a c. 10 * a + char_digit c) 0 s"

lemma char_digit_digit_char [simp]: "d < 10 \<Longrightarrow> char_digit (digit_char d) = d"
  by (simp add: char_digit_def digit_char_def)

lemma read_nat_snoc [simp]: "read_nat (s @ [c]) = 10 * read_nat s + char_digit c"
  by (simp add: read_nat_def)

lemma read_show_nat [simp]: "read_nat (show_nat n) = n"
proof (induction n rule: show_nat.induct)
  case (1 n)
  show ?case
  proof (cases "n < 10")
    case True
    then show ?thesis by (subst show_nat.simps) (simp add: read_nat_def)
  next
    case False
    with 1 show ?thesis by (subst show_nat.simps) simp
  qed
qed

lemma show_nat_inj [simp]: "show_nat m = show_nat n \<longleftrightarrow> m = n"
  by (metis read_show_nat)

lemma show_nat_nonempty [simp]: "show_nat n \<noteq> []"
  by (subst show_nat.simps) simp

lemma read_zeros: "read_nat (replicate k (CHR ''0'') @ s) = read_nat s"
proof (induction k)
  case (Suc k)
  then show ?case by (simp add: read_nat_def char_digit_def)
qed simp

lemma pad4_inj [simp]: "pad4 m = pad4 n \<longleftrightarrow> m = n"
  by (metis pad4_def read_show_nat read_zeros)

lemma digit_char_not_colon: "d < 10 \<Longrightarrow> digit_char d \<noteq> CHR '':''"
  by (auto simp: digit_char_def dest!: arg_cong [where f = "of_char :: char \<Rightarrow> nat"])

lemma show_nat_no_colon: "CHR '':'' \<notin> set (show_nat n)"
proof (induction n rule: show_nat.induct)
  case (1 n)
  have digit: "CHR '':'' \<noteq> digit_char d" if "d < 10" for d
    using digit_char_not_colon [OF that] by metis
  show ?case
  proof (cases "n < 10")
    case True
    then show ?thesis by (subst show_nat.simps) (simp add: digit)
  next
    case False
    with 1 show ?thesis by (subst show_nat.simps) (simp add: digit)
  qed
qed

section \<open>Byte strings in lexicographic order\<close>

text \<open>
  The keys that extend \<open>p\<close> are an initial segment of the keys that are at least \<open>p\<close>: a cursor
  positioned at \<open>p\<close> may stop at the first key without the prefix.
\<close>

lemma prefix_le: "(p :: 'a :: linorder list) \<le> p @ t"
  by (induction p) auto

lemma between_prefix:
  assumes "(p :: 'a :: linorder list) \<le> k" and "k \<le> p @ t"
  shows "has_prefix k p"
  using assms
proof (induction p arbitrary: k)
  case Nil
  then show ?case by simp
next
  case (Cons x xs)
  then show ?case by (cases k) (auto simp: has_prefix_def)
qed

lemma append_less_cancel: "(p :: 'a :: linorder list) @ a < p @ b \<longleftrightarrow> a < b"
  by (induction p) auto

lemma sorted_takeWhile_prefix:
  fixes p :: "'a :: linorder list"
  assumes "sorted (map f xs)" and "\<forall>x \<in> set xs. p \<le> f x"
  shows "takeWhile (\<lambda>x. has_prefix (f x) p) xs = filter (\<lambda>x. has_prefix (f x) p) xs"
  using assms
proof (induction xs)
  case Nil
  then show ?case by simp
next
  case (Cons x xs)
  show ?case
  proof (cases "has_prefix (f x) p")
    case True
    with Cons show ?thesis by simp
  next
    case False
    have "\<not> has_prefix (f y) p" if y: "y \<in> set xs" for y
    proof
      assume "has_prefix (f y) p"
      then obtain t where "f y = p @ t" by (auto simp: has_prefix_iff)
      moreover from Cons.prems y have "p \<le> f x" and "f x \<le> f y" by auto
      ultimately have "has_prefix (f x) p" by (metis between_prefix)
      with False show False ..
    qed
    then have "filter (\<lambda>y. has_prefix (f y) p) xs = []" by (simp add: filter_empty_conv)
    with False show ?thesis by simp
  qed
qed

text \<open>A separator that does not occur in the left parts makes a joined key unambiguous.\<close>

lemma separator_unique:
  "c \<notin> set a \<Longrightarrow> c \<notin> set b \<Longrightarrow> a @ c # x = b @ c # y \<longleftrightarrow> a = b \<and> x = y"
proof (induction a arbitrary: b)
  case Nil
  then show ?case by (cases b) auto
next
  case (Cons z a)
  then show ?case by (cases b) auto
qed

section \<open>Association lists\<close>

lemma map_of_filter_key: "map_of (filter (\<lambda>(k, v). P k) xs) k = (if P k then map_of xs k else None)"
  by (induction xs) auto

section \<open>Lists of workers\<close>

text \<open>
  What a list of workers holds together (a multiset of records, or an amount of work), and how it
  changes when one of them moves.
\<close>

definition gather :: "('w \<Rightarrow> 'm) \<Rightarrow> 'w list \<Rightarrow> 'm :: comm_monoid_add" where
  "gather f ws = sum_list (map f ws)"

lemma gather_Nil [simp]: "gather f [] = 0"
  by (simp add: gather_def)

lemma gather_Cons [simp]: "gather f (w # ws) = f w + gather f ws"
  by (simp add: gather_def)

lemma gather_append [simp]: "gather f (xs @ ys) = gather f xs + gather f ys"
  by (simp add: gather_def)

lemma gather_update [mset_collect]:
  "i < length ws \<Longrightarrow> gather f (ws[i := w]) + f (ws ! i) = gather f ws + f w"
proof (induction ws arbitrary: i)
  case (Cons x xs)
  then show ?case by (cases i) (auto simp: ac_simps)
qed simp

lemma gather_split:
  assumes "i < length ws"
  obtains rest where "gather f ws = f (ws ! i) + rest" and "\<And>w. gather f (ws[i := w]) = f w + rest"
proof
  have "ws = take i ws @ ws ! i # drop (Suc i) ws" using assms by (rule id_take_nth_drop)
  then have "gather f ws = gather f (take i ws @ ws ! i # drop (Suc i) ws)" by simp
  then show "gather f ws = f (ws ! i) + gather f (take i ws @ drop (Suc i) ws)"
    by (simp add: ac_simps)
  show "gather f (ws[i := w]) = f w + gather f (take i ws @ drop (Suc i) ws)" for w
    using assms by (simp add: upd_conv_take_nth_drop ac_simps)
qed

lemma gather_empty: "(\<And>w. w \<in> set ws \<Longrightarrow> f w = 0) \<Longrightarrow> gather f ws = 0"
  by (induction ws) auto

lemma list_all_update:
  "list_all P xs \<Longrightarrow> P y \<Longrightarrow> list_all P (xs[i := y])"
  by (auto simp: list_all_iff dest!: set_update_subset_insert [THEN subsetD])

lemma list_ex_update_keep:
  assumes "list_ex P xs" and "P (xs ! i) \<Longrightarrow> P y"
  shows "list_ex P (xs[i := y])"
proof -
  obtain k where "k < length xs" "P (xs ! k)" using assms(1) by (auto simp: list_ex_length)
  then show ?thesis using assms(2) unfolding list_ex_length
    by (intro exI [of _ k]) (cases "i = k"; simp)
qed

lemma list_ex_update_new: "i < length xs \<Longrightarrow> P y \<Longrightarrow> list_ex P (xs[i := y])"
  by (auto simp: list_ex_length intro!: exI [of _ i])

lemma list_ex_update_dest: "list_ex P (xs[i := y]) \<Longrightarrow> P y \<or> list_ex P xs"
  by (auto simp: list_ex_iff dest!: set_update_subset_insert [THEN subsetD])

lemma in_set_update_cases:
  "x \<in> set (xs[i := y]) \<Longrightarrow> x = y \<or> x \<in> set xs"
  by (auto dest!: set_update_subset_insert [THEN subsetD])

section \<open>Consecutive pieces of a list\<close>

fun chunks_of :: "nat \<Rightarrow> 'a list \<Rightarrow> 'a list list" where
  "chunks_of n xs = (if n = 0 \<or> xs = [] then [] else take n xs # chunks_of n (drop n xs))"

declare chunks_of.simps [simp del]

lemma chunks_of_concat: "0 < n \<Longrightarrow> concat (chunks_of n xs) = xs"
proof (induction n xs rule: chunks_of.induct)
  case (1 n xs)
  then show ?case by (cases "xs = []") (simp_all add: chunks_of.simps [of n xs] chunks_of.simps [of n "[]"])
qed

end
