(* ===== verification/Errs.thy ===== *)
theory Errs
  imports Prelude
begin

text \<open>
  \<open>internal/errs/errors.go\<close>: error values and their classification. A Go \<open>error\<close> is a chain:
  a leaf (\<open>errors.New\<close>, \<open>fmt.Errorf\<close> without \<open>%w\<close>, or one of the sentinel variables) under any number
  of wrappers (\<open>fmt.Errorf\<close> with \<open>%w\<close>, \<open>FatalError\<close>, \<open>TransientError\<close>). The nil error is \<^const>\<open>None\<close>.
\<close>

datatype sentinel = ErrCircuitOpen | ErrCheckpointNotFound | ContextCanceled | IoEOF

datatype goerr =
    ErrMsg string
  | Sentinel sentinel
  | Wrapf string goerr
  | FatalError goerr
  | TransientError goerr

type_synonym 'a result = "goerr + 'a"

fun sentinel_text :: "sentinel \<Rightarrow> string" where
  "sentinel_text ErrCircuitOpen = ''circuit breaker is open''"
| "sentinel_text ErrCheckpointNotFound = ''checkpoint not found''"
| "sentinel_text ContextCanceled = ''context canceled''"
| "sentinel_text IoEOF = ''EOF''"

text \<open>
  The \<open>Error()\<close> methods. Every \<open>%w\<close> in the repository ends its format with \<open>": %w"\<close>, so a
  wrapper is its formatted prefix and the wrapped error.
\<close>

fun err_text :: "goerr \<Rightarrow> string" where
  "err_text (ErrMsg s) = s"
| "err_text (Sentinel x) = sentinel_text x"
| "err_text (Wrapf s e) = s @ '': '' @ err_text e"
| "err_text (FatalError e) = err_text e"
| "err_text (TransientError e) = ''transient: '' @ err_text e"

text \<open>\<open>Unwrap\<close>, and the chain that \<open>errors.As\<close> and \<open>errors.Is\<close> walk.\<close>

fun err_unwrap :: "goerr \<Rightarrow> goerr option" where
  "err_unwrap (Wrapf s e) = Some e"
| "err_unwrap (FatalError e) = Some e"
| "err_unwrap (TransientError e) = Some e"
| "err_unwrap (ErrMsg s) = None"
| "err_unwrap (Sentinel x) = None"

fun err_chain :: "goerr \<Rightarrow> goerr list" where
  "err_chain (Wrapf s e) = Wrapf s e # err_chain e"
| "err_chain (FatalError e) = FatalError e # err_chain e"
| "err_chain (TransientError e) = TransientError e # err_chain e"
| "err_chain (ErrMsg s) = [ErrMsg s]"
| "err_chain (Sentinel x) = [Sentinel x]"

definition errors_as :: "(goerr \<Rightarrow> bool) \<Rightarrow> goerr option \<Rightarrow> bool" where
  "errors_as target err = (case err of None \<Rightarrow> False | Some e \<Rightarrow> list_ex target (err_chain e))"

definition errors_is :: "goerr option \<Rightarrow> goerr \<Rightarrow> bool" where
  "errors_is err target = errors_as (\<lambda>e. e = target) err"

definition fatal :: "goerr option \<Rightarrow> goerr option" where
  "fatal err = (case err of None \<Rightarrow> None | Some e \<Rightarrow> Some (FatalError e))"

definition is_fatal :: "goerr option \<Rightarrow> bool" where
  "is_fatal err = errors_as (\<lambda>e. case e of FatalError _ \<Rightarrow> True | _ \<Rightarrow> False) err"

definition transient :: "goerr option \<Rightarrow> goerr option" where
  "transient err = (case err of None \<Rightarrow> None | Some e \<Rightarrow> Some (TransientError e))"

definition is_transient :: "goerr option \<Rightarrow> bool" where
  "is_transient err = errors_as (\<lambda>e. case e of TransientError _ \<Rightarrow> True | _ \<Rightarrow> False) err"

definition is_retryable :: "goerr option \<Rightarrow> bool" where
  "is_retryable err \<longleftrightarrow> \<not> is_fatal err"

section \<open>Classification lemmas\<close>

lemmas err_class_defs = is_fatal_def is_transient_def is_retryable_def fatal_def transient_def
  errors_as_def errors_is_def

lemma chain_unwrap: "err_chain e = e # (case err_unwrap e of None \<Rightarrow> [] | Some c \<Rightarrow> err_chain c)"
  by (cases e) auto

lemma is_fatal_None [simp]: "\<not> is_fatal None"
  by (simp add: err_class_defs)

lemma is_fatal_simps [simp]:
  "is_fatal (Some (FatalError e))"
  "is_fatal (Some (Wrapf s e)) = is_fatal (Some e)"
  "is_fatal (Some (TransientError e)) = is_fatal (Some e)"
  "\<not> is_fatal (Some (ErrMsg s))"
  "\<not> is_fatal (Some (Sentinel x))"
  by (simp_all add: err_class_defs)

lemma is_transient_simps [simp]:
  "is_transient (Some (TransientError e))"
  "is_transient (Some (Wrapf s e)) = is_transient (Some e)"
  "is_transient (Some (FatalError e)) = is_transient (Some e)"
  "\<not> is_transient (Some (ErrMsg s))"
  "\<not> is_transient (Some (Sentinel x))"
  by (simp_all add: err_class_defs)

text \<open>Whether an error is fatal depends only on a \<open>FatalError\<close> somewhere in its chain: no
  wrapper added with \<open>%w\<close> or \<open>Transient\<close> hides it or makes it up, and only a
  fatal error is not retryable, however it was tagged on the way.\<close>

theorem fatal_classification:
  "is_fatal (Some e) \<longleftrightarrow> (\<exists>c. FatalError c \<in> set (err_chain e)) \<and>
   is_retryable (transient (fatal (Some e))) = False \<and>
   (is_retryable (transient (Some e)) \<longleftrightarrow> is_retryable (Some e)) \<and>
   (is_retryable (Some (Wrapf s e)) \<longleftrightarrow> is_retryable (Some e))"
proof -
  have "(case x of FatalError _ \<Rightarrow> True | _ \<Rightarrow> False) \<longleftrightarrow> (\<exists>c. x = FatalError c)" for x
    by (cases x) auto
  then have "is_fatal (Some e) \<longleftrightarrow> (\<exists>c. FatalError c \<in> set (err_chain e))"
    by (auto simp: err_class_defs list_ex_iff)
  then show ?thesis by (simp add: is_retryable_def fatal_def transient_def)
qed

end
