(* ===== verification/Values.thy ===== *)
theory Values
  imports Complex_Main Errs
begin

text \<open>
  The data that flows between components: dynamic Go values (\<open>any\<close>), \<open>record.Record\<close>
  (\<open>internal/record/record.go\<close>), the canonical schema (\<open>internal/schema/model.go\<close>), partitions
  (\<open>internal/adapter/adapter.go\<close>) and the parts of the configuration the modelled code reads
  (\<open>internal/config/config.go\<close>).

  A float64 is the rational number it denotes; NaN and the infinities are not modelled. A Go map
  is an association list with distinct keys, in the order in which one \<open>range\<close> loop visits it:
  Go leaves that order open, so a statement for every list is a statement for every order.
\<close>

section \<open>Dynamic values\<close>

text \<open>
  A JSON document is its syntax tree; a number literal is an integer literal or one with a fraction
  or exponent, given by the decimal number it denotes. \<open>VNumber\<close> is \<open>json.Number\<close>, which keeps a
  literal. \<open>VOther\<close> is a value of any other driver type: its type name, its \<open>%v\<close> text and what
  its \<open>MarshalJSON\<close> or \<open>MarshalText\<close> gives, if \<open>encoding/json\<close> supports the type.
\<close>

datatype numlit = LInt int | LDec rat

datatype json =
    JNull
  | JBool bool
  | JNum numlit
  | JStr string
  | JArr "json list"
  | JObj "(string \<times> json) list"

datatype gval =
    VNil
  | VBool bool
  | VInt "64 word"
  | VInt32 "32 word"
  | VInt64 "64 word"
  | VFloat32 rat
  | VFloat64 rat
  | VString string
  | VBytes "8 word list"
  | VTime int
  | VNumber numlit
  | VMap "(string \<times> gval) list"
  | VArr "gval list"
  | VOther string string "json option"

type_synonym go_map = "(string \<times> gval) list"

text \<open>\<open>m[k]\<close> with the zero value \<open>nil\<close> for a missing key, and the two-value form.\<close>

definition map_get :: "go_map \<Rightarrow> string \<Rightarrow> gval" where
  "map_get m k = (case map_of m k of None \<Rightarrow> VNil | Some v \<Rightarrow> v)"

fun map_set :: "'k \<Rightarrow> 'v \<Rightarrow> ('k \<times> 'v) list \<Rightarrow> ('k \<times> 'v) list" where
  "map_set k v [] = [(k, v)]"
| "map_set k v ((k', v') # m) = (if k' = k then (k, v) # m else (k', v') # map_set k v m)"

definition map_del :: "'k \<Rightarrow> ('k \<times> 'v) list \<Rightarrow> ('k \<times> 'v) list" where
  "map_del k m = filter (\<lambda>(k', v). k' \<noteq> k) m"

definition map_ok :: "('k \<times> 'v) list \<Rightarrow> bool" where
  "map_ok m \<longleftrightarrow> distinct (map fst m)"

lemma map_of_map_set [simp]: "map_of (map_set k v m) = (map_of m)(k \<mapsto> v)"
  by (induction k v m rule: map_set.induct) auto

lemma keys_map_set: "set (map fst (map_set k v m)) = insert k (set (map fst m))"
  by (induction k v m rule: map_set.induct) auto

lemma keys_map_set_present: "k \<in> fst ` set m \<Longrightarrow> map fst (map_set k v m) = map fst m"
  by (induction k v m rule: map_set.induct) auto

lemma map_ok_set [simp]: "map_ok m \<Longrightarrow> map_ok (map_set k v m)"
proof (induction k v m rule: map_set.induct)
  case (2 k v k' v' m)
  then show ?case using keys_map_set [of k v m] by (auto simp: map_ok_def)
qed (simp add: map_ok_def)

lemma map_of_map_del [simp]: "map_of (map_del k m) = (map_of m)(k := None)"
  by (induction m) (auto simp: map_del_def)

lemma map_ok_del [simp]: "map_ok m \<Longrightarrow> map_ok (map_del k m)"
  by (simp add: map_ok_def map_del_def distinct_map_filter)

section \<open>Records\<close>

record record_metadata =
  source_table :: string
  source_db :: string
  partition_id :: string
  offset :: gval

record go_record =
  rec_id :: string
  rec_data :: go_map
  rec_meta :: record_metadata

text \<open>The zero \<open>RecordMetadata{}\<close>.\<close>

definition zero_metadata :: record_metadata where
  "zero_metadata = \<lparr>source_table = [], source_db = [], partition_id = [], offset = VNil\<rparr>"

section \<open>Schemas\<close>

record column =
  col_name :: string
  col_type :: string
  nullable :: bool
  primary_key :: bool

record db_schema =
  schema_name :: string
  columns :: "column list"

section \<open>Partitions\<close>

record partition =
  part_id :: string
  part_table :: string
  part_start :: gval
  part_end :: gval

section \<open>Configuration\<close>

record concurrency_config =
  num_readers :: int
  num_transformers :: int
  num_writers :: int
  batch_size :: int
  batch_timeout :: int
  rate_limit_rps :: int
  flush_every_n_batches :: int

record masking_config =
  mask_column :: string
  mask_strategy :: string

end
