(* ===== verification/Float64.thy ===== *)
theory Float64
  imports Complex_Main "HOL-Library.Word"
begin

text \<open>
  Go's float64 and float32 arithmetic on finite numbers: IEEE 754 round-to-nearest, ties to even,
  written on the rational numbers that floats denote. The exponent is not bounded, so overflow to
  infinity and gradual underflow are outside the model. Also here: the shortest decimal that
  \<open>strconv\<close> prints for a float (what \<open>encoding/json\<close> writes), and the truncating conversion
  \<open>int64(f)\<close>.
\<close>

section \<open>Rounding to a binary precision\<close>

function ilog2 :: "int \<Rightarrow> nat" where
  "ilog2 n = (if n < 2 then 0 else Suc (ilog2 (n div 2)))"
  by pat_completeness auto
termination
  by (relation "measure nat") auto

declare ilog2.simps [simp del]

text \<open>\<open>\<lfloor>log\<^sub>2 x\<rfloor>\<close> of a positive rational.\<close>

definition rlog2 :: "rat \<Rightarrow> int" where
  "rlog2 x =
     (let (n, d) = quotient_of x; k = int (ilog2 n) - int (ilog2 d)
      in if 2 powi k \<le> x then k else k - 1)"

text \<open>Round to the nearest integer, ties to even.\<close>

definition rne :: "rat \<Rightarrow> int" where
  "rne x =
     (let f = \<lfloor>x\<rfloor>; r = x - of_int f
      in if r < 1 / 2 then f else if 1 / 2 < r then f + 1 else if even f then f else f + 1)"

definition round_to :: "nat \<Rightarrow> rat \<Rightarrow> rat" where
  "round_to p x =
     (if x = 0 then 0
      else let e = rlog2 \<bar>x\<bar> - (int p - 1)
           in sgn x * of_int (rne (\<bar>x\<bar> / 2 powi e)) * 2 powi e)"

definition f64_round :: "rat \<Rightarrow> rat" where
  "f64_round x = round_to 53 x"

definition f32_round :: "rat \<Rightarrow> rat" where
  "f32_round x = round_to 24 x"

text \<open>\<open>int64(f)\<close> truncates towards zero (a result out of range is left to the implementation).\<close>

definition trunc_rat :: "rat \<Rightarrow> int" where
  "trunc_rat x = (if 0 \<le> x then \<lfloor>x\<rfloor> else \<lceil>x\<rceil>)"

section \<open>The shortest decimal\<close>

text \<open>\<open>\<lfloor>log\<^sub>1\<^sub>0 x\<rfloor>\<close> by search from below, and rounding to \<open>n\<close> significant decimal digits.\<close>

function ilog10 :: "int \<Rightarrow> nat" where
  "ilog10 n = (if n < 10 then 0 else Suc (ilog10 (n div 10)))"
  by pat_completeness auto
termination
  by (relation "measure nat") auto

declare ilog10.simps [simp del]

definition rlog10 :: "rat \<Rightarrow> int" where
  "rlog10 x =
     (let (n, d) = quotient_of x; k = int (ilog10 n) - int (ilog10 d)
      in if 10 powi k \<le> x then k else k - 1)"

definition decimal_digits :: "nat \<Rightarrow> rat \<Rightarrow> rat" where
  "decimal_digits n x =
     (if x = 0 then 0
      else let e = rlog10 \<bar>x\<bar> - (int n - 1)
           in sgn x * of_int (rne (\<bar>x\<bar> / 10 powi e)) * 10 powi e)"

text \<open>
  The first of 1, 2, \<dots>, 17 digits whose decimal reads back as the same float (17 are always
  enough; the exact expansion stands in the model for a search that failed).
\<close>

definition shortest_decimal :: "nat \<Rightarrow> rat \<Rightarrow> rat" where
  "shortest_decimal p x =
     (case filter (\<lambda>d. round_to p d = x) (map (\<lambda>n. decimal_digits n x)
           [1, 2, 3, 4, 5, 6, 7, 8, 9, 10, 11, 12, 13, 14, 15, 16, 17]) of
        [] \<Rightarrow> x | d # _ \<Rightarrow> d)"

section \<open>Facts about rounding\<close>

lemma floor_numeral_div [simp]: "\<lfloor>numeral a / numeral b :: rat\<rfloor> = numeral a div numeral b"
  by (metis floor_divide_of_int_eq of_int_numeral)

lemma rne_of_int [simp]: "rne (of_int i) = i"
  by (simp add: rne_def)

lemma rne_bounds: "x - 1 / 2 \<le> of_int (rne x)" "of_int (rne x) \<le> x + 1 / 2"
proof -
  have f: "of_int \<lfloor>x\<rfloor> \<le> x" "x < of_int \<lfloor>x\<rfloor> + 1" by linarith+
  show "x - 1 / 2 \<le> of_int (rne x)" using f by (auto simp: rne_def Let_def; linarith)
  show "of_int (rne x) \<le> x + 1 / 2" using f by (auto simp: rne_def Let_def; linarith)
qed

lemma rne_mono: assumes "x \<le> y" shows "rne x \<le> rne y"
proof (cases "\<lfloor>x\<rfloor> = \<lfloor>y\<rfloor>")
  case True
  with assms show ?thesis by (auto simp: rne_def Let_def)
next
  case False
  with assms have lt: "\<lfloor>x\<rfloor> + 1 \<le> \<lfloor>y\<rfloor>" by (metis floor_mono le_less zless_iff_Suc_zadd
        order.not_eq_order_implies_strict zless_imp_add1_zle)
  have "rne x \<le> \<lfloor>x\<rfloor> + 1" "\<lfloor>y\<rfloor> \<le> rne y" by (auto simp: rne_def Let_def)
  with lt show ?thesis by linarith
qed

lemma round_to_0 [simp]: "round_to p 0 = 0"
  by (simp add: round_to_def)

lemma round_to_exact:
  assumes "\<bar>x\<bar> / 2 powi (rlog2 \<bar>x\<bar> - (int p - 1)) = of_int m"
  shows "round_to p x = x"
proof (cases "x = 0")
  case False
  let ?e = "rlog2 \<bar>x\<bar> - (int p - 1)"
  have "\<bar>x\<bar> = of_int m * 2 powi ?e"
    using assms by (simp add: nonzero_divide_eq_eq)
  moreover have "round_to p x = sgn x * (of_int m * 2 powi ?e)"
    using False assms by (simp add: round_to_def Let_def mult.assoc)
  ultimately show ?thesis by (metis mult_sgn_abs mult.commute)
qed simp

lemma shortest_decimal_reads_back:
  assumes "round_to p x = x"
  shows "round_to p (shortest_decimal p x) = x"
proof -
  define cs where "cs = map (\<lambda>n. decimal_digits n x)
    [1, 2, 3, 4, 5, 6, 7, 8, 9, 10, 11, 12, 13, 14, 15, 16, 17]"
  have dec: "shortest_decimal p x =
      (case filter (\<lambda>d. round_to p d = x) cs of [] \<Rightarrow> x | d # _ \<Rightarrow> d)"
    by (simp only: shortest_decimal_def cs_def)
  show ?thesis
  proof (cases "filter (\<lambda>d. round_to p d = x) cs")
    case Nil
    with assms show ?thesis by (simp add: dec)
  next
    case (Cons d ds)
    then have "d \<in> set (filter (\<lambda>d. round_to p d = x) cs)" by simp
    then have "round_to p d = x" by (simp only: set_filter mem_Collect_eq)
    with Cons show ?thesis by (simp add: dec)
  qed
qed

lemma ilog2_bounds: "0 < n \<Longrightarrow> 2 ^ ilog2 n \<le> n \<and> n < 2 ^ Suc (ilog2 n)"
proof (induction n rule: ilog2.induct)
  case (1 n)
  show ?case
  proof (cases "n < 2")
    case True
    with 1 show ?thesis by (simp add: ilog2.simps)
  next
    case False
    with 1 have "2 ^ ilog2 (n div 2) \<le> n div 2 \<and> n div 2 < 2 ^ Suc (ilog2 (n div 2))" by simp
    with False show ?thesis by (subst (1 2) ilog2.simps) auto
  qed
qed

lemma rlog2_bounds:
  assumes "0 < x"
  shows "2 powi rlog2 x \<le> x" and "x < 2 powi (rlog2 x + 1)"
proof -
  obtain n d where q: "quotient_of x = (n, d)" by (cases "quotient_of x")
  then have d: "0 < d" and x: "x = of_int n / of_int d"
    by (auto simp: quotient_of_denom_pos dest: quotient_of_div)
  with assms have n: "0 < n" by (simp add: zero_less_divide_iff)
  let ?a = "ilog2 n" and ?b = "ilog2 d"
  define k where "k = int ?a - int ?b"
  have le_cast: "(2 :: rat) ^ m \<le> of_int j" if "2 ^ m \<le> j" for m j
  proof -
    have "of_int (2 ^ m) \<le> (of_int j :: rat)" using that by (simp only: of_int_le_iff)
    then show ?thesis by simp
  qed
  have less_cast: "of_int j < (2 :: rat) ^ m" if "j < 2 ^ m" for m j
  proof -
    have "of_int j < (of_int (2 ^ m) :: rat)" using that by (simp only: of_int_less_iff)
    then show ?thesis by simp
  qed
  have bn: "2 ^ ?a \<le> n" "n < 2 ^ Suc ?a" and bd: "2 ^ ?b \<le> d" "d < 2 ^ Suc ?b"
    using ilog2_bounds [of n] ilog2_bounds [of d] n d by simp_all
  have r: "(2 :: rat) ^ ?a \<le> of_int n" "of_int n < (2 :: rat) ^ Suc ?a"
    "(2 :: rat) ^ ?b \<le> of_int d" "of_int d < (2 :: rat) ^ Suc ?b"
    by (rule le_cast less_cast, rule bn bd)+
  have dp: "(0 :: rat) < of_int d" using d by simp
  have pk: "(2 :: rat) powi k = 2 ^ ?a / 2 ^ ?b"
    by (simp add: k_def power_int_diff)
  have hi: "x < 2 powi (k + 1)"
  proof -
    have "of_int n * 2 ^ ?b < (2 :: rat) ^ Suc ?a * of_int d"
    proof (rule less_le_trans)
      show "of_int n * 2 ^ ?b < (2 :: rat) ^ Suc ?a * 2 ^ ?b"
        using r(2) by (intro mult_strict_right_mono) auto
      show "(2 :: rat) ^ Suc ?a * 2 ^ ?b \<le> 2 ^ Suc ?a * of_int d"
        using r(3) by (intro mult_left_mono) auto
    qed
    then show ?thesis using dp
      by (simp add: x power_int_add pk field_simps)
  qed
  have lo: "2 powi (k - 1) \<le> x"
  proof -
    have "(2 :: rat) ^ ?a * of_int d \<le> of_int n * 2 ^ Suc ?b"
      using r d n by (intro mult_mono) auto
    then show ?thesis using dp
      by (simp add: x power_int_diff pk field_simps)
  qed
  have "rlog2 x = (if 2 powi k \<le> x then k else k - 1)"
    by (simp add: rlog2_def q k_def)
  then show "2 powi rlog2 x \<le> x" and "x < 2 powi (rlog2 x + 1)"
    using lo hi by (auto simp: not_le)
qed

text \<open>Every integer of at most 53 bits is a float64.\<close>

lemma f64_round_int:
  assumes "\<bar>i\<bar> \<le> 2 ^ 53"
  shows "f64_round (of_int i) = of_int i"
proof (cases "i = 0")
  case False
  let ?x = "\<bar>of_int i :: rat\<bar>"
  have x0: "0 < ?x" using False by simp
  have xi: "?x = of_int \<bar>i\<bar>" by simp
  define l where "l = rlog2 ?x"
  have lo: "2 powi l \<le> ?x" using rlog2_bounds(1) [OF x0] by (simp add: l_def)
  have "l \<le> 53"
  proof (rule ccontr)
    assume "\<not> l \<le> 53"
    then have "(2 :: rat) powi 54 \<le> 2 powi l" by (intro power_int_increasing) auto
    also have "\<dots> \<le> of_int (2 ^ 53)" using lo assms xi by (metis of_int_le_iff order_trans)
    finally show False by simp
  qed
  then consider "l \<le> 52" | "l = 53" by linarith
  then have "\<exists>m. ?x / 2 powi (l - 52) = of_int m"
  proof cases
    case 1
    then have "l - 52 = - int (nat (52 - l))" by simp
    then have e: "(2 :: rat) powi (l - 52) = inverse (2 ^ nat (52 - l))"
      by (metis power_int_minus power_int_of_nat)
    have "?x / 2 powi (l - 52) = ?x * 2 ^ nat (52 - l)"
      unfolding e divide_inverse by simp
    then have "?x / 2 powi (l - 52) = of_int (\<bar>i\<bar> * 2 ^ nat (52 - l))"
      by (simp only: of_int_mult of_int_power of_int_numeral xi)
    then show ?thesis ..
  next
    case 2
    then have "of_int (2 ^ 53) \<le> (of_int \<bar>i\<bar> :: rat)" using lo by simp
    then have "2 ^ 53 \<le> \<bar>i\<bar>" by (simp only: of_int_le_iff)
    with assms have "\<bar>i\<bar> = 2 ^ 53" by simp
    then have "?x / 2 powi (l - 52) = of_int (2 ^ 52)" using 2 xi by simp
    then show ?thesis ..
  qed
  then obtain m where "?x / 2 powi (rlog2 ?x - (int 53 - 1)) = of_int m"
    by (auto simp: l_def)
  then show ?thesis unfolding f64_round_def by (rule round_to_exact)
qed (simp add: f64_round_def)

lemma f64_round_2p53_plus_1: "f64_round 9007199254740993 = 9007199254740992"
  by (simp add: f64_round_def round_to_def rlog2_def ilog2.simps rne_def)

lemma shortest_decimal_2p53: "shortest_decimal 53 9007199254740992 = 9007199254740992"
proof -
  have "rlog10 9007199254740992 = 15" by (simp add: rlog10_def ilog10.simps)
  then show ?thesis
    by (simp add: shortest_decimal_def decimal_digits_def round_to_def rlog2_def ilog2.simps rne_def)
qed

end
