(* ===== verification/Json.thy ===== *)
theory Json
  imports Values Float64
begin

text \<open>
  What \<open>encoding/json\<close> does to a value of type \<open>any\<close>: \<open>json.Marshal\<close> to a syntax tree and decoding
  a tree back into \<open>any\<close>, with and without \<open>Decoder.UseNumber\<close>. The printing and parsing of the
  text itself is not modelled; struct fields of a fixed Go type (strings, integers, times) come
  back as they were. Also here: RFC 3339 text of a time (UTC) and base64 of a byte slice.
\<close>

section \<open>Times and byte slices as text\<close>

text \<open>The civil date of a day number counted from 1970-01-01 (proleptic Gregorian calendar).\<close>

definition civil_from_days :: "int \<Rightarrow> int \<times> int \<times> int" where
  "civil_from_days z0 =
     (let z = z0 + 719468; era = z div 146097; doe = z mod 146097;
          yoe = (doe - doe div 1460 + doe div 36524 - doe div 146096) div 365;
          doy = doe - (365 * yoe + yoe div 4 - yoe div 100);
          mp = (5 * doy + 2) div 153;
          d = doy - (153 * mp + 2) div 5 + 1;
          m = (if mp < 10 then mp + 3 else mp - 9)
      in (yoe + era * 400 + (if m \<le> 2 then 1 else 0), m, d))"

function digits_of :: "int \<Rightarrow> string" where
  "digits_of n = (if n < 10 then [digit_char (nat n)]
     else digits_of (n div 10) @ [digit_char (nat (n mod 10))])"
  by pat_completeness auto
termination
  by (relation "measure nat") auto

declare digits_of.simps [simp del]

definition pad_int :: "nat \<Rightarrow> int \<Rightarrow> string" where
  "pad_int w i = (let s = digits_of i in replicate (w - length s) (CHR ''0'') @ s)"

fun drop_trailing_zeros :: "string \<Rightarrow> string" where
  "drop_trailing_zeros s = rev (dropWhile (\<lambda>c. c = CHR ''0'') (rev s))"

definition rfc3339_nano :: "int \<Rightarrow> string" where
  "rfc3339_nano t =
     (let secs = t div 1000000000; ns = t mod 1000000000;
          (y, m, d) = civil_from_days (secs div 86400); r = secs mod 86400
      in pad_int 4 y @ ''-'' @ pad_int 2 m @ ''-'' @ pad_int 2 d @ ''T'' @
         pad_int 2 (r div 3600) @ '':'' @ pad_int 2 (r div 60 mod 60) @ '':'' @ pad_int 2 (r mod 60) @
         (if ns = 0 then [] else ''.'' @ drop_trailing_zeros (pad_int 9 ns)) @ ''Z'')"

definition b64_char :: "nat \<Rightarrow> char" where
  "b64_char n =
     (if n < 26 then char_of (65 + n) else if n < 52 then char_of (71 + n)
      else if n < 62 then char_of (n - 4) else if n = 62 then CHR ''+'' else CHR ''/'')"

fun base64 :: "8 word list \<Rightarrow> string" where
  "base64 [] = []"
| "base64 [a] = (let n = unat a * 16 in [b64_char (n div 64), b64_char (n mod 64), CHR ''='', CHR ''=''])"
| "base64 [a, b] = (let n = (unat a * 256 + unat b) * 4 in
     [b64_char (n div 4096), b64_char (n div 64 mod 64), b64_char (n mod 64), CHR ''=''])"
| "base64 (a # b # c # bs) = (let n = (unat a * 256 + unat b) * 256 + unat c in
     [b64_char (n div 262144), b64_char (n div 4096 mod 64), b64_char (n div 64 mod 64),
      b64_char (n mod 64)] @ base64 bs)"

section \<open>Marshalling and decoding\<close>

text \<open>
  A float is printed as its shortest decimal; without an exponent (and so as an integer literal
  when the decimal is integral) when its magnitude is below \<open>1e21\<close>.
\<close>

definition float_lit :: "nat \<Rightarrow> rat \<Rightarrow> numlit" where
  "float_lit p x =
     (let d = shortest_decimal p x
      in if d = of_int \<lfloor>d\<rfloor> \<and> \<bar>x\<bar> < 10 ^ 21 then LInt \<lfloor>d\<rfloor> else LDec d)"

fun lit_value :: "numlit \<Rightarrow> rat" where
  "lit_value (LInt i) = of_int i"
| "lit_value (LDec q) = q"

text \<open>Object keys of a Go map are written in sorted order.\<close>

fun to_json :: "gval \<Rightarrow> json result"
  and to_json_list :: "gval list \<Rightarrow> json list result"
  and to_json_fields :: "(string \<times> gval) list \<Rightarrow> (string \<times> json) list result" where
  "to_json VNil = Inr JNull"
| "to_json (VBool b) = Inr (JBool b)"
| "to_json (VInt w) = Inr (JNum (LInt (sint w)))"
| "to_json (VInt32 w) = Inr (JNum (LInt (sint w)))"
| "to_json (VInt64 w) = Inr (JNum (LInt (sint w)))"
| "to_json (VFloat32 x) = Inr (JNum (float_lit 24 x))"
| "to_json (VFloat64 x) = Inr (JNum (float_lit 53 x))"
| "to_json (VString s) = Inr (JStr s)"
| "to_json (VBytes bs) = Inr (JStr (base64 bs))"
| "to_json (VTime t) = Inr (JStr (rfc3339_nano t))"
| "to_json (VNumber n) = Inr (JNum n)"
| "to_json (VMap m) = rbind (to_json_fields m) (\<lambda>fs. Inr (JObj (sort_key fst fs)))"
| "to_json (VArr vs) = rbind (to_json_list vs) (\<lambda>js. Inr (JArr js))"
| "to_json (VOther ty _ None) = Inl (ErrMsg (''json: unsupported type: '' @ ty))"
| "to_json (VOther _ _ (Some j)) = Inr j"
| "to_json_list [] = Inr []"
| "to_json_list (v # vs) = rbind (to_json v) (\<lambda>j. rbind (to_json_list vs) (\<lambda>js. Inr (j # js)))"
| "to_json_fields [] = Inr []"
| "to_json_fields ((k, v) # m) =
     rbind (to_json v) (\<lambda>j. rbind (to_json_fields m) (\<lambda>fs. Inr ((k, j) # fs)))"

text \<open>Decoding into \<open>any\<close>: numbers become \<open>json.Number\<close> with \<open>UseNumber\<close>, else the nearest float64.\<close>

fun from_json :: "bool \<Rightarrow> json \<Rightarrow> gval" where
  "from_json _ JNull = VNil"
| "from_json _ (JBool b) = VBool b"
| "from_json use_number (JNum n) =
     (if use_number then VNumber n else VFloat64 (f64_round (lit_value n)))"
| "from_json _ (JStr s) = VString s"
| "from_json use_number (JArr js) = VArr (map (from_json use_number) js)"
| "from_json use_number (JObj fs) = VMap (map (\<lambda>(k, j). (k, from_json use_number j)) fs)"

text \<open>Decoding into \<open>map[string]any\<close>; \<open>null\<close> leaves the map nil.\<close>

definition object_of_json :: "bool \<Rightarrow> json \<Rightarrow> go_map result" where
  "object_of_json use_number j =
     (case j of
        JObj fs \<Rightarrow> Inr (map (\<lambda>(k, v). (k, from_json use_number v)) fs)
      | JNull \<Rightarrow> Inr []
      | _ \<Rightarrow> Inl (ErrMsg ''json: cannot unmarshal value into Go value of type map[string]interface {}''))"

section \<open>Facts\<close>

text \<open>
  A tree whose objects list their keys in order is unchanged by decoding with \<open>UseNumber\<close> and
  marshalling again.
\<close>

fun canonical :: "json \<Rightarrow> bool" where
  "canonical (JArr js) = list_all canonical js"
| "canonical (JObj fs) = (sorted (map fst fs) \<and> list_all (\<lambda>(k, j). canonical j) fs)"
| "canonical _ = True"

lemma to_json_fields_reload:
  assumes "\<forall>p \<in> set fs. to_json (from_json u (snd p)) = Inr (snd p)"
  shows "to_json_fields (map (\<lambda>(k, j). (k, from_json u j)) fs) = Inr fs"
  using assms by (induction fs) auto

lemma to_json_list_reload:
  assumes "\<And>j. j \<in> set js \<Longrightarrow> to_json (from_json u j) = Inr j"
  shows "to_json_list (map (from_json u) js) = Inr js"
  using assms by (induction js) auto

lemma reload_canonical: "canonical j \<Longrightarrow> to_json (from_json True j) = Inr j"
proof (induction j rule: canonical.induct)
  case (1 js)
  then show ?case by (simp add: to_json_list_reload list_all_iff)
next
  case (2 fs)
  have "to_json_fields (map (\<lambda>(k, j). (k, from_json True j)) fs) = Inr fs"
    using 2 by (intro to_json_fields_reload) (fastforce simp: list_all_iff)
  moreover have "sort_key fst fs = fs"
    using 2(2) by (simp add: sort_key_id_if_sorted)
  ultimately show ?case by simp
qed auto

end
