(* ===== verification/Checkpoint.thy ===== *)
theory Checkpoint
  imports Json
begin

text \<open>
  \<open>internal/checkpoint\<close>: \<open>model.go\<close>, \<open>store.go\<close> and \<open>gc.go\<close>. The bbolt database is not under
  \<open>src/\<close>: its two buckets are parameters, each a state with the operations the store calls
  (\<open>Get\<close>, \<open>Put\<close>, \<open>Delete\<close>, and a cursor's \<open>Seek\<close> followed by \<open>Next\<close> to the end). What the store
  relies on, bbolt's documented behaviour, is the hypothesis \<open>bolt_laws\<close>. A transaction that
  returns an error is rolled back: the operations below return the error and no new state.
\<close>

section \<open>Data\<close>

datatype partition_status = StatusPending | StatusInProgress | StatusDone | StatusFailed

record partition_checkpoint =
  cp_partition_id :: string
  cp_status :: partition_status
  cp_last_committed :: gval
  cp_rows_written :: int
  cp_error_count :: int
  cp_updated_at :: int

record operation_meta =
  operation_id :: string
  start_time :: int
  config_hash :: string

text \<open>A checkpoint as stored: the field of type \<open>any\<close> has become JSON.\<close>

record stored_checkpoint =
  sc_partition_id :: string
  sc_status :: partition_status
  sc_last_committed :: json
  sc_rows_written :: int
  sc_error_count :: int
  sc_updated_at :: int

definition encode_checkpoint :: "partition_checkpoint \<Rightarrow> stored_checkpoint result" where
  "encode_checkpoint cp =
     rbind (to_json (cp_last_committed cp)) (\<lambda>j. Inr
       \<lparr>sc_partition_id = cp_partition_id cp, sc_status = cp_status cp, sc_last_committed = j,
        sc_rows_written = cp_rows_written cp, sc_error_count = cp_error_count cp,
        sc_updated_at = cp_updated_at cp\<rparr>)"

definition decode_checkpoint :: "bool \<Rightarrow> stored_checkpoint \<Rightarrow> partition_checkpoint" where
  "decode_checkpoint use_number sc =
     \<lparr>cp_partition_id = sc_partition_id sc, cp_status = sc_status sc,
      cp_last_committed = from_json use_number (sc_last_committed sc),
      cp_rows_written = sc_rows_written sc, cp_error_count = sc_error_count sc,
      cp_updated_at = sc_updated_at sc\<rparr>"

section \<open>Buckets\<close>

text \<open>A stored value is \<^const>\<open>None\<close> when its bytes do not decode.\<close>

record ('b, 'v) bolt_ops =
  bo_get :: "'b \<Rightarrow> string \<Rightarrow> 'v option"
  bo_put :: "'b \<Rightarrow> string \<Rightarrow> 'v \<Rightarrow> 'b result"
  bo_delete :: "'b \<Rightarrow> string \<Rightarrow> 'b result"
  bo_seek :: "'b \<Rightarrow> string \<Rightarrow> (string \<times> 'v) list"

definition bolt_laws :: "('b, 'v) bolt_ops \<Rightarrow> bool" where
  "bolt_laws ops \<longleftrightarrow>
     (\<forall>b k v b'. bo_put ops b k v = Inr b' \<longrightarrow>
        (\<forall>k'. bo_get ops b' k' = (if k' = k then Some v else bo_get ops b k'))) \<and>
     (\<forall>b k b'. bo_delete ops b k = Inr b' \<longrightarrow>
        (\<forall>k'. bo_get ops b' k' = (if k' = k then None else bo_get ops b k'))) \<and>
     (\<forall>b p. sorted_wrt (<) (map fst (bo_seek ops b p)) \<and>
        set (bo_seek ops b p) = {(k, v). bo_get ops b k = Some v \<and> p \<le> k})"

record ('m, 'p) bolt_db =
  meta_ops :: "('m, operation_meta option) bolt_ops"
  part_ops :: "('p, stored_checkpoint option) bolt_ops"

record ('m, 'p) store =
  meta_bucket :: 'm
  partition_bucket :: 'p

definition bolt_db_laws :: "('m, 'p) bolt_db \<Rightarrow> bool" where
  "bolt_db_laws db \<longleftrightarrow> bolt_laws (meta_ops db) \<and> bolt_laws (part_ops db)"

section \<open>Opening\<close>

text \<open>
  \<open>bf_open\<close> opens the file, waiting at most a second for its lock; \<open>bf_create\<close> is
  \<open>CreateBucketIfNotExists\<close> inside the transaction and \<open>bf_commit\<close> its end; an error leaves the
  file as it was.
\<close>

record ('f, 'm, 'p) bolt_file =
  bf_open :: "string \<Rightarrow> 'f result"
  bf_create :: "'f \<Rightarrow> string \<Rightarrow> 'f result"
  bf_commit :: "'f \<Rightarrow> ('m, 'p) store result"

definition init_buckets :: "('f, 'm, 'p) bolt_file \<Rightarrow> 'f \<Rightarrow> ('m, 'p) store result" where
  "init_buckets bf f =
     rbind (bf_create bf f ''meta'') (\<lambda>f1. rbind (bf_create bf f1 ''partitions'') (\<lambda>f2. bf_commit bf f2))"

definition new_store :: "('f, 'm, 'p) bolt_file \<Rightarrow> string \<Rightarrow> ('m, 'p) store result" where
  "new_store bf path =
     (case bf_open bf path of
        Inl e \<Rightarrow> Inl (Wrapf ''failed to open bbolt db'' e)
      | Inr f \<Rightarrow>
          (case init_buckets bf f of
             Inl e \<Rightarrow> Inl (Wrapf ''failed to initialize buckets'' e)
           | Inr st \<Rightarrow> Inr st))"

section \<open>Operations\<close>

definition partition_key :: "string \<Rightarrow> string \<Rightarrow> string" where
  "partition_key op_id pid = op_id @ '':'' @ pid"

definition partition_key_prefix :: "string \<Rightarrow> string" where
  "partition_key_prefix op_id = op_id @ '':''"

abbreviation checkpoint_not_found :: goerr where
  "checkpoint_not_found \<equiv> Sentinel ErrCheckpointNotFound"

definition save_meta :: "('m, 'p) bolt_db \<Rightarrow> ('m, 'p) store \<Rightarrow> operation_meta \<Rightarrow> ('m, 'p) store result" where
  "save_meta db st meta =
     rbind (bo_put (meta_ops db) (meta_bucket st) (operation_id meta) (Some meta))
       (\<lambda>m'. Inr (st\<lparr>meta_bucket := m'\<rparr>))"

definition get_meta :: "('m, 'p) bolt_db \<Rightarrow> ('m, 'p) store \<Rightarrow> string \<Rightarrow> operation_meta result" where
  "get_meta db st op_id =
     (case bo_get (meta_ops db) (meta_bucket st) op_id of
        None \<Rightarrow> Inl checkpoint_not_found
      | Some None \<Rightarrow> Inl (ErrMsg ''json: cannot unmarshal'')
      | Some (Some meta) \<Rightarrow> Inr meta)"

definition save_partition ::
  "('m, 'p) bolt_db \<Rightarrow> ('m, 'p) store \<Rightarrow> string \<Rightarrow> partition_checkpoint \<Rightarrow> ('m, 'p) store result" where
  "save_partition db st op_id cp =
     rbind (encode_checkpoint cp) (\<lambda>data.
     rbind (bo_put (part_ops db) (partition_bucket st) (partition_key op_id (cp_partition_id cp))
              (Some data))
       (\<lambda>p'. Inr (st\<lparr>partition_bucket := p'\<rparr>)))"

definition get_partition ::
  "('m, 'p) bolt_db \<Rightarrow> ('m, 'p) store \<Rightarrow> string \<Rightarrow> string \<Rightarrow> partition_checkpoint result" where
  "get_partition db st op_id pid =
     (case bo_get (part_ops db) (partition_bucket st) (partition_key op_id pid) of
        None \<Rightarrow> Inl checkpoint_not_found
      | Some None \<Rightarrow> Inl (ErrMsg ''json: cannot unmarshal'')
      | Some (Some data) \<Rightarrow> Inr (decode_checkpoint True data))"

text \<open>The cursor loop \<open>for k, v := c.Seek(prefix); k != nil && HasPrefix(k, prefix); k, v = c.Next()\<close>.\<close>

definition cursor_prefix :: "('b, 'v) bolt_ops \<Rightarrow> 'b \<Rightarrow> string \<Rightarrow> (string \<times> 'v) list" where
  "cursor_prefix ops b prefix = takeWhile (\<lambda>(k, v). has_prefix k prefix) (bo_seek ops b prefix)"

fun decode_partitions :: "(string \<times> stored_checkpoint option) list \<Rightarrow> partition_checkpoint list result" where
  "decode_partitions [] = Inr []"
| "decode_partitions ((k, None) # kvs) =
     Inl (Wrapf (''failed to decode partition '' @ k) (ErrMsg ''json: cannot unmarshal''))"
| "decode_partitions ((k, Some data) # kvs) =
     rbind (decode_partitions kvs) (\<lambda>cps. Inr (decode_checkpoint True data # cps))"

definition list_partitions ::
  "('m, 'p) bolt_db \<Rightarrow> ('m, 'p) store \<Rightarrow> string \<Rightarrow> partition_checkpoint list result" where
  "list_partitions db st op_id =
     decode_partitions (cursor_prefix (part_ops db) (partition_bucket st) (partition_key_prefix op_id))"

text \<open>\<open>SaveStatus\<close> decodes with \<open>json.Unmarshal\<close>, that is without \<open>UseNumber\<close>.\<close>

definition save_status ::
  "('m, 'p) bolt_db \<Rightarrow> int \<Rightarrow> ('m, 'p) store \<Rightarrow> string \<Rightarrow> string \<Rightarrow> partition_status
   \<Rightarrow> ('m, 'p) store result" where
  "save_status db now st op_id pid status =
     (let key = partition_key op_id pid in
      case bo_get (part_ops db) (partition_bucket st) key of
        None \<Rightarrow> Inl checkpoint_not_found
      | Some None \<Rightarrow> Inl (ErrMsg ''json: cannot unmarshal'')
      | Some (Some data) \<Rightarrow>
          rbind (encode_checkpoint
                   ((decode_checkpoint False data)\<lparr>cp_status := status, cp_updated_at := now\<rparr>))
            (\<lambda>new_data. rbind (bo_put (part_ops db) (partition_bucket st) key (Some new_data))
               (\<lambda>p'. Inr (st\<lparr>partition_bucket := p'\<rparr>))))"

fun delete_keys :: "('b, 'v) bolt_ops \<Rightarrow> 'b \<Rightarrow> string list \<Rightarrow> 'b result" where
  "delete_keys ops b [] = Inr b"
| "delete_keys ops b (k # ks) = rbind (bo_delete ops b k) (\<lambda>b'. delete_keys ops b' ks)"

definition delete_operation :: "('m, 'p) bolt_db \<Rightarrow> ('m, 'p) store \<Rightarrow> string \<Rightarrow> ('m, 'p) store result" where
  "delete_operation db st op_id =
     rbind (bo_delete (meta_ops db) (meta_bucket st) op_id) (\<lambda>m'.
     rbind (delete_keys (part_ops db) (partition_bucket st)
              (map fst (cursor_prefix (part_ops db) (partition_bucket st) (partition_key_prefix op_id))))
       (\<lambda>p'. Inr (st\<lparr>meta_bucket := m', partition_bucket := p'\<rparr>)))"

text \<open>\<open>Bucket.ForEach\<close> visits every key in order.\<close>

definition list_all_meta_ids :: "('m, 'p) bolt_db \<Rightarrow> ('m, 'p) store \<Rightarrow> string list" where
  "list_all_meta_ids db st = map fst (bo_seek (meta_ops db) (meta_bucket st) [])"

fun decode_metas :: "operation_meta option list \<Rightarrow> operation_meta list result" where
  "decode_metas [] = Inr []"
| "decode_metas (None # vs) = Inl (ErrMsg ''json: cannot unmarshal'')"
| "decode_metas (Some meta # vs) = rbind (decode_metas vs) (\<lambda>ms. Inr (meta # ms))"

definition list_all_meta :: "('m, 'p) bolt_db \<Rightarrow> ('m, 'p) store \<Rightarrow> operation_meta list result" where
  "list_all_meta db st = decode_metas (map snd (bo_seek (meta_ops db) (meta_bucket st) []))"

text \<open>\<open>GC\<close>: an unreadable entry is skipped, and a failed deletion is only logged.\<close>

fun gc_loop :: "('m, 'p) bolt_db \<Rightarrow> int \<Rightarrow> ('m, 'p) store \<Rightarrow> string list \<Rightarrow> ('m, 'p) store" where
  "gc_loop db cutoff st [] = st"
| "gc_loop db cutoff st (i # ids) =
     (case get_meta db st i of
        Inl _ \<Rightarrow> gc_loop db cutoff st ids
      | Inr meta \<Rightarrow>
          if start_time meta < cutoff
          then case delete_operation db st (operation_id meta) of
                 Inl _ \<Rightarrow> gc_loop db cutoff st ids
               | Inr st' \<Rightarrow> gc_loop db cutoff st' ids
          else gc_loop db cutoff st ids)"

definition gc :: "('m, 'p) bolt_db \<Rightarrow> int \<Rightarrow> int \<Rightarrow> ('m, 'p) store \<Rightarrow> ('m, 'p) store" where
  "gc db now retention_age st = gc_loop db (now - retention_age) st (list_all_meta_ids db st)"

end
