(* ===== verification/Dlq.thy ===== *)
theory Dlq
  imports Json
begin

text \<open>
  \<open>internal/errs/dlq.go\<close>: the dead-letter queue, an append-only file of JSON lines. The file is
  the list of its lines; whether the operating system accepts a write is an input.
\<close>

record dlq_record =
  dlq_record_id :: string
  dlq_table :: string
  dlq_error :: string
  dlq_attempts :: int
  dlq_timestamp :: int
  dlq_payload :: json

type_synonym dlq = "dlq_record list"

definition new_dlq :: "goerr option \<Rightarrow> dlq option \<Rightarrow> dlq result" where
  "new_dlq open_err existing =
     (case open_err of
        Some e \<Rightarrow> Inl (Wrapf ''failed to open DLQ file'' e)
      | None \<Rightarrow> Inr (case existing of None \<Rightarrow> [] | Some lines \<Rightarrow> lines))"

text \<open>\<open>Write\<close>: marshal, then append one line. A payload that does not marshal is not written.\<close>

definition dlq_write ::
  "int \<Rightarrow> goerr option \<Rightarrow> go_record \<Rightarrow> goerr \<Rightarrow> int \<Rightarrow> dlq \<Rightarrow> goerr option \<times> dlq" where
  "dlq_write now write_err rc err attempts file =
     (case to_json (VMap (rec_data rc)) of
        Inl e \<Rightarrow> (Some (Wrapf ''failed to marshal DLQ record'' e), file)
      | Inr payload \<Rightarrow>
          (case write_err of
             Some e \<Rightarrow> (Some (Wrapf ''failed to write to DLQ file'' e), file)
           | None \<Rightarrow> (None, file @
               [\<lparr>dlq_record_id = rec_id rc, dlq_table = source_table (rec_meta rc),
                 dlq_error = err_text err, dlq_attempts = attempts, dlq_timestamp = now,
                 dlq_payload = payload\<rparr>])))"

lemma dlq_write_cases:
  "(\<exists>e. dlq_write now we rc err n file = (Some e, file)) \<or>
   (\<exists>d. dlq_write now we rc err n file = (None, file @ [d]) \<and> dlq_record_id d = rec_id rc \<and>
      dlq_error d = err_text err \<and> to_json (VMap (rec_data rc)) = Inr (dlq_payload d))"
  by (simp add: dlq_write_def split: sum.split option.split)

text \<open>A record whose payload marshals is never refused by \<open>Write\<close> itself.\<close>

lemma dlq_write_accepts:
  "to_json (VMap (rec_data rc)) = Inr j \<Longrightarrow> fst (dlq_write now None rc err n file) = None"
  by (simp add: dlq_write_def)

end
