(* ===== verification/Fmt.thy ===== *)
theory Fmt
  imports Json
begin

text \<open>
  What the repository uses of \<open>fmt\<close> on a value of type \<open>any\<close>: \<open>%v\<close> and \<open>%T\<close>. A number literal
  is printed canonically (\<open>json.Number\<close> keeps the digits it was parsed from, the model their
  value); \<open>%q\<close> adds the quotes but no escapes.
\<close>

definition quote :: "string \<Rightarrow> string" where
  "quote s = CHR 0x22 # s @ [CHR 0x22]"

fun join_strings :: "string \<Rightarrow> string list \<Rightarrow> string" where
  "join_strings sep [] = []"
| "join_strings sep [s] = s"
| "join_strings sep (s # t # ss) = s @ sep @ join_strings sep (t # ss)"

text \<open>The digits after the point of a decimal in \<open>[0, 1)\<close>; the fuel bounds their number.\<close>

fun fraction_digits :: "nat \<Rightarrow> rat \<Rightarrow> string" where
  "fraction_digits 0 q = []"
| "fraction_digits (Suc n) q =
     (if q = 0 then [] else digit_char (nat \<lfloor>10 * q\<rfloor>) # fraction_digits n (10 * q - of_int \<lfloor>10 * q\<rfloor>))"

definition positional :: "rat \<Rightarrow> string" where
  "positional d =
     (let q = \<bar>d\<bar>; f = fraction_digits 1100 (q - of_int \<lfloor>q\<rfloor>)
      in (if d < 0 then ''-'' else []) @ digits_of \<lfloor>q\<rfloor> @ (if f = [] then [] else ''.'' @ f))"

text \<open>
  \<open>%v\<close> of a float is \<open>%g\<close> with the fewest digits that read back: it has an exponent below \<open>1e-4\<close>
  and from \<open>1e+06\<close> on.
\<close>

definition float_text :: "nat \<Rightarrow> rat \<Rightarrow> string" where
  "float_text p x =
     (let d = shortest_decimal p x in
      if d = 0 then ''0''
      else let e = rlog10 \<bar>d\<bar> in
        if -4 \<le> e \<and> e < 6 then positional d
        else positional (d / 10 powi e) @ ''e'' @ (if e < 0 then ''-'' else ''+'') @ pad_int 2 \<bar>e\<bar>)"

definition time_text :: "int \<Rightarrow> string" where
  "time_text t =
     (let s = rfc3339_nano t
      in map (\<lambda>c. if c = CHR ''T'' then CHR '' '' else c) (butlast s) @ '' +0000 UTC'')"

fun lit_text :: "numlit \<Rightarrow> string" where
  "lit_text (LInt i) = show_int i"
| "lit_text (LDec q) = positional q"

fun sprint_v :: "gval \<Rightarrow> string" where
  "sprint_v VNil = ''<nil>''"
| "sprint_v (VBool b) = (if b then ''true'' else ''false'')"
| "sprint_v (VInt w) = show_int (sint w)"
| "sprint_v (VInt32 w) = show_int (sint w)"
| "sprint_v (VInt64 w) = show_int (sint w)"
| "sprint_v (VFloat32 x) = float_text 24 x"
| "sprint_v (VFloat64 x) = float_text 53 x"
| "sprint_v (VString s) = s"
| "sprint_v (VBytes bs) = ''['' @ join_strings '' '' (map (\<lambda>b. show_nat (unat b)) bs) @ '']''"
| "sprint_v (VTime t) = time_text t"
| "sprint_v (VNumber n) = lit_text n"
| "sprint_v (VMap m) =
     ''map['' @ join_strings '' '' (map (\<lambda>(k, t). k @ '':'' @ t)
        (sort_key fst (map (\<lambda>(k, v). (k, sprint_v v)) m))) @ '']''"
| "sprint_v (VArr vs) = ''['' @ join_strings '' '' (map sprint_v vs) @ '']''"
| "sprint_v (VOther ty text j) = text"

text \<open>\<open>%T\<close>.\<close>

fun type_name :: "gval \<Rightarrow> string" where
  "type_name VNil = ''<nil>''"
| "type_name (VBool b) = ''bool''"
| "type_name (VInt w) = ''int''"
| "type_name (VInt32 w) = ''int32''"
| "type_name (VInt64 w) = ''int64''"
| "type_name (VFloat32 x) = ''float32''"
| "type_name (VFloat64 x) = ''float64''"
| "type_name (VString s) = ''string''"
| "type_name (VBytes bs) = ''[]uint8''"
| "type_name (VTime t) = ''time.Time''"
| "type_name (VNumber n) = ''json.Number''"
| "type_name (VMap m) = ''map[string]interface {}''"
| "type_name (VArr vs) = ''[]interface {}''"
| "type_name (VOther ty text j) = ty"

end
