(* ===== verification/Systems.thy ===== *)
theory Systems
  imports Prelude
begin

text \<open>
  The contract shared by the concurrent components. Each is a partial function \<open>fire\<close> that
  performs one event, or refuses it in states where its guard does not hold. \<open>runs\<close> are lists of
  events that fire in sequence. A component that discharges the laws of \<open>event_system\<close> for its
  invariant, or of \<open>measured_system\<close> for its work measure, gets the facts about its runs.
\<close>

fun run_from :: "('e \<Rightarrow> 's \<Rightarrow> 's option) \<Rightarrow> 'e list \<Rightarrow> 's \<Rightarrow> 's option" where
  "run_from fire [] s = Some s"
| "run_from fire (e # es) s =
     (case fire e s of None \<Rightarrow> None | Some s' \<Rightarrow> run_from fire es s')"

lemma run_from_append:
  "run_from fire (xs @ ys) s =
     (case run_from fire xs s of None \<Rightarrow> None | Some s' \<Rightarrow> run_from fire ys s')"
  by (induction xs arbitrary: s) (auto split: option.splits)

locale event_system =
  fixes fire :: "'e \<Rightarrow> 's \<Rightarrow> 's option"
    and inv :: "'s \<Rightarrow> bool"
  assumes fire_inv: "inv s \<Longrightarrow> fire e s = Some s' \<Longrightarrow> inv s'"
begin

lemma run_inv: "inv s \<Longrightarrow> run_from fire es s = Some s' \<Longrightarrow> inv s'"
proof (induction es arbitrary: s)
  case (Cons e es)
  then show ?case by (auto split: option.splits intro: fire_inv)
qed simp

end

locale measured_system = event_system +
  fixes work :: "'s \<Rightarrow> nat"
  assumes fire_work: "inv s \<Longrightarrow> fire e s = Some s' \<Longrightarrow> work s' < work s"
begin

lemma run_bounded: "inv s \<Longrightarrow> run_from fire es s = Some s' \<Longrightarrow> length es + work s' \<le> work s"
proof (induction es arbitrary: s)
  case (Cons e es)
  from Cons.prems obtain t where t: "fire e s = Some t" "run_from fire es t = Some s'"
    by (auto split: option.splits)
  with Cons have "length es + work s' \<le> work t" by (blast intro: fire_inv)
  moreover have "work t < work s" using Cons.prems(1) t(1) by (rule fire_work)
  ultimately show ?case by simp
qed simp

text \<open>Where every state that is not final has an event to fire, some run reaches a final state.\<close>

lemma run_completes:
  assumes "inv s" and "good s"
    and "\<And>s. inv s \<Longrightarrow> good s \<Longrightarrow> \<not> final s \<Longrightarrow> \<exists>e s'. fire e s = Some s' \<and> good s'"
  shows "\<exists>es s'. run_from fire es s = Some s' \<and> final s' \<and> good s'"
  using assms(1,2)
proof (induction "work s" arbitrary: s rule: less_induct)
  case less
  show ?case
  proof (cases "final s")
    case True
    have "run_from fire [] s = Some s" by simp
    with True less.prems show ?thesis by blast
  next
    case False
    then obtain e t where t: "fire e s = Some t" "good t" using assms(3) less.prems by blast
    then obtain es s' where "run_from fire es t = Some s'" "final s'" "good s'"
      using less.hyps [of t] less.prems fire_work fire_inv by blast
    then have "run_from fire (e # es) s = Some s'" using t by simp
    with \<open>final s'\<close> \<open>good s'\<close> show ?thesis by blast
  qed
qed

end

end
