(* ===== verification/Pipeline.thy ===== *)
theory Pipeline
  imports Checkpoint Dlq Fmt Systems
begin

text \<open>
  \<open>internal/pipeline/orchestrator.go\<close>: planning, and the concurrent stages of \<open>Migrate\<close> as a
  transition function. A goroutine is a value: what it holds and where it stands; a channel is
  its buffer, and a \<open>closed\<close> flag. An event is one atomic move of one goroutine (a channel
  operation, an answer of the source or the target, one access to the checkpoint store) and
  \<open>fire\<close> performs it, so that a list of events is an interleaving. What the code does not decide
  is in the event: the answers of the source and the target, clock readings, the order in which
  a map is visited, which ready branch a \<open>select\<close> takes.
\<close>

section \<open>Planning\<close>

text \<open>
  \<open>donePartitions\<close>, and the partitions left to read: a partition with a stored offset starts
  there. An error of \<open>ListPartitions\<close> is discarded and no checkpoint is used.
\<close>

definition done_partitions :: "partition_checkpoint list \<Rightarrow> string set" where
  "done_partitions cps = cp_partition_id ` set (filter (\<lambda>cp. cp_status cp = StatusDone) cps)"

fun resume_start :: "partition_checkpoint list \<Rightarrow> partition \<Rightarrow> partition" where
  "resume_start [] p = p"
| "resume_start (cp # cps) p =
     (if cp_partition_id cp = part_id p \<and> cp_last_committed cp \<noteq> VNil
      then p\<lparr>part_start := cp_last_committed cp\<rparr> else resume_start cps p)"

definition plan_partitions :: "partition_checkpoint list \<Rightarrow> partition list \<Rightarrow> partition list" where
  "plan_partitions cps all =
     map (resume_start cps) (filter (\<lambda>p. part_id p \<notin> done_partitions cps) all)"

definition known_checkpoints ::
  "('m, 'p) bolt_db \<Rightarrow> ('m, 'p) store \<Rightarrow> string \<Rightarrow> partition_checkpoint list" where
  "known_checkpoints db st op_id =
     (case list_partitions db st op_id of Inl _ \<Rightarrow> [] | Inr cps \<Rightarrow> cps)"

section \<open>State\<close>

text \<open>
  A reader goroutine and the \<open>ReadPartition\<close> call beside it: what the source has still to send
  on \<open>partCh\<close>, the error it will return, whether it closes the channel, and whether it has
  returned (\<open>readErrCh\<close>).
\<close>

datatype reader_phase =
    RReading
  | RHolding go_record
  | RDraining
  | RAwait
  | RDone

record reader =
  src_todo :: "go_record list"
  src_result :: "goerr option"
  src_closes :: bool
  part_ch :: "go_record list"
  part_closed :: bool
  src_returned :: bool
  r_phase :: reader_phase

datatype transformer_phase = TIdle | TFlush | TFinal | TDone

record transformer =
  t_batch :: "go_record list"
  t_phase :: transformer_phase

text \<open>
  A writer is idle in its \<open>select\<close>, inside \<open>WriteBatch\<close>, isolating the records of a failed
  batch one by one, or inside \<open>saveCheckpoints\<close>: with entries (partition, offset, count) still to
  save, possibly holding a checkpoint that it has read and not yet written back.
\<close>

type_synonym save_entry = "string \<times> gval \<times> int"

datatype writer_phase =
    WIdle
  | WWriting "go_record list"
  | WIsolating "go_record list"
  | WSaving "save_entry list"
  | WPutting partition_checkpoint "save_entry list"
  | WDone

record writer =
  w_count :: nat
  w_phase :: writer_phase

text \<open>
  The last three fields are bookkeeping of the model: the records the target has acknowledged,
  those that left through the dead-letter queue or were only logged, and those dropped by a
  cancelled goroutine.
\<close>

record ('m, 'p) pipeline =
  readers :: "reader list"
  record_ch :: "go_record list"
  record_closed :: bool
  transformers :: "transformer list"
  batch_ch :: "go_record list list"
  batch_closed :: bool
  writers :: "writer list"
  cancelled :: bool
  pending_errs :: "goerr list"
  first_err :: "goerr option"
  panicked :: bool
  cp_store :: "('m, 'p) store"
  dlq_log :: "dlq option"
  written :: "go_record list"
  rejected :: "go_record list"
  dropped :: "go_record list"

record ('m, 'p) env =
  env_cfg :: concurrency_config
  env_map :: "go_record \<Rightarrow> go_record"
  env_db :: "('m, 'p) bolt_db"
  env_op :: string

definition record_cap :: "('m, 'p) env \<Rightarrow> int" where
  "record_cap env = num_readers (env_cfg env) * batch_size (env_cfg env)"

definition batch_cap :: "('m, 'p) env \<Rightarrow> int" where
  "batch_cap env = num_writers (env_cfg env) * 2"

definition flush_every :: "('m, 'p) env \<Rightarrow> int" where
  "flush_every env =
     (if flush_every_n_batches (env_cfg env) \<le> 0 then 10 else flush_every_n_batches (env_cfg env))"

section \<open>Start\<close>

text \<open>What one \<open>ReadPartition\<close> call does when it is not cancelled; \<open>rs_closes\<close> is the adapter
  contract "responsible for closing the channel".\<close>

record read_script =
  rs_records :: "go_record list"
  rs_error :: "goerr option"
  rs_closes :: bool

definition start_reader :: "read_script \<Rightarrow> reader" where
  "start_reader rs =
     \<lparr>src_todo = rs_records rs, src_result = rs_error rs, src_closes = rs_closes rs,
      part_ch = [], part_closed = False, src_returned = False, r_phase = RReading\<rparr>"

text \<open>\<open>make(chan T, n)\<close> panics when \<open>n\<close> is negative. A loop up to a negative bound starts nothing.\<close>

definition caps_ok :: "('m, 'p) env \<Rightarrow> bool" where
  "caps_ok env \<longleftrightarrow> 0 \<le> record_cap env \<and> 0 \<le> batch_cap env \<and> 0 \<le> batch_size (env_cfg env)"

definition start_pipeline ::
  "('m, 'p) env \<Rightarrow> (partition \<Rightarrow> read_script) \<Rightarrow> partition list \<Rightarrow> ('m, 'p) store \<Rightarrow> dlq option
   \<Rightarrow> ('m, 'p) pipeline" where
  "start_pipeline env source parts st q =
     \<lparr>readers = map (\<lambda>p. start_reader (source p)) parts, record_ch = [], record_closed = False,
      transformers = replicate (nat (num_transformers (env_cfg env))) \<lparr>t_batch = [], t_phase = TIdle\<rparr>,
      batch_ch = [], batch_closed = False,
      writers = replicate (nat (num_writers (env_cfg env))) \<lparr>w_count = 0, w_phase = WIdle\<rparr>,
      cancelled = False, pending_errs = [], first_err = None, panicked = False,
      cp_store = st, dlq_log = q, written = [], rejected = [], dropped = []\<rparr>"

datatype ('m, 'p) migrate_outcome =
    MReturns "goerr option"
  | MPanics
  | MRuns "('m, 'p) pipeline"

text \<open>\<open>Migrate\<close> up to \<open>g.Wait()\<close>; the run of the pipeline follows.\<close>

definition migrate ::
  "('m, 'p) env \<Rightarrow> string \<Rightarrow> partition list result \<Rightarrow> (partition \<Rightarrow> read_script)
   \<Rightarrow> ('m, 'p) store \<Rightarrow> dlq option \<Rightarrow> ('m, 'p) migrate_outcome" where
  "migrate env table all source st q =
     (case all of
        Inl e \<Rightarrow> MReturns (Some (Wrapf (''failed to get partitions for table '' @ quote table) e))
      | Inr ps \<Rightarrow>
          (let parts = plan_partitions (known_checkpoints (env_db env) st (env_op env)) ps in
           if parts = [] then MReturns None
           else if \<not> caps_ok env then MPanics
           else MRuns (start_pipeline env source parts st q)))"

section \<open>Moves of the source and the readers\<close>

definition set_reader :: "nat \<Rightarrow> reader \<Rightarrow> ('m, 'p) pipeline \<Rightarrow> ('m, 'p) pipeline" where
  "set_reader i r s = s\<lparr>readers := (readers s)[i := r]\<rparr>"

text \<open>A send succeeds when the buffer has room, or hands over to a waiting receiver.\<close>

definition src_send :: "('m, 'p) env \<Rightarrow> nat \<Rightarrow> ('m, 'p) pipeline \<Rightarrow> ('m, 'p) pipeline option" where
  "src_send env i s =
     (let r = readers s ! i in
      case src_todo r of
        [] \<Rightarrow> None
      | x # xs \<Rightarrow>
          if int (length (part_ch r)) < batch_size (env_cfg env)
          then Some (set_reader i (r\<lparr>src_todo := xs, part_ch := part_ch r @ [x]\<rparr>) s)
          else if part_ch r = [] \<and> r_phase r = RReading
          then Some (set_reader i (r\<lparr>src_todo := xs, r_phase := RHolding x\<rparr>) s)
          else if part_ch r = [] \<and> r_phase r = RDraining
          then Some ((set_reader i (r\<lparr>src_todo := xs\<rparr>) s)\<lparr>dropped := env_map env x # dropped s\<rparr>)
          else None)"

definition src_close :: "nat \<Rightarrow> ('m, 'p) pipeline \<Rightarrow> ('m, 'p) pipeline option" where
  "src_close i s =
     (let r = readers s ! i in
      if src_todo r = [] \<and> src_closes r \<and> \<not> part_closed r
      then Some (set_reader i (r\<lparr>part_closed := True\<rparr>) s) else None)"

definition src_return :: "nat \<Rightarrow> ('m, 'p) pipeline \<Rightarrow> ('m, 'p) pipeline option" where
  "src_return i s =
     (let r = readers s ! i in
      if src_todo r = [] \<and> (src_closes r \<longrightarrow> part_closed r) \<and> \<not> src_returned r
      then Some (set_reader i (r\<lparr>src_returned := True\<rparr>) s) else None)"

text \<open>A cancelled source gives up the rest of its partition and returns \<open>ctx.Err()\<close>.\<close>

definition src_abort :: "('m, 'p) env \<Rightarrow> nat \<Rightarrow> ('m, 'p) pipeline \<Rightarrow> ('m, 'p) pipeline option" where
  "src_abort env i s =
     (let r = readers s ! i in
      if cancelled s \<and> src_todo r \<noteq> []
      then Some ((set_reader i (r\<lparr>src_todo := [], src_result := Some (Sentinel ContextCanceled)\<rparr>) s)
                   \<lparr>dropped := map (env_map env) (src_todo r) @ dropped s\<rparr>)
      else None)"

definition r_take :: "nat \<Rightarrow> ('m, 'p) pipeline \<Rightarrow> ('m, 'p) pipeline option" where
  "r_take i s =
     (let r = readers s ! i in
      if r_phase r \<noteq> RReading then None
      else case part_ch r of
             x # xs \<Rightarrow> Some (set_reader i (r\<lparr>part_ch := xs, r_phase := RHolding x\<rparr>) s)
           | [] \<Rightarrow> if part_closed r then Some (set_reader i (r\<lparr>r_phase := RAwait\<rparr>) s) else None)"

definition t_receive :: "('m, 'p) env \<Rightarrow> go_record \<Rightarrow> transformer \<Rightarrow> transformer" where
  "t_receive env x t =
     (let b = t_batch t @ [env_map env x]
      in t\<lparr>t_batch := b,
           t_phase := if batch_size (env_cfg env) \<le> int (length b) then TFlush else TIdle\<rparr>)"

definition r_send :: "('m, 'p) env \<Rightarrow> nat \<Rightarrow> ('m, 'p) pipeline \<Rightarrow> ('m, 'p) pipeline option" where
  "r_send env i s =
     (let r = readers s ! i in
      case r_phase r of
        RHolding x \<Rightarrow>
          if record_closed s then Some (s\<lparr>panicked := True\<rparr>)
          else if int (length (record_ch s)) < record_cap env
          then Some ((set_reader i (r\<lparr>r_phase := RReading\<rparr>) s)\<lparr>record_ch := record_ch s @ [x]\<rparr>)
          else None
      | _ \<Rightarrow> None)"

definition r_handoff :: "('m, 'p) env \<Rightarrow> nat \<Rightarrow> nat \<Rightarrow> ('m, 'p) pipeline \<Rightarrow> ('m, 'p) pipeline option" where
  "r_handoff env i j s =
     (let r = readers s ! i; t = transformers s ! j in
      case r_phase r of
        RHolding x \<Rightarrow>
          if \<not> record_closed s \<and> record_cap env = 0 \<and> j < length (transformers s) \<and> t_phase t = TIdle
          then Some ((set_reader i (r\<lparr>r_phase := RReading\<rparr>) s)
                       \<lparr>transformers := (transformers s)[j := t_receive env x t]\<rparr>)
          else None
      | _ \<Rightarrow> None)"

definition r_cancel :: "('m, 'p) env \<Rightarrow> nat \<Rightarrow> ('m, 'p) pipeline \<Rightarrow> ('m, 'p) pipeline option" where
  "r_cancel env i s =
     (let r = readers s ! i in
      case r_phase r of
        RHolding x \<Rightarrow>
          if cancelled s
          then Some ((set_reader i (r\<lparr>r_phase := RDraining\<rparr>) s)\<lparr>dropped := env_map env x # dropped s\<rparr>)
          else None
      | _ \<Rightarrow> None)"

text \<open>\<open>for range partCh {}\<close>, then \<open>return ctx.Err()\<close>.\<close>

definition r_drain :: "('m, 'p) env \<Rightarrow> nat \<Rightarrow> ('m, 'p) pipeline \<Rightarrow> ('m, 'p) pipeline option" where
  "r_drain env i s =
     (let r = readers s ! i in
      if r_phase r \<noteq> RDraining then None
      else case part_ch r of
             x # xs \<Rightarrow> Some ((set_reader i (r\<lparr>part_ch := xs\<rparr>) s)\<lparr>dropped := env_map env x # dropped s\<rparr>)
           | [] \<Rightarrow>
               if part_closed r
               then Some ((set_reader i (r\<lparr>r_phase := RDone\<rparr>) s)
                            \<lparr>pending_errs := Sentinel ContextCanceled # pending_errs s\<rparr>)
               else None)"

definition err_list :: "goerr option \<Rightarrow> goerr list" where
  "err_list e = (case e of None \<Rightarrow> [] | Some x \<Rightarrow> [x])"

definition r_finish :: "nat \<Rightarrow> ('m, 'p) pipeline \<Rightarrow> ('m, 'p) pipeline option" where
  "r_finish i s =
     (let r = readers s ! i in
      if r_phase r = RAwait \<and> src_returned r
      then Some ((set_reader i (r\<lparr>r_phase := RDone\<rparr>) s)
                   \<lparr>pending_errs := err_list (src_result r) @ pending_errs s\<rparr>)
      else None)"

section \<open>Moves of the transformers\<close>

definition set_transformer :: "nat \<Rightarrow> transformer \<Rightarrow> ('m, 'p) pipeline \<Rightarrow> ('m, 'p) pipeline" where
  "set_transformer j t s = s\<lparr>transformers := (transformers s)[j := t]\<rparr>"

definition t_take :: "('m, 'p) env \<Rightarrow> nat \<Rightarrow> ('m, 'p) pipeline \<Rightarrow> ('m, 'p) pipeline option" where
  "t_take env j s =
     (let t = transformers s ! j in
      if t_phase t \<noteq> TIdle then None
      else case record_ch s of
             x # xs \<Rightarrow> Some ((set_transformer j (t_receive env x t) s)\<lparr>record_ch := xs\<rparr>)
           | [] \<Rightarrow>
               if record_closed s
               then Some (set_transformer j
                      (t\<lparr>t_phase := if t_batch t = [] then TDone else TFinal\<rparr>) s)
               else None)"

text \<open>A tick with an empty batch changes nothing and is no event.\<close>

definition t_tick :: "nat \<Rightarrow> ('m, 'p) pipeline \<Rightarrow> ('m, 'p) pipeline option" where
  "t_tick j s =
     (let t = transformers s ! j in
      if t_phase t = TIdle \<and> t_batch t \<noteq> []
      then Some (set_transformer j (t\<lparr>t_phase := TFlush\<rparr>) s) else None)"

text \<open>\<open>batchCh <- batch\<close> inside \<open>flush\<close>: no alternative, in particular not \<open>ctx.Done()\<close>.\<close>

definition t_send :: "('m, 'p) env \<Rightarrow> nat \<Rightarrow> ('m, 'p) pipeline \<Rightarrow> ('m, 'p) pipeline option" where
  "t_send env j s =
     (let t = transformers s ! j in
      if t_phase t = TFlush \<or> t_phase t = TFinal
      then if batch_closed s then Some (s\<lparr>panicked := True\<rparr>)
           else if int (length (batch_ch s)) < batch_cap env
           then Some ((set_transformer j
                  (t\<lparr>t_batch := [], t_phase := if t_phase t = TFinal then TDone else TIdle\<rparr>) s)
                  \<lparr>batch_ch := batch_ch s @ [t_batch t]\<rparr>)
           else None
      else None)"

definition t_cancel :: "nat \<Rightarrow> ('m, 'p) pipeline \<Rightarrow> ('m, 'p) pipeline option" where
  "t_cancel j s =
     (let t = transformers s ! j in
      if t_phase t = TIdle \<and> cancelled s
      then Some ((set_transformer j (t\<lparr>t_batch := [], t_phase := TDone\<rparr>) s)
                   \<lparr>dropped := t_batch t @ dropped s,
                    pending_errs := Sentinel ContextCanceled # pending_errs s\<rparr>)
      else None)"

section \<open>Moves of the writers\<close>

definition set_writer :: "nat \<Rightarrow> writer \<Rightarrow> ('m, 'p) pipeline \<Rightarrow> ('m, 'p) pipeline" where
  "set_writer k w s = s\<lparr>writers := (writers s)[k := w]\<rparr>"

text \<open>
  \<open>lastCommitted\<close> and \<open>counts\<close> of \<open>saveCheckpoints\<close>, as one map from the partition to the last
  offset seen and the number of records.
\<close>

definition add_entry :: "save_entry list \<Rightarrow> go_record \<Rightarrow> save_entry list" where
  "add_entry es rc =
     (let pid = partition_id (rec_meta rc);
          n = (case map_of es pid of None \<Rightarrow> 0 | Some (_, n) \<Rightarrow> n)
      in map_set pid (offset (rec_meta rc), n + 1) es)"

definition save_plan :: "go_record list \<Rightarrow> save_entry list" where
  "save_plan batch = foldl add_entry [] batch"

abbreviation saving :: "save_entry list \<Rightarrow> writer_phase" where
  "saving es \<equiv> (if es = [] then WIdle else WSaving es)"

abbreviation isolating :: "go_record list \<Rightarrow> writer_phase" where
  "isolating rs \<equiv> (if rs = [] then WIdle else WIsolating rs)"

definition w_take :: "nat \<Rightarrow> ('m, 'p) pipeline \<Rightarrow> ('m, 'p) pipeline option" where
  "w_take k s =
     (let w = writers s ! k in
      if w_phase w \<noteq> WIdle then None
      else case batch_ch s of
             b # bs \<Rightarrow> Some ((set_writer k (w\<lparr>w_phase := WWriting b\<rparr>) s)\<lparr>batch_ch := bs\<rparr>)
           | [] \<Rightarrow> if batch_closed s then Some (set_writer k (w\<lparr>w_phase := WDone\<rparr>) s) else None)"

definition w_cancel :: "nat \<Rightarrow> ('m, 'p) pipeline \<Rightarrow> ('m, 'p) pipeline option" where
  "w_cancel k s =
     (let w = writers s ! k in
      if w_phase w = WIdle \<and> cancelled s
      then Some ((set_writer k (w\<lparr>w_phase := WDone\<rparr>) s)
                   \<lparr>pending_errs := Sentinel ContextCanceled # pending_errs s\<rparr>)
      else None)"

text \<open>\<open>WriteBatch\<close> answers: the whole batch is acknowledged, or it is isolated.\<close>

definition w_ack :: "('m, 'p) env \<Rightarrow> nat \<Rightarrow> ('m, 'p) pipeline \<Rightarrow> ('m, 'p) pipeline option" where
  "w_ack env k s =
     (let w = writers s ! k in
      case w_phase w of
        WWriting b \<Rightarrow>
          (let n = w_count w + 1 in
           Some ((set_writer k
                    (w\<lparr>w_count := n,
                       w_phase := if int n mod flush_every env = 0 then saving (save_plan b) else WIdle\<rparr>) s)
                   \<lparr>written := b @ written s\<rparr>))
      | _ \<Rightarrow> None)"

definition w_fail :: "nat \<Rightarrow> ('m, 'p) pipeline \<Rightarrow> ('m, 'p) pipeline option" where
  "w_fail k s =
     (let w = writers s ! k in
      case w_phase w of
        WWriting b \<Rightarrow> Some (set_writer k (w\<lparr>w_phase := isolating b\<rparr>) s)
      | _ \<Rightarrow> None)"

definition w_ack_one :: "nat \<Rightarrow> ('m, 'p) pipeline \<Rightarrow> ('m, 'p) pipeline option" where
  "w_ack_one k s =
     (let w = writers s ! k in
      case w_phase w of
        WIsolating (x # xs) \<Rightarrow>
          Some ((set_writer k (w\<lparr>w_phase := isolating xs\<rparr>) s)\<lparr>written := x # written s\<rparr>)
      | _ \<Rightarrow> None)"

text \<open>\<open>o.dlq.Write(rec, err, 1)\<close>; its error is only logged, and there may be no queue.\<close>

definition dead_letter ::
  "int \<Rightarrow> goerr option \<Rightarrow> go_record \<Rightarrow> goerr \<Rightarrow> dlq option \<Rightarrow> dlq option" where
  "dead_letter now we rc err q =
     (case q of None \<Rightarrow> None | Some file \<Rightarrow> Some (snd (dlq_write now we rc err 1 file)))"

definition w_fail_one ::
  "nat \<Rightarrow> goerr \<Rightarrow> int \<Rightarrow> goerr option \<Rightarrow> ('m, 'p) pipeline \<Rightarrow> ('m, 'p) pipeline option" where
  "w_fail_one k err now we s =
     (let w = writers s ! k in
      case w_phase w of
        WIsolating (x # xs) \<Rightarrow>
          Some ((set_writer k (w\<lparr>w_phase := isolating xs\<rparr>) s)
                  \<lparr>dlq_log := dead_letter now we x err (dlq_log s), rejected := x # rejected s\<rparr>)
      | _ \<Rightarrow> None)"

text \<open>One iteration of the second loop of \<open>saveCheckpoints\<close>: \<open>GetPartition\<close>, then \<open>SavePartition\<close>.\<close>

definition bump_checkpoint ::
  "string \<Rightarrow> gval \<Rightarrow> int \<Rightarrow> int \<Rightarrow> partition_checkpoint result \<Rightarrow> partition_checkpoint" where
  "bump_checkpoint pid off n now found =
     (let cp = (case found of
                  Inr cp \<Rightarrow> cp
                | Inl _ \<Rightarrow> \<lparr>cp_partition_id = pid, cp_status = StatusInProgress,
                    cp_last_committed = VNil, cp_rows_written = 0, cp_error_count = 0,
                    cp_updated_at = now\<rparr>)
      in cp\<lparr>cp_last_committed := off, cp_rows_written := cp_rows_written cp + n,
            cp_updated_at := now\<rparr>)"

definition save_read ::
  "('m, 'p) env \<Rightarrow> nat \<Rightarrow> nat \<Rightarrow> int \<Rightarrow> ('m, 'p) pipeline \<Rightarrow> ('m, 'p) pipeline option" where
  "save_read env k i now s =
     (let w = writers s ! k in
      case w_phase w of
        WSaving es \<Rightarrow>
          if i < length es
          then (case es ! i of (pid, off, n) \<Rightarrow>
                  Some (set_writer k
                    (w\<lparr>w_phase := WPutting
                         (bump_checkpoint pid off n now
                            (get_partition (env_db env) (cp_store s) (env_op env) pid))
                         (take i es @ drop (Suc i) es)\<rparr>) s))
          else None
      | _ \<Rightarrow> None)"

definition save_write :: "('m, 'p) env \<Rightarrow> nat \<Rightarrow> ('m, 'p) pipeline \<Rightarrow> ('m, 'p) pipeline option" where
  "save_write env k s =
     (let w = writers s ! k in
      case w_phase w of
        WPutting cp es \<Rightarrow>
          Some ((set_writer k (w\<lparr>w_phase := saving es\<rparr>) s)
                  \<lparr>cp_store :=
                     (case save_partition (env_db env) (cp_store s) (env_op env) cp of
                        Inl _ \<Rightarrow> cp_store s
                      | Inr st \<Rightarrow> st)\<rparr>)
      | _ \<Rightarrow> None)"

section \<open>The group\<close>

text \<open>The goroutines that wait for all readers, or all transformers, and close their channel.\<close>

definition close_records :: "('m, 'p) pipeline \<Rightarrow> ('m, 'p) pipeline option" where
  "close_records s =
     (if list_all (\<lambda>r. r_phase r = RDone) (readers s) \<and> \<not> record_closed s
      then Some (s\<lparr>record_closed := True\<rparr>) else None)"

definition close_batches :: "('m, 'p) pipeline \<Rightarrow> ('m, 'p) pipeline option" where
  "close_batches s =
     (if list_all (\<lambda>t. t_phase t = TDone) (transformers s) \<and> \<not> batch_closed s
      then Some (s\<lparr>batch_closed := True\<rparr>) else None)"

text \<open>\<open>errgroup\<close>: the first error a goroutine returned is kept and cancels the context.\<close>

definition report :: "nat \<Rightarrow> ('m, 'p) pipeline \<Rightarrow> ('m, 'p) pipeline option" where
  "report n s =
     (if n < length (pending_errs s)
      then Some (s\<lparr>pending_errs := take n (pending_errs s) @ drop (Suc n) (pending_errs s),
                   first_err := (case first_err s of
                                   None \<Rightarrow> Some (pending_errs s ! n) | Some e \<Rightarrow> Some e),
                   cancelled := True\<rparr>)
      else None)"

definition cancel :: "('m, 'p) pipeline \<Rightarrow> ('m, 'p) pipeline option" where
  "cancel s = (if cancelled s then None else Some (s\<lparr>cancelled := True\<rparr>))"

section \<open>Events\<close>

datatype event =
    SrcSend nat | SrcClose nat | SrcReturn nat | SrcAbort nat
  | RTake nat | RSend nat | RHandoff nat nat | RCancel nat | RDrain nat | RFinish nat
  | TTake nat | TTick nat | TSend nat | TCancel nat
  | WTake nat | WCancel nat | WAck nat | WFail nat | WAckOne nat
  | WFailOne nat goerr int "goerr option" | SaveRead nat nat int | SaveWrite nat
  | CloseRecords | CloseBatches | Report nat | Cancel

fun event_in_range :: "event \<Rightarrow> ('m, 'p) pipeline \<Rightarrow> bool" where
  "event_in_range (SrcSend i) s = (i < length (readers s))"
| "event_in_range (SrcClose i) s = (i < length (readers s))"
| "event_in_range (SrcReturn i) s = (i < length (readers s))"
| "event_in_range (SrcAbort i) s = (i < length (readers s))"
| "event_in_range (RTake i) s = (i < length (readers s))"
| "event_in_range (RSend i) s = (i < length (readers s))"
| "event_in_range (RHandoff i j) s = (i < length (readers s) \<and> j < length (transformers s))"
| "event_in_range (RCancel i) s = (i < length (readers s))"
| "event_in_range (RDrain i) s = (i < length (readers s))"
| "event_in_range (RFinish i) s = (i < length (readers s))"
| "event_in_range (TTake j) s = (j < length (transformers s))"
| "event_in_range (TTick j) s = (j < length (transformers s))"
| "event_in_range (TSend j) s = (j < length (transformers s))"
| "event_in_range (TCancel j) s = (j < length (transformers s))"
| "event_in_range (WTake k) s = (k < length (writers s))"
| "event_in_range (WCancel k) s = (k < length (writers s))"
| "event_in_range (WAck k) s = (k < length (writers s))"
| "event_in_range (WFail k) s = (k < length (writers s))"
| "event_in_range (WAckOne k) s = (k < length (writers s))"
| "event_in_range (WFailOne k _ _ _) s = (k < length (writers s))"
| "event_in_range (SaveRead k _ _) s = (k < length (writers s))"
| "event_in_range (SaveWrite k) s = (k < length (writers s))"
| "event_in_range _ s = True"

fun perform :: "('m, 'p) env \<Rightarrow> event \<Rightarrow> ('m, 'p) pipeline \<Rightarrow> ('m, 'p) pipeline option" where
  "perform env (SrcSend i) s = src_send env i s"
| "perform env (SrcClose i) s = src_close i s"
| "perform env (SrcReturn i) s = src_return i s"
| "perform env (SrcAbort i) s = src_abort env i s"
| "perform env (RTake i) s = r_take i s"
| "perform env (RSend i) s = r_send env i s"
| "perform env (RHandoff i j) s = r_handoff env i j s"
| "perform env (RCancel i) s = r_cancel env i s"
| "perform env (RDrain i) s = r_drain env i s"
| "perform env (RFinish i) s = r_finish i s"
| "perform env (TTake j) s = t_take env j s"
| "perform env (TTick j) s = t_tick j s"
| "perform env (TSend j) s = t_send env j s"
| "perform env (TCancel j) s = t_cancel j s"
| "perform env (WTake k) s = w_take k s"
| "perform env (WCancel k) s = w_cancel k s"
| "perform env (WAck k) s = w_ack env k s"
| "perform env (WFail k) s = w_fail k s"
| "perform env (WAckOne k) s = w_ack_one k s"
| "perform env (WFailOne k e now we) s = w_fail_one k e now we s"
| "perform env (SaveRead k i now) s = save_read env k i now s"
| "perform env (SaveWrite k) s = save_write env k s"
| "perform env CloseRecords s = close_records s"
| "perform env CloseBatches s = close_batches s"
| "perform env (Report n) s = report n s"
| "perform env Cancel s = cancel s"

text \<open>A panic ends the process.\<close>

definition fire :: "('m, 'p) env \<Rightarrow> event \<Rightarrow> ('m, 'p) pipeline \<Rightarrow> ('m, 'p) pipeline option" where
  "fire env e s = (if panicked s \<or> \<not> event_in_range e s then None else perform env e s)"

text \<open>\<open>g.Wait()\<close> returns when every goroutine of the group has ended and been accounted for.\<close>

definition finished :: "('m, 'p) pipeline \<Rightarrow> bool" where
  "finished s \<longleftrightarrow>
     list_all (\<lambda>r. r_phase r = RDone) (readers s) \<and>
     list_all (\<lambda>t. t_phase t = TDone) (transformers s) \<and>
     list_all (\<lambda>w. w_phase w = WDone) (writers s) \<and> pending_errs s = []"

lemmas source_moves = src_send_def src_close_def src_return_def src_abort_def
lemmas reader_moves = r_take_def r_send_def r_handoff_def r_cancel_def r_drain_def r_finish_def
lemmas transformer_moves = t_take_def t_tick_def t_send_def t_cancel_def
lemmas writer_moves = w_take_def w_cancel_def w_ack_def w_fail_def w_ack_one_def w_fail_one_def
  save_read_def save_write_def
lemmas group_moves = close_records_def close_batches_def report_def cancel_def
lemmas all_moves = source_moves reader_moves transformer_moves writer_moves group_moves
lemmas setters = set_reader_def set_transformer_def set_writer_def

end
