(* ===== verification/Pipeline_Inv.thy ===== *)
theory Pipeline_Inv
  imports Pipeline
begin

text \<open>
  What every interleaving of the pipeline keeps: no record is lost or duplicated between the
  stages (\<open>total\<close>), channels are closed once and only after their senders have ended, batches keep
  to the configured size, and a migration that ends without error has moved every record.
\<close>

section \<open>Where the records are\<close>

fun held_by_phase :: "reader_phase \<Rightarrow> go_record list" where
  "held_by_phase (RHolding x) = [x]"
| "held_by_phase _ = []"

definition reader_load :: "('m, 'p) env \<Rightarrow> reader \<Rightarrow> go_record multiset" where
  "reader_load env r =
     image_mset (env_map env) (mset (src_todo r) + mset (part_ch r) + mset (held_by_phase (r_phase r)))"

definition transformer_load :: "transformer \<Rightarrow> go_record multiset" where
  "transformer_load t = mset (t_batch t)"

fun phase_load :: "writer_phase \<Rightarrow> go_record list" where
  "phase_load (WWriting b) = b"
| "phase_load (WIsolating xs) = xs"
| "phase_load _ = []"

definition writer_load :: "writer \<Rightarrow> go_record multiset" where
  "writer_load w = mset (phase_load (w_phase w))"

text \<open>The records under way, as they will be written, and all records of the migration.\<close>

definition in_flight :: "('m, 'p) env \<Rightarrow> ('m, 'p) pipeline \<Rightarrow> go_record multiset" where
  "in_flight env s =
     gather (reader_load env) (readers s) + image_mset (env_map env) (mset (record_ch s)) +
     gather transformer_load (transformers s) + mset (concat (batch_ch s)) +
     gather writer_load (writers s)"

definition total :: "('m, 'p) env \<Rightarrow> ('m, 'p) pipeline \<Rightarrow> go_record multiset" where
  "total env s = in_flight env s + mset (written s) + mset (rejected s) + mset (dropped s)"

lemmas loads = total_def in_flight_def reader_load_def transformer_load_def writer_load_def

lemma set_reader_total:
  assumes "i < length (readers s)"
  shows "total env (set_reader i r s) + reader_load env (readers s ! i) = total env s + reader_load env r"
  using gather_update [OF assms, of "reader_load env" r]
  by (simp add: total_def in_flight_def set_reader_def ac_simps)

lemma t_receive_load [simp]:
  "transformer_load (t_receive env x t) = add_mset (env_map env x) (transformer_load t)"
  by (simp add: transformer_load_def t_receive_def Let_def)

lemma source_total:
  assumes "i < length (readers s)"
  shows "src_send env i s = Some s' \<Longrightarrow> total env s' = total env s"
    and "src_close i s = Some s' \<Longrightarrow> total env s' = total env s"
    and "src_return i s = Some s' \<Longrightarrow> total env s' = total env s"
    and "src_abort env i s = Some s' \<Longrightarrow> total env s' = total env s"
proof -
  obtain rest where g: "gather (reader_load env) (readers s) = reader_load env (readers s ! i) + rest"
      "\<And>r. gather (reader_load env) ((readers s)[i := r]) = reader_load env r + rest"
    using gather_split [OF assms, of "reader_load env"] by blast
  note m = source_moves setters Let_def total_def in_flight_def g
  show "src_send env i s = Some s' \<Longrightarrow> total env s' = total env s"
    by (auto simp: m reader_load_def ac_simps split: list.splits if_splits)
  show "src_close i s = Some s' \<Longrightarrow> total env s' = total env s"
    by (auto simp: m reader_load_def split: if_splits)
  show "src_return i s = Some s' \<Longrightarrow> total env s' = total env s"
    by (auto simp: m reader_load_def split: if_splits)
  show "src_abort env i s = Some s' \<Longrightarrow> total env s' = total env s"
    by (auto simp: m reader_load_def ac_simps split: if_splits)
qed

lemma reader_total:
  assumes "i < length (readers s)"
  shows "r_take i s = Some s' \<Longrightarrow> total env s' = total env s"
    and "r_send env i s = Some s' \<Longrightarrow> total env s' = total env s"
    and "r_cancel env i s = Some s' \<Longrightarrow> total env s' = total env s"
    and "r_drain env i s = Some s' \<Longrightarrow> total env s' = total env s"
    and "r_finish i s = Some s' \<Longrightarrow> total env s' = total env s"
proof -
  obtain rest where g: "gather (reader_load env) (readers s) = reader_load env (readers s ! i) + rest"
      "\<And>r. gather (reader_load env) ((readers s)[i := r]) = reader_load env r + rest"
    using gather_split [OF assms, of "reader_load env"] by blast
  note m = reader_moves setters Let_def total_def in_flight_def g reader_load_def
  show "r_take i s = Some s' \<Longrightarrow> total env s' = total env s"
    by (auto simp: m split: list.splits if_splits)
  show "r_send env i s = Some s' \<Longrightarrow> total env s' = total env s"
    by (auto simp: m split: reader_phase.splits if_splits)
  show "r_cancel env i s = Some s' \<Longrightarrow> total env s' = total env s"
    by (auto simp: m split: reader_phase.splits if_splits)
  show "r_drain env i s = Some s' \<Longrightarrow> total env s' = total env s"
    by (auto simp: m split: list.splits if_splits)
  show "r_finish i s = Some s' \<Longrightarrow> total env s' = total env s"
    by (auto simp: m split: if_splits)
qed

lemma handoff_total:
  assumes "i < length (readers s)" and "j < length (transformers s)"
    and "r_handoff env i j s = Some s'"
  shows "total env s' = total env s"
proof -
  obtain rest where g: "gather (reader_load env) (readers s) = reader_load env (readers s ! i) + rest"
      "\<And>r. gather (reader_load env) ((readers s)[i := r]) = reader_load env r + rest"
    using gather_split [OF assms(1), of "reader_load env"] by blast
  obtain rest' where
    h: "gather transformer_load (transformers s) = transformer_load (transformers s ! j) + rest'"
      "\<And>t. gather transformer_load ((transformers s)[j := t]) = transformer_load t + rest'"
    using gather_split [OF assms(2), of transformer_load] by blast
  show ?thesis using assms(3)
    by (auto simp: r_handoff_def setters Let_def total_def in_flight_def g h reader_load_def
        split: reader_phase.splits if_splits)
qed

lemma transformer_total:
  assumes "j < length (transformers s)"
  shows "t_take env j s = Some s' \<Longrightarrow> total env s' = total env s"
    and "t_tick j s = Some s' \<Longrightarrow> total env s' = total env s"
    and "t_send env j s = Some s' \<Longrightarrow> total env s' = total env s"
    and "t_cancel j s = Some s' \<Longrightarrow> total env s' = total env s"
proof -
  obtain rest where
    g: "gather transformer_load (transformers s) = transformer_load (transformers s ! j) + rest"
      "\<And>t. gather transformer_load ((transformers s)[j := t]) = transformer_load t + rest"
    using gather_split [OF assms, of transformer_load] by blast
  note m = transformer_moves setters Let_def total_def in_flight_def g
  show "t_take env j s = Some s' \<Longrightarrow> total env s' = total env s"
    by (auto simp: m split: list.splits if_splits) (simp_all add: transformer_load_def)
  show "t_tick j s = Some s' \<Longrightarrow> total env s' = total env s"
    by (auto simp: m transformer_load_def split: if_splits)
  show "t_send env j s = Some s' \<Longrightarrow> total env s' = total env s"
    by (auto simp: m transformer_load_def split: if_splits)
  show "t_cancel j s = Some s' \<Longrightarrow> total env s' = total env s"
    by (auto simp: m transformer_load_def split: if_splits)
qed

lemma writer_total:
  assumes "k < length (writers s)"
  shows "w_take k s = Some s' \<Longrightarrow> total env s' = total env s"
    and "w_cancel k s = Some s' \<Longrightarrow> total env s' = total env s"
    and "w_ack env k s = Some s' \<Longrightarrow> total env s' = total env s"
    and "w_fail k s = Some s' \<Longrightarrow> total env s' = total env s"
    and "w_ack_one k s = Some s' \<Longrightarrow> total env s' = total env s"
    and "w_fail_one k e now we s = Some s' \<Longrightarrow> total env s' = total env s"
    and "save_read env k i now s = Some s' \<Longrightarrow> total env s' = total env s"
    and "save_write env k s = Some s' \<Longrightarrow> total env s' = total env s"
proof -
  obtain rest where g: "gather writer_load (writers s) = writer_load (writers s ! k) + rest"
      "\<And>w. gather writer_load ((writers s)[k := w]) = writer_load w + rest"
    using gather_split [OF assms, of writer_load] by blast
  note m = writer_moves setters Let_def total_def in_flight_def g writer_load_def
  show "w_take k s = Some s' \<Longrightarrow> total env s' = total env s"
    by (auto simp: m split: list.splits if_splits)
  show "w_cancel k s = Some s' \<Longrightarrow> total env s' = total env s"
    by (auto simp: m split: if_splits)
  show "w_ack env k s = Some s' \<Longrightarrow> total env s' = total env s"
    by (auto simp: m split: writer_phase.splits if_splits)
  show "w_fail k s = Some s' \<Longrightarrow> total env s' = total env s"
    by (auto simp: m split: writer_phase.splits if_splits)
  show "w_ack_one k s = Some s' \<Longrightarrow> total env s' = total env s"
    by (auto simp: m split: writer_phase.splits list.splits if_splits)
  show "w_fail_one k e now we s = Some s' \<Longrightarrow> total env s' = total env s"
    by (auto simp: m split: writer_phase.splits list.splits if_splits)
  show "save_read env k i now s = Some s' \<Longrightarrow> total env s' = total env s"
    by (auto simp: m split: writer_phase.splits prod.splits if_splits)
  show "save_write env k s = Some s' \<Longrightarrow> total env s' = total env s"
    by (auto simp: m split: writer_phase.splits if_splits)
qed

lemma group_total:
  "close_records s = Some s' \<Longrightarrow> total env s' = total env s"
  "close_batches s = Some s' \<Longrightarrow> total env s' = total env s"
  "report n s = Some s' \<Longrightarrow> total env s' = total env s"
  "cancel s = Some s' \<Longrightarrow> total env s' = total env s"
  by (auto simp: group_moves loads split: if_splits)

lemma fire_total: "fire env e s = Some s' \<Longrightarrow> total env s' = total env s"
  by (cases e)
    (auto simp: fire_def split: if_splits
      intro: source_total reader_total handoff_total transformer_total writer_total group_total)

section \<open>Local well-formedness\<close>

definition batch_ok :: "('m, 'p) env \<Rightarrow> go_record list \<Rightarrow> bool" where
  "batch_ok env b \<longleftrightarrow> b \<noteq> [] \<and> int (length b) \<le> max 1 (batch_size (env_cfg env))"

definition reader_ok :: "('m, 'p) env \<Rightarrow> reader \<Rightarrow> bool" where
  "reader_ok env r \<longleftrightarrow>
     int (length (part_ch r)) \<le> batch_size (env_cfg env) \<and>
     (part_closed r \<longrightarrow> src_todo r = []) \<and>
     (src_returned r \<longrightarrow> src_todo r = [] \<and> (src_closes r \<longrightarrow> part_closed r)) \<and>
     (r_phase r = RAwait \<or> r_phase r = RDone \<longrightarrow> part_closed r \<and> part_ch r = [])"

fun transformer_phase_ok :: "('m, 'p) env \<Rightarrow> go_record list \<Rightarrow> transformer_phase \<Rightarrow> bool" where
  "transformer_phase_ok env b TIdle = (b = [] \<or> int (length b) < batch_size (env_cfg env))"
| "transformer_phase_ok env b TDone = (b = [])"
| "transformer_phase_ok env b TFlush = batch_ok env b"
| "transformer_phase_ok env b TFinal = batch_ok env b"

definition transformer_ok :: "('m, 'p) env \<Rightarrow> transformer \<Rightarrow> bool" where
  "transformer_ok env t \<longleftrightarrow> transformer_phase_ok env (t_batch t) (t_phase t)"

fun writer_phase_ok :: "('m, 'p) env \<Rightarrow> writer_phase \<Rightarrow> bool" where
  "writer_phase_ok env (WWriting b) = batch_ok env b"
| "writer_phase_ok env (WIsolating xs) = (xs \<noteq> [])"
| "writer_phase_ok env (WSaving es) = (es \<noteq> [])"
| "writer_phase_ok env _ = True"

definition writer_ok :: "('m, 'p) env \<Rightarrow> writer \<Rightarrow> bool" where
  "writer_ok env w \<longleftrightarrow> writer_phase_ok env (w_phase w)"

definition local_ok :: "('m, 'p) env \<Rightarrow> ('m, 'p) pipeline \<Rightarrow> bool" where
  "local_ok env s \<longleftrightarrow>
     list_all (reader_ok env) (readers s) \<and> list_all (transformer_ok env) (transformers s) \<and>
     list_all (writer_ok env) (writers s) \<and> list_all (batch_ok env) (batch_ch s) \<and>
     int (length (record_ch s)) \<le> record_cap env \<and> int (length (batch_ch s)) \<le> batch_cap env"

lemma list_all_nth: "list_all P xs \<Longrightarrow> i < length xs \<Longrightarrow> P (xs ! i)"
  by (simp add: list_all_length)

lemmas local_updates = list_all_update list_all_nth

lemma set_reader_local: "local_ok env s \<Longrightarrow> reader_ok env r \<Longrightarrow> local_ok env (set_reader i r s)"
  by (simp add: local_ok_def set_reader_def list_all_update)

lemma set_transformer_local:
  "local_ok env s \<Longrightarrow> transformer_ok env t \<Longrightarrow> local_ok env (set_transformer j t s)"
  by (simp add: local_ok_def set_transformer_def list_all_update)

lemma set_writer_local: "local_ok env s \<Longrightarrow> writer_ok env w \<Longrightarrow> local_ok env (set_writer k w s)"
  by (simp add: local_ok_def set_writer_def list_all_update)

lemma local_ok_other [simp]:
  "local_ok env (s\<lparr>dropped := d\<rparr>) = local_ok env s"
  "local_ok env (s\<lparr>pending_errs := p\<rparr>) = local_ok env s"
  "local_ok env (s\<lparr>panicked := b\<rparr>) = local_ok env s"
  "local_ok env (s\<lparr>written := ws\<rparr>) = local_ok env s"
  "local_ok env (s\<lparr>rejected := ws\<rparr>) = local_ok env s"
  "local_ok env (s\<lparr>dlq_log := q\<rparr>) = local_ok env s"
  "local_ok env (s\<lparr>cp_store := st\<rparr>) = local_ok env s"
  "local_ok env (s\<lparr>record_closed := b\<rparr>) = local_ok env s"
  "local_ok env (s\<lparr>batch_closed := b\<rparr>) = local_ok env s"
  "local_ok env (s\<lparr>cancelled := b\<rparr>) = local_ok env s"
  "local_ok env (s\<lparr>first_err := e\<rparr>) = local_ok env s"
  by (simp_all add: local_ok_def)

lemmas local_intros = set_reader_local set_transformer_local set_writer_local

lemma local_okD:
  assumes "local_ok env s"
  shows "i < length (readers s) \<Longrightarrow> reader_ok env (readers s ! i)"
    and "j < length (transformers s) \<Longrightarrow> transformer_ok env (transformers s ! j)"
    and "k < length (writers s) \<Longrightarrow> writer_ok env (writers s ! k)"
    and "list_all (batch_ok env) (batch_ch s)"
    and "int (length (record_ch s)) \<le> record_cap env"
    and "int (length (batch_ch s)) \<le> batch_cap env"
  using assms by (auto simp: local_ok_def list_all_length)

lemma t_receive_ok: "transformer_ok env t \<Longrightarrow> t_phase t = TIdle \<Longrightarrow> transformer_ok env (t_receive env x t)"
  by (auto simp: transformer_ok_def t_receive_def Let_def batch_ok_def)

lemma source_local:
  assumes "local_ok env s" and "i < length (readers s)"
  shows "src_send env i s = Some s' \<Longrightarrow> local_ok env s'"
    and "src_close i s = Some s' \<Longrightarrow> local_ok env s'"
    and "src_return i s = Some s' \<Longrightarrow> local_ok env s'"
    and "src_abort env i s = Some s' \<Longrightarrow> local_ok env s'"
proof -
  have r: "reader_ok env (readers s ! i)" using assms by (rule local_okD)
  note m = source_moves Let_def
  show "src_send env i s = Some s' \<Longrightarrow> local_ok env s'"
    by (auto simp: m assms(1) split: list.splits if_splits intro!: local_intros) (use r in \<open>auto simp: reader_ok_def\<close>)
  show "src_close i s = Some s' \<Longrightarrow> local_ok env s'"
    by (auto simp: m assms(1) split: if_splits intro!: local_intros) (use r in \<open>simp_all add: reader_ok_def\<close>)
  show "src_return i s = Some s' \<Longrightarrow> local_ok env s'"
    by (auto simp: m assms(1) split: if_splits intro!: local_intros) (use r in \<open>simp_all add: reader_ok_def\<close>)
  show "src_abort env i s = Some s' \<Longrightarrow> local_ok env s'"
    by (auto simp: m assms(1) split: if_splits intro!: local_intros) (use r in \<open>auto simp: reader_ok_def\<close>)
qed

lemma reader_local:
  assumes "local_ok env s" and "i < length (readers s)"
  shows "r_take i s = Some s' \<Longrightarrow> local_ok env s'"
    and "r_send env i s = Some s' \<Longrightarrow> local_ok env s'"
    and "r_handoff env i j s = Some s' \<Longrightarrow> local_ok env s'"
    and "r_cancel env i s = Some s' \<Longrightarrow> local_ok env s'"
    and "r_drain env i s = Some s' \<Longrightarrow> local_ok env s'"
    and "r_finish i s = Some s' \<Longrightarrow> local_ok env s'"
proof -
  have r: "reader_ok env (readers s ! i)" using assms by (rule local_okD)
  note m = reader_moves Let_def
  show "r_take i s = Some s' \<Longrightarrow> local_ok env s'"
    by (auto simp: m assms(1) split: list.splits if_splits intro!: local_intros) (use r in \<open>simp_all add: reader_ok_def\<close>)
  show "r_send env i s = Some s' \<Longrightarrow> local_ok env s'"
    using r assms(1)
    by (auto simp: m local_ok_def set_reader_def reader_ok_def split: reader_phase.splits if_splits
        intro!: list_all_update)
  show "r_cancel env i s = Some s' \<Longrightarrow> local_ok env s'"
    by (auto simp: m assms(1) split: reader_phase.splits if_splits intro!: local_intros) (use r in \<open>simp_all add: reader_ok_def\<close>)
  show "r_drain env i s = Some s' \<Longrightarrow> local_ok env s'"
    by (auto simp: m assms(1) split: list.splits if_splits intro!: local_intros) (use r in \<open>simp_all add: reader_ok_def\<close>)
  show "r_finish i s = Some s' \<Longrightarrow> local_ok env s'"
    by (auto simp: m assms(1) split: if_splits intro!: local_intros) (use r in \<open>simp_all add: reader_ok_def\<close>)
  show "local_ok env s'" if h: "r_handoff env i j s = Some s'"
  proof -
    from h obtain x where x: "r_phase (readers s ! i) = RHolding x" "j < length (transformers s)"
      "t_phase (transformers s ! j) = TIdle"
      "s' = (set_reader i ((readers s ! i)\<lparr>r_phase := RReading\<rparr>) s)
              \<lparr>transformers := (transformers s)[j := t_receive env x (transformers s ! j)]\<rparr>"
      by (auto simp: r_handoff_def Let_def split: reader_phase.splits if_splits)
    then have s': "s' = set_transformer j (t_receive env x (transformers s ! j))
        (set_reader i ((readers s ! i)\<lparr>r_phase := RReading\<rparr>) s)"
      by (simp add: setters)
    have "reader_ok env ((readers s ! i)\<lparr>r_phase := RReading\<rparr>)" using r by (simp add: reader_ok_def)
    moreover have "transformer_ok env (t_receive env x (transformers s ! j))"
      using local_okD(2) [OF assms(1)] x by (blast intro: t_receive_ok)
    ultimately show ?thesis unfolding s' using assms(1) by (intro local_intros)
  qed
qed

lemma transformer_local:
  assumes "local_ok env s" and "j < length (transformers s)"
  shows "t_take env j s = Some s' \<Longrightarrow> local_ok env s'"
    and "t_tick j s = Some s' \<Longrightarrow> local_ok env s'"
    and "t_send env j s = Some s' \<Longrightarrow> local_ok env s'"
    and "t_cancel j s = Some s' \<Longrightarrow> local_ok env s'"
proof -
  have t: "transformer_ok env (transformers s ! j)" using assms by (rule local_okD)
  note m = transformer_moves Let_def
  note ok = local_okD(4-6) [OF assms(1)]
  show "t_take env j s = Some s' \<Longrightarrow> local_ok env s'"
    using t ok assms(1)
    by (auto simp: m local_ok_def set_transformer_def split: list.splits if_splits
        intro!: list_all_update t_receive_ok) (auto simp: transformer_ok_def batch_ok_def)
  show "t_tick j s = Some s' \<Longrightarrow> local_ok env s'"
    using t by (auto simp: m split: if_splits intro!: local_intros simp: assms(1))
      (auto simp: transformer_ok_def batch_ok_def)
  show "t_send env j s = Some s' \<Longrightarrow> local_ok env s'"
    using t ok assms(1)
    by (auto simp: m local_ok_def set_transformer_def split: if_splits intro!: list_all_update)
      (auto simp: transformer_ok_def)
  show "t_cancel j s = Some s' \<Longrightarrow> local_ok env s'"
    by (auto simp: m split: if_splits intro!: local_intros simp: assms(1)) (simp add: transformer_ok_def)
qed

lemma writer_local:
  assumes "local_ok env s" and "k < length (writers s)"
  shows "w_take k s = Some s' \<Longrightarrow> local_ok env s'"
    and "w_cancel k s = Some s' \<Longrightarrow> local_ok env s'"
    and "w_ack env k s = Some s' \<Longrightarrow> local_ok env s'"
    and "w_fail k s = Some s' \<Longrightarrow> local_ok env s'"
    and "w_ack_one k s = Some s' \<Longrightarrow> local_ok env s'"
    and "w_fail_one k e now we s = Some s' \<Longrightarrow> local_ok env s'"
    and "save_read env k i now s = Some s' \<Longrightarrow> local_ok env s'"
    and "save_write env k s = Some s' \<Longrightarrow> local_ok env s'"
proof -
  note m = writer_moves Let_def writer_ok_def
  note ok = local_okD(4-6) [OF assms(1)]
  show "w_take k s = Some s' \<Longrightarrow> local_ok env s'"
    using ok assms(1)
    by (auto simp: m local_ok_def set_writer_def split: list.splits if_splits intro!: list_all_update)
  show "w_cancel k s = Some s' \<Longrightarrow> local_ok env s'"
    by (auto simp: m split: if_splits intro!: local_intros simp: assms(1))
  show "w_ack env k s = Some s' \<Longrightarrow> local_ok env s'"
    by (auto simp: m split: writer_phase.splits if_splits intro!: local_intros simp: assms(1))
  show "w_fail k s = Some s' \<Longrightarrow> local_ok env s'"
    by (auto simp: m split: writer_phase.splits if_splits intro!: local_intros simp: assms(1))
  show "w_ack_one k s = Some s' \<Longrightarrow> local_ok env s'"
    by (auto simp: m split: writer_phase.splits list.splits if_splits intro!: local_intros simp: assms(1))
  show "w_fail_one k e now we s = Some s' \<Longrightarrow> local_ok env s'"
    by (auto simp: m split: writer_phase.splits list.splits if_splits intro!: local_intros simp: assms(1))
  show "save_read env k i now s = Some s' \<Longrightarrow> local_ok env s'"
    by (auto simp: m split: writer_phase.splits prod.splits if_splits intro!: local_intros simp: assms(1))
  show "save_write env k s = Some s' \<Longrightarrow> local_ok env s'"
    by (auto simp: m split: writer_phase.splits if_splits intro!: local_intros simp: assms(1))
qed

lemma group_local:
  assumes "local_ok env s"
  shows "close_records s = Some s' \<Longrightarrow> local_ok env s'"
    and "close_batches s = Some s' \<Longrightarrow> local_ok env s'"
    and "report n s = Some s' \<Longrightarrow> local_ok env s'"
    and "cancel s = Some s' \<Longrightarrow> local_ok env s'"
  using assms by (auto simp: group_moves split: if_splits)

lemma fire_local: "local_ok env s \<Longrightarrow> fire env e s = Some s' \<Longrightarrow> local_ok env s'"
  by (cases e)
    (auto simp: fire_def split: if_splits
      intro: source_local reader_local transformer_local writer_local group_local)

section \<open>Channels are closed after their senders\<close>

definition closing_ok :: "('m, 'p) pipeline \<Rightarrow> bool" where
  "closing_ok s \<longleftrightarrow> \<not> panicked s \<and>
     (record_closed s \<longrightarrow> list_all (\<lambda>r. r_phase r = RDone) (readers s)) \<and>
     (batch_closed s \<longrightarrow> list_all (\<lambda>t. t_phase t = TDone) (transformers s))"

lemma closing_other [simp]:
  "closing_ok (s\<lparr>dropped := d\<rparr>) = closing_ok s"
  "closing_ok (s\<lparr>pending_errs := p\<rparr>) = closing_ok s"
  "closing_ok (s\<lparr>written := ws\<rparr>) = closing_ok s"
  "closing_ok (s\<lparr>rejected := ws\<rparr>) = closing_ok s"
  "closing_ok (s\<lparr>dlq_log := q\<rparr>) = closing_ok s"
  "closing_ok (s\<lparr>cp_store := st\<rparr>) = closing_ok s"
  "closing_ok (s\<lparr>cancelled := b\<rparr>) = closing_ok s"
  "closing_ok (s\<lparr>first_err := e\<rparr>) = closing_ok s"
  "closing_ok (s\<lparr>record_ch := xs\<rparr>) = closing_ok s"
  "closing_ok (s\<lparr>batch_ch := bs\<rparr>) = closing_ok s"
  "closing_ok (set_writer k w s) = closing_ok s"
  by (simp_all add: closing_ok_def set_writer_def)

lemma set_reader_closing:
  "closing_ok s \<Longrightarrow> i < length (readers s) \<Longrightarrow>
   (r_phase (readers s ! i) = RDone \<Longrightarrow> r_phase r = RDone) \<Longrightarrow> closing_ok (set_reader i r s)"
  using list_all_nth [of "\<lambda>r. r_phase r = RDone" "readers s" i]
  by (auto simp: closing_ok_def set_reader_def intro!: list_all_update)

lemma set_transformer_closing:
  "closing_ok s \<Longrightarrow> j < length (transformers s) \<Longrightarrow> t_phase (transformers s ! j) \<noteq> TDone \<Longrightarrow>
   closing_ok (set_transformer j t s)"
  using list_all_nth [of "\<lambda>t. t_phase t = TDone" "transformers s" j]
  by (auto simp: closing_ok_def set_transformer_def)

lemma closed_senders:
  assumes "closing_ok s"
  shows "i < length (readers s) \<Longrightarrow> r_phase (readers s ! i) \<noteq> RDone \<Longrightarrow> \<not> record_closed s"
    and "j < length (transformers s) \<Longrightarrow> t_phase (transformers s ! j) \<noteq> TDone \<Longrightarrow> \<not> batch_closed s"
  using assms list_all_nth [of "\<lambda>r. r_phase r = RDone" "readers s" i]
    list_all_nth [of "\<lambda>t. t_phase t = TDone" "transformers s" j]
  by (auto simp: closing_ok_def)

lemma source_closing:
  assumes "closing_ok s" and "i < length (readers s)"
  shows "src_send env i s = Some s' \<Longrightarrow> closing_ok s'"
    and "src_close i s = Some s' \<Longrightarrow> closing_ok s'"
    and "src_return i s = Some s' \<Longrightarrow> closing_ok s'"
    and "src_abort env i s = Some s' \<Longrightarrow> closing_ok s'"
  using assms
  by (auto simp: source_moves Let_def split: list.splits if_splits intro!: set_reader_closing)

lemma reader_closing:
  assumes "closing_ok s" and "i < length (readers s)"
  shows "r_take i s = Some s' \<Longrightarrow> closing_ok s'"
    and "r_send env i s = Some s' \<Longrightarrow> closing_ok s'"
    and "r_cancel env i s = Some s' \<Longrightarrow> closing_ok s'"
    and "r_drain env i s = Some s' \<Longrightarrow> closing_ok s'"
    and "r_finish i s = Some s' \<Longrightarrow> closing_ok s'"
  using assms closed_senders(1) [OF assms]
  by (auto simp: reader_moves Let_def split: list.splits reader_phase.splits if_splits
      intro!: set_reader_closing)

lemma handoff_closing:
  assumes "closing_ok s" and "i < length (readers s)" and "r_handoff env i j s = Some s'"
  shows "closing_ok s'"
proof -
  from assms(3) obtain x where x: "r_phase (readers s ! i) = RHolding x" "j < length (transformers s)"
    "t_phase (transformers s ! j) = TIdle"
    "s' = set_transformer j (t_receive env x (transformers s ! j))
       (set_reader i ((readers s ! i)\<lparr>r_phase := RReading\<rparr>) s)"
    by (auto simp: r_handoff_def Let_def setters split: reader_phase.splits if_splits)
  then have "closing_ok (set_reader i ((readers s ! i)\<lparr>r_phase := RReading\<rparr>) s)"
    using assms by (intro set_reader_closing) auto
  then show ?thesis using x by (auto simp: set_reader_def intro!: set_transformer_closing)
qed

lemma transformer_closing:
  assumes "closing_ok s" and "j < length (transformers s)"
  shows "t_take env j s = Some s' \<Longrightarrow> closing_ok s'"
    and "t_tick j s = Some s' \<Longrightarrow> closing_ok s'"
    and "t_send env j s = Some s' \<Longrightarrow> closing_ok s'"
    and "t_cancel j s = Some s' \<Longrightarrow> closing_ok s'"
  using assms closed_senders(2) [OF assms]
  by (auto simp: transformer_moves Let_def split: list.splits if_splits
      intro!: set_transformer_closing)

lemma writer_closing:
  assumes "closing_ok s"
  shows "w_take k s = Some s' \<Longrightarrow> closing_ok s'"
    and "w_cancel k s = Some s' \<Longrightarrow> closing_ok s'"
    and "w_ack env k s = Some s' \<Longrightarrow> closing_ok s'"
    and "w_fail k s = Some s' \<Longrightarrow> closing_ok s'"
    and "w_ack_one k s = Some s' \<Longrightarrow> closing_ok s'"
    and "w_fail_one k e now we s = Some s' \<Longrightarrow> closing_ok s'"
    and "save_read env k i now s = Some s' \<Longrightarrow> closing_ok s'"
    and "save_write env k s = Some s' \<Longrightarrow> closing_ok s'"
  using assms
  by (auto simp: writer_moves Let_def split: list.splits writer_phase.splits prod.splits if_splits)

lemma group_closing:
  assumes "closing_ok s"
  shows "close_records s = Some s' \<Longrightarrow> closing_ok s'"
    and "close_batches s = Some s' \<Longrightarrow> closing_ok s'"
    and "report n s = Some s' \<Longrightarrow> closing_ok s'"
    and "cancel s = Some s' \<Longrightarrow> closing_ok s'"
  using assms by (auto simp: group_moves split: if_splits) (auto simp: closing_ok_def)

lemma fire_closing: "closing_ok s \<Longrightarrow> fire env e s = Some s' \<Longrightarrow> closing_ok s'"
  by (cases e)
    (auto simp: fire_def split: if_splits
      intro: source_closing reader_closing handoff_closing transformer_closing writer_closing group_closing)

section \<open>A dropped record has an error to show for it\<close>

definition troubled :: "('m, 'p) pipeline \<Rightarrow> bool" where
  "troubled s \<longleftrightarrow> first_err s \<noteq> None \<or> pending_errs s \<noteq> []"

definition doomed :: "reader \<Rightarrow> bool" where
  "doomed r \<longleftrightarrow> r_phase r = RDraining \<or> r_phase r \<noteq> RDone \<and> src_result r \<noteq> None"

definition blame_ok :: "('m, 'p) pipeline \<Rightarrow> bool" where
  "blame_ok s \<longleftrightarrow> (dropped s \<noteq> [] \<longrightarrow> troubled s \<or> list_ex doomed (readers s))"

lemma blame_other [simp]:
  "blame_ok (s\<lparr>record_ch := xs\<rparr>) = blame_ok s"
  "blame_ok (s\<lparr>batch_ch := bs\<rparr>) = blame_ok s"
  "blame_ok (s\<lparr>written := ws\<rparr>) = blame_ok s"
  "blame_ok (s\<lparr>rejected := ws\<rparr>) = blame_ok s"
  "blame_ok (s\<lparr>dlq_log := q\<rparr>) = blame_ok s"
  "blame_ok (s\<lparr>cp_store := st\<rparr>) = blame_ok s"
  "blame_ok (s\<lparr>cancelled := b\<rparr>) = blame_ok s"
  "blame_ok (s\<lparr>panicked := b\<rparr>) = blame_ok s"
  "blame_ok (s\<lparr>record_closed := b\<rparr>) = blame_ok s"
  "blame_ok (s\<lparr>batch_closed := b\<rparr>) = blame_ok s"
  "blame_ok (s\<lparr>transformers := ts\<rparr>) = blame_ok s"
  "blame_ok (set_transformer j t s) = blame_ok s"
  "blame_ok (set_writer k w s) = blame_ok s"
  by (simp_all add: blame_ok_def troubled_def setters)

lemma blame_pending [simp]: "blame_ok (s\<lparr>pending_errs := e # es\<rparr>)"
  by (simp add: blame_ok_def troubled_def)

lemma set_reader_same_pending [simp]:
  "(set_reader i r s)\<lparr>pending_errs := pending_errs s\<rparr> = set_reader i r s"
  by (simp add: set_reader_def)

lemma blame_doomed:
  "i < length (readers s) \<Longrightarrow> doomed r \<Longrightarrow> blame_ok ((set_reader i r s)\<lparr>dropped := d\<rparr>)"
  by (simp add: blame_ok_def set_reader_def list_ex_update_new)

lemma set_reader_blame:
  "blame_ok s \<Longrightarrow> (doomed (readers s ! i) \<Longrightarrow> doomed r) \<Longrightarrow> blame_ok (set_reader i r s)"
  by (auto simp: blame_ok_def set_reader_def troubled_def intro!: list_ex_update_keep)

lemma source_blame:
  assumes "blame_ok s" and "local_ok env s" and "i < length (readers s)"
  shows "src_send env i s = Some s' \<Longrightarrow> blame_ok s'"
    and "src_close i s = Some s' \<Longrightarrow> blame_ok s'"
    and "src_return i s = Some s' \<Longrightarrow> blame_ok s'"
    and "src_abort env i s = Some s' \<Longrightarrow> blame_ok s'"
  using assms local_okD(1) [OF assms(2,3)]
  by (auto simp: source_moves Let_def split: list.splits if_splits
      intro!: set_reader_blame blame_doomed) (auto simp: doomed_def reader_ok_def)

lemma reader_blame:
  assumes "blame_ok s" and "i < length (readers s)"
  shows "r_take i s = Some s' \<Longrightarrow> blame_ok s'"
    and "r_send env i s = Some s' \<Longrightarrow> blame_ok s'"
    and "r_handoff env i j s = Some s' \<Longrightarrow> blame_ok s'"
    and "r_cancel env i s = Some s' \<Longrightarrow> blame_ok s'"
    and "r_drain env i s = Some s' \<Longrightarrow> blame_ok s'"
    and "r_finish i s = Some s' \<Longrightarrow> blame_ok s'"
  using assms
  by (auto simp: reader_moves Let_def err_list_def
      split: list.splits reader_phase.splits option.splits if_splits
      intro!: set_reader_blame blame_doomed) (auto simp: doomed_def)

lemma transformer_blame:
  assumes "blame_ok s"
  shows "t_take env j s = Some s' \<Longrightarrow> blame_ok s'"
    and "t_tick j s = Some s' \<Longrightarrow> blame_ok s'"
    and "t_send env j s = Some s' \<Longrightarrow> blame_ok s'"
    and "t_cancel j s = Some s' \<Longrightarrow> blame_ok s'"
  using assms by (auto simp: transformer_moves Let_def split: list.splits if_splits)

lemma writer_blame:
  assumes "blame_ok s"
  shows "w_take k s = Some s' \<Longrightarrow> blame_ok s'"
    and "w_cancel k s = Some s' \<Longrightarrow> blame_ok s'"
    and "w_ack env k s = Some s' \<Longrightarrow> blame_ok s'"
    and "w_fail k s = Some s' \<Longrightarrow> blame_ok s'"
    and "w_ack_one k s = Some s' \<Longrightarrow> blame_ok s'"
    and "w_fail_one k e now we s = Some s' \<Longrightarrow> blame_ok s'"
    and "save_read env k i now s = Some s' \<Longrightarrow> blame_ok s'"
    and "save_write env k s = Some s' \<Longrightarrow> blame_ok s'"
  using assms
  by (auto simp: writer_moves Let_def split: list.splits writer_phase.splits prod.splits if_splits)

lemma group_blame:
  assumes "blame_ok s"
  shows "close_records s = Some s' \<Longrightarrow> blame_ok s'"
    and "close_batches s = Some s' \<Longrightarrow> blame_ok s'"
    and "report n s = Some s' \<Longrightarrow> blame_ok s'"
    and "cancel s = Some s' \<Longrightarrow> blame_ok s'"
  using assms
  by (auto simp: group_moves split: if_splits) (auto simp: blame_ok_def troubled_def split: option.splits)

lemma fire_blame: "blame_ok s \<Longrightarrow> local_ok env s \<Longrightarrow> fire env e s = Some s' \<Longrightarrow> blame_ok s'"
  by (cases e)
    (auto simp: fire_def split: if_splits
      intro: source_blame reader_blame transformer_blame writer_blame group_blame)

section \<open>A worker that ended without error has seen its channel closed and empty\<close>

definition exits_ok :: "('m, 'p) pipeline \<Rightarrow> bool" where
  "exits_ok s \<longleftrightarrow>
     (list_ex (\<lambda>t. t_phase t = TDone \<or> t_phase t = TFinal) (transformers s) \<longrightarrow>
        troubled s \<or> record_closed s \<and> record_ch s = []) \<and>
     (list_ex (\<lambda>w. w_phase w = WDone) (writers s) \<longrightarrow>
        troubled s \<or> batch_closed s \<and> batch_ch s = [])"

lemma exits_other [simp]:
  "exits_ok (s\<lparr>dropped := d\<rparr>) = exits_ok s"
  "exits_ok (s\<lparr>written := ws\<rparr>) = exits_ok s"
  "exits_ok (s\<lparr>rejected := ws\<rparr>) = exits_ok s"
  "exits_ok (s\<lparr>dlq_log := q\<rparr>) = exits_ok s"
  "exits_ok (s\<lparr>cp_store := st\<rparr>) = exits_ok s"
  "exits_ok (s\<lparr>cancelled := b\<rparr>) = exits_ok s"
  "exits_ok (s\<lparr>panicked := b\<rparr>) = exits_ok s"
  "exits_ok (set_reader i r s) = exits_ok s"
  by (simp_all add: exits_ok_def troubled_def setters)

lemma exits_pending [simp]: "exits_ok (s\<lparr>pending_errs := e # es\<rparr>)"
  by (simp add: exits_ok_def troubled_def)

lemma exits_troubled: "troubled s \<Longrightarrow> exits_ok s"
  by (simp add: exits_ok_def)

lemma set_transformer_exits:
  "exits_ok s \<Longrightarrow> (t_phase t = TDone \<or> t_phase t = TFinal \<Longrightarrow> record_closed s \<and> record_ch s = []) \<Longrightarrow>
   exits_ok (set_transformer j t s)"
  by (auto simp: exits_ok_def set_transformer_def troubled_def dest!: list_ex_update_dest)

lemma set_writer_exits:
  "exits_ok s \<Longrightarrow> (w_phase w = WDone \<Longrightarrow> batch_closed s \<and> batch_ch s = []) \<Longrightarrow>
   exits_ok (set_writer k w s)"
  by (auto simp: exits_ok_def set_writer_def troubled_def dest!: list_ex_update_dest)

lemma source_exits:
  assumes "exits_ok s"
  shows "src_send env i s = Some s' \<Longrightarrow> exits_ok s'"
    and "src_close i s = Some s' \<Longrightarrow> exits_ok s'"
    and "src_return i s = Some s' \<Longrightarrow> exits_ok s'"
    and "src_abort env i s = Some s' \<Longrightarrow> exits_ok s'"
  using assms by (auto simp: source_moves Let_def split: list.splits if_splits)

lemma t_receive_not_done [simp]:
  "t_phase (t_receive env x t) \<noteq> TDone" "t_phase (t_receive env x t) \<noteq> TFinal"
  by (simp_all add: t_receive_def Let_def)

lemma reader_exits:
  assumes "exits_ok s"
  shows "r_take i s = Some s' \<Longrightarrow> exits_ok s'"
    and "r_send env i s = Some s' \<Longrightarrow> exits_ok s'"
    and "r_handoff env i j s = Some s' \<Longrightarrow> exits_ok s'"
    and "r_cancel env i s = Some s' \<Longrightarrow> exits_ok s'"
    and "r_drain env i s = Some s' \<Longrightarrow> exits_ok s'"
    and "r_finish i s = Some s' \<Longrightarrow> exits_ok s'"
proof -
  note sp = list.splits reader_phase.splits option.splits if_splits
  show "r_take i s = Some s' \<Longrightarrow> exits_ok s'"
    using assms by (auto simp: r_take_def Let_def split: sp)
  show "r_send env i s = Some s' \<Longrightarrow> exits_ok s'"
    using assms by (auto simp: r_send_def Let_def exits_ok_def troubled_def set_reader_def split: sp)
  show "r_handoff env i j s = Some s' \<Longrightarrow> exits_ok s'"
    using assms by (auto simp: r_handoff_def Let_def exits_ok_def troubled_def set_reader_def
        split: sp dest!: list_ex_update_dest)
  show "r_cancel env i s = Some s' \<Longrightarrow> exits_ok s'"
    using assms by (auto simp: r_cancel_def Let_def split: sp)
  show "r_drain env i s = Some s' \<Longrightarrow> exits_ok s'"
    using assms by (auto simp: r_drain_def Let_def split: sp)
  show "r_finish i s = Some s' \<Longrightarrow> exits_ok s'"
    using assms by (auto simp: r_finish_def Let_def err_list_def split: sp)
qed

lemma transformer_exits:
  assumes "exits_ok s" and "closing_ok s" and "j < length (transformers s)"
  shows "t_take env j s = Some s' \<Longrightarrow> exits_ok s'"
    and "t_tick j s = Some s' \<Longrightarrow> exits_ok s'"
    and "t_send env j s = Some s' \<Longrightarrow> exits_ok s'"
    and "t_cancel j s = Some s' \<Longrightarrow> exits_ok s'"
proof -
  show "t_take env j s = Some s' \<Longrightarrow> exits_ok s'"
    using assms(1)
    by (auto simp: t_take_def Let_def exits_ok_def troubled_def set_transformer_def
        split: list.splits if_splits dest!: list_ex_update_dest)
  show "t_tick j s = Some s' \<Longrightarrow> exits_ok s'"
    using assms(1) by (auto simp: t_tick_def Let_def split: if_splits intro!: set_transformer_exits)
  show "exits_ok s'" if send: "t_send env j s = Some s'"
  proof -
    have "t_phase (transformers s ! j) \<noteq> TDone" using send by (auto simp: t_send_def Let_def split: if_splits)
    then have open_: "\<not> batch_closed s" using closed_senders(2) [OF assms(2,3)] by simp
    have final: "t_phase (transformers s ! j) = TFinal \<Longrightarrow> troubled s \<or> record_closed s \<and> record_ch s = []"
      using assms(1,3) by (auto simp: exits_ok_def list_ex_length)
    show ?thesis using send assms(1) open_ final
      by (auto simp: t_send_def Let_def exits_ok_def troubled_def set_transformer_def
          split: if_splits dest!: list_ex_update_dest)
  qed
  show "t_cancel j s = Some s' \<Longrightarrow> exits_ok s'"
    by (auto simp: t_cancel_def Let_def split: if_splits)
qed

lemma writer_exits:
  assumes "exits_ok s"
  shows "w_take k s = Some s' \<Longrightarrow> exits_ok s'"
    and "w_cancel k s = Some s' \<Longrightarrow> exits_ok s'"
    and "w_ack env k s = Some s' \<Longrightarrow> exits_ok s'"
    and "w_fail k s = Some s' \<Longrightarrow> exits_ok s'"
    and "w_ack_one k s = Some s' \<Longrightarrow> exits_ok s'"
    and "w_fail_one k e now we s = Some s' \<Longrightarrow> exits_ok s'"
    and "save_read env k i now s = Some s' \<Longrightarrow> exits_ok s'"
    and "save_write env k s = Some s' \<Longrightarrow> exits_ok s'"
proof -
  show "w_take k s = Some s' \<Longrightarrow> exits_ok s'"
    using assms
    by (auto simp: w_take_def Let_def exits_ok_def troubled_def set_writer_def
        split: list.splits if_splits dest!: list_ex_update_dest)
qed (use assms in \<open>auto simp: writer_moves Let_def
    split: list.splits writer_phase.splits prod.splits if_splits intro!: set_writer_exits\<close>)

lemma group_exits:
  assumes "exits_ok s"
  shows "close_records s = Some s' \<Longrightarrow> exits_ok s'"
    and "close_batches s = Some s' \<Longrightarrow> exits_ok s'"
    and "report n s = Some s' \<Longrightarrow> exits_ok s'"
    and "cancel s = Some s' \<Longrightarrow> exits_ok s'"
  using assms
  by (auto simp: group_moves split: if_splits)
    (auto simp: exits_ok_def troubled_def split: option.splits)

lemma fire_exits: "exits_ok s \<Longrightarrow> closing_ok s \<Longrightarrow> fire env e s = Some s' \<Longrightarrow> exits_ok s'"
  by (cases e)
    (auto simp: fire_def split: if_splits
      intro: source_exits reader_exits transformer_exits writer_exits group_exits)

section \<open>The invariant\<close>

definition sizes_ok :: "('m, 'p) env \<Rightarrow> ('m, 'p) pipeline \<Rightarrow> bool" where
  "sizes_ok env s \<longleftrightarrow> caps_ok env \<and>
     length (transformers s) = nat (num_transformers (env_cfg env)) \<and>
     length (writers s) = nat (num_writers (env_cfg env))"

lemma fire_sizes: "sizes_ok env s \<Longrightarrow> fire env e s = Some s' \<Longrightarrow> sizes_ok env s'"
  by (cases e)
    (auto simp: fire_def sizes_ok_def all_moves setters Let_def
      split: if_splits list.splits reader_phase.splits writer_phase.splits prod.splits)

definition pipe_inv :: "('m, 'p) env \<Rightarrow> ('m, 'p) pipeline \<Rightarrow> bool" where
  "pipe_inv env s \<longleftrightarrow> sizes_ok env s \<and> local_ok env s \<and> closing_ok s \<and> blame_ok s \<and> exits_ok s"

lemma fire_pipe_inv: "pipe_inv env s \<Longrightarrow> fire env e s = Some s' \<Longrightarrow> pipe_inv env s'"
  using fire_sizes fire_local fire_closing fire_blame fire_exits unfolding pipe_inv_def by blast

lemma start_inv:
  assumes "caps_ok env"
  shows "pipe_inv env (start_pipeline env source parts st q)"
  using assms
  by (auto simp: pipe_inv_def sizes_ok_def local_ok_def closing_ok_def blame_ok_def exits_ok_def
      start_pipeline_def start_reader_def reader_ok_def transformer_ok_def writer_ok_def caps_ok_def
      list_all_iff list_ex_iff)

section \<open>Every event is progress\<close>

fun reader_phase_work :: "reader_phase \<Rightarrow> nat" where
  "reader_phase_work RReading = 5"
| "reader_phase_work (RHolding x) = 13"
| "reader_phase_work RDraining = 4"
| "reader_phase_work RAwait = 4"
| "reader_phase_work RDone = 0"

definition reader_work :: "reader \<Rightarrow> nat" where
  "reader_work r =
     10 * length (src_todo r) + 9 * length (part_ch r) + reader_phase_work (r_phase r) +
     of_bool (\<not> part_closed r) + of_bool (\<not> src_returned r)"

fun transformer_phase_work :: "transformer_phase \<Rightarrow> nat" where
  "transformer_phase_work TIdle = 4"
| "transformer_phase_work TFlush = 3"
| "transformer_phase_work TFinal = 3"
| "transformer_phase_work TDone = 0"

definition transformer_work :: "transformer \<Rightarrow> nat" where
  "transformer_work t = 6 * length (t_batch t) + transformer_phase_work (t_phase t)"

fun writer_phase_work :: "writer_phase \<Rightarrow> nat" where
  "writer_phase_work WIdle = 3"
| "writer_phase_work (WWriting b) = 4 + 2 * length b"
| "writer_phase_work (WIsolating xs) = 3 + length xs"
| "writer_phase_work (WSaving es) = 3 + 2 * length es"
| "writer_phase_work (WPutting cp es) = 4 + 2 * length es"
| "writer_phase_work WDone = 0"

definition writer_work :: "writer \<Rightarrow> nat" where
  "writer_work w = writer_phase_work (w_phase w)"

definition work :: "('m, 'p) pipeline \<Rightarrow> nat" where
  "work s =
     gather reader_work (readers s) + 7 * length (record_ch s) + of_bool (\<not> record_closed s) +
     gather transformer_work (transformers s) + gather (\<lambda>b. 2 + 2 * length b) (batch_ch s) +
     of_bool (\<not> batch_closed s) + gather writer_work (writers s) +
     length (pending_errs s) + of_bool (\<not> cancelled s)"

lemma work_other [simp]:
  "work (s\<lparr>dropped := d\<rparr>) = work s"
  "work (s\<lparr>written := ws\<rparr>) = work s"
  "work (s\<lparr>rejected := ws\<rparr>) = work s"
  "work (s\<lparr>dlq_log := q\<rparr>) = work s"
  "work (s\<lparr>cp_store := st\<rparr>) = work s"
  by (simp_all add: work_def)

lemma set_reader_work:
  "i < length (readers s) \<Longrightarrow> reader_work r + n < reader_work (readers s ! i) \<Longrightarrow>
   work (set_reader i r s) + n < work s"
  using gather_update [of i "readers s" reader_work r] by (simp add: work_def set_reader_def)

lemma set_transformer_work:
  "j < length (transformers s) \<Longrightarrow> transformer_work t + n < transformer_work (transformers s ! j) + m \<Longrightarrow>
   work (set_transformer j t s) + n < work s + m"
  using gather_update [of j "transformers s" transformer_work t]
  by (simp add: work_def set_transformer_def)

lemma set_writer_work:
  "k < length (writers s) \<Longrightarrow> writer_work w + n < writer_work (writers s ! k) + m \<Longrightarrow>
   work (set_writer k w s) + n < work s + m"
  using gather_update [of k "writers s" writer_work w]
  by (simp add: work_def set_writer_def)

lemmas set_reader_less = set_reader_work [where n = 0, simplified]
lemmas set_transformer_less = set_transformer_work [where n = 0 and m = 0, simplified]
lemmas set_writer_less = set_writer_work [where n = 0 and m = 0, simplified]

lemma work_record_ch:
  "record_ch s = x # xs \<Longrightarrow> work ((set_transformer j t s)\<lparr>record_ch := xs\<rparr>) + 7 = work (set_transformer j t s)"
  "work ((set_reader i r s)\<lparr>record_ch := record_ch s @ [x]\<rparr>) = work (set_reader i r s) + 7"
  by (simp_all add: work_def setters)

lemma work_batch_ch:
  "batch_ch s = b # bs \<Longrightarrow>
   work ((set_writer k w s)\<lparr>batch_ch := bs\<rparr>) + (2 + 2 * length b) = work (set_writer k w s)"
  "work ((set_transformer j t s)\<lparr>batch_ch := batch_ch s @ [b]\<rparr>) =
   work (set_transformer j t s) + (2 + 2 * length b)"
  by (simp_all add: work_def setters)

lemma work_pending:
  "work ((set_reader i r s)\<lparr>pending_errs := e # pending_errs s\<rparr>) = work (set_reader i r s) + 1"
  "work ((set_transformer j t s)\<lparr>dropped := d, pending_errs := e # pending_errs s\<rparr>) =
   work (set_transformer j t s) + 1"
  "work ((set_writer k w s)\<lparr>pending_errs := e # pending_errs s\<rparr>) = work (set_writer k w s) + 1"
  by (simp_all add: work_def setters)

lemma t_receive_work:
  "t_phase t = TIdle \<Longrightarrow> transformer_work (t_receive env x t) < transformer_work t + 7"
  by (simp add: transformer_work_def t_receive_def Let_def)

lemma save_plan_length: "length (save_plan b) \<le> length b"
proof -
  have set: "length (map_set k v m) \<le> Suc (length m)" for k :: string and v :: "gval \<times> int" and m
    by (induction k v m rule: map_set.induct) auto
  have add: "length (add_entry es x) \<le> Suc (length es)" for es x
    using set by (simp add: add_entry_def Let_def)
  have "length (foldl add_entry es b) \<le> length es + length b" for es
  proof (induction b arbitrary: es)
    case (Cons x b)
    from Cons [of "add_entry es x"] add [of es x] show ?case by simp
  qed simp
  from this [of "[]"] show ?thesis by (simp add: save_plan_def)
qed

lemma source_work:
  assumes "i < length (readers s)"
  shows "src_send env i s = Some s' \<Longrightarrow> work s' < work s"
    and "src_close i s = Some s' \<Longrightarrow> work s' < work s"
    and "src_return i s = Some s' \<Longrightarrow> work s' < work s"
    and "src_abort env i s = Some s' \<Longrightarrow> work s' < work s"
proof -
  show "src_send env i s = Some s' \<Longrightarrow> work s' < work s"
    by (auto simp: src_send_def Let_def split: list.splits if_splits intro!: set_reader_less assms)
      (simp_all add: reader_work_def)
  show "src_close i s = Some s' \<Longrightarrow> work s' < work s"
    by (auto simp: src_close_def Let_def split: if_splits intro!: set_reader_less assms)
      (simp_all add: reader_work_def)
  show "src_return i s = Some s' \<Longrightarrow> work s' < work s"
    by (auto simp: src_return_def Let_def split: if_splits intro!: set_reader_less assms)
      (simp_all add: reader_work_def)
  show "src_abort env i s = Some s' \<Longrightarrow> work s' < work s"
    by (auto simp: src_abort_def Let_def split: if_splits intro!: set_reader_less assms)
      (simp_all add: reader_work_def)
qed

lemma reader_work_less:
  assumes "i < length (readers s)"
  shows "r_take i s = Some s' \<Longrightarrow> work s' < work s"
    and "\<not> record_closed s \<Longrightarrow> r_send env i s = Some s' \<Longrightarrow> work s' < work s"
    and "r_cancel env i s = Some s' \<Longrightarrow> work s' < work s"
    and "r_drain env i s = Some s' \<Longrightarrow> work s' < work s"
    and "r_finish i s = Some s' \<Longrightarrow> work s' < work s"
proof -
  show "r_take i s = Some s' \<Longrightarrow> work s' < work s"
    by (auto simp: r_take_def Let_def split: list.splits if_splits intro!: set_reader_less assms)
      (simp_all add: reader_work_def)
  show "\<not> record_closed s \<Longrightarrow> r_send env i s = Some s' \<Longrightarrow> work s' < work s"
    by (auto simp: r_send_def Let_def work_record_ch split: reader_phase.splits if_splits
        intro!: set_reader_work assms) (simp_all add: reader_work_def)
  show "r_cancel env i s = Some s' \<Longrightarrow> work s' < work s"
    by (auto simp: r_cancel_def Let_def split: reader_phase.splits if_splits
        intro!: set_reader_less assms) (simp_all add: reader_work_def)
  have pend: "work (set_reader i r s) + 1 < work s" if "reader_work r + 1 < reader_work (readers s ! i)" for r
    using set_reader_work [OF assms that] .
  show "r_drain env i s = Some s' \<Longrightarrow> work s' < work s"
    using pend [of "(readers s ! i)\<lparr>r_phase := RDone\<rparr>"]
    by (auto simp: r_drain_def Let_def work_pending split: list.splits if_splits
        intro!: set_reader_less assms) (simp_all add: reader_work_def)
  show "r_finish i s = Some s' \<Longrightarrow> work s' < work s"
    using pend [of "(readers s ! i)\<lparr>r_phase := RDone\<rparr>"]
    by (auto simp: r_finish_def err_list_def Let_def work_pending split: option.splits if_splits
        intro!: set_reader_less assms) (simp_all add: reader_work_def)
qed

lemma handoff_work:
  assumes "i < length (readers s)" and "j < length (transformers s)"
    and "r_handoff env i j s = Some s'"
  shows "work s' < work s"
proof -
  let ?t = "transformers s ! j"
  from assms(3) obtain x where x: "r_phase (readers s ! i) = RHolding x" "t_phase ?t = TIdle"
    "s' = set_transformer j (t_receive env x ?t) (set_reader i ((readers s ! i)\<lparr>r_phase := RReading\<rparr>) s)"
    by (auto simp: r_handoff_def Let_def setters split: reader_phase.splits if_splits)
  let ?r = "set_reader i ((readers s ! i)\<lparr>r_phase := RReading\<rparr>) s"
  have "work ?r + 7 < work s"
    using x by (intro set_reader_work assms) (simp add: reader_work_def)
  moreover have "work (set_transformer j (t_receive env x ?t) ?r) + 0 < work ?r + 7"
    using assms(2) x t_receive_work [of ?t env x]
    by (intro set_transformer_work) (simp_all add: set_reader_def)
  ultimately show ?thesis using x by simp
qed

lemma transformer_work_less:
  assumes "j < length (transformers s)" and "transformer_ok env (transformers s ! j)"
  shows "t_take env j s = Some s' \<Longrightarrow> work s' < work s"
    and "t_tick j s = Some s' \<Longrightarrow> work s' < work s"
    and "\<not> batch_closed s \<Longrightarrow> t_send env j s = Some s' \<Longrightarrow> work s' < work s"
    and "t_cancel j s = Some s' \<Longrightarrow> work s' < work s"
proof -
  let ?t = "transformers s ! j"
  show "work s' < work s" if take: "t_take env j s = Some s'"
  proof (cases "record_ch s")
    case Nil
    with take show ?thesis
      by (auto simp: t_take_def Let_def split: if_splits intro!: set_transformer_less assms)
        (simp_all add: transformer_work_def)
  next
    case (Cons x xs)
    with take have idle: "t_phase ?t = TIdle"
      and s': "s' = (set_transformer j (t_receive env x ?t) s)\<lparr>record_ch := xs\<rparr>"
      by (auto simp: t_take_def Let_def split: if_splits)
    have "work (set_transformer j (t_receive env x ?t) s) + 0 < work s + 7"
      using t_receive_work [OF idle, of env x] by (intro set_transformer_work assms) simp
    then show ?thesis using work_record_ch(1) [OF Cons, of j "t_receive env x ?t"] s' by simp
  qed
  show "t_tick j s = Some s' \<Longrightarrow> work s' < work s"
    by (auto simp: t_tick_def Let_def split: if_splits intro!: set_transformer_less assms)
      (simp_all add: transformer_work_def)
  show "work s' < work s" if "\<not> batch_closed s" and send: "t_send env j s = Some s'"
  proof -
    have "t_batch ?t \<noteq> []"
      using send assms(2) by (auto simp: t_send_def Let_def transformer_ok_def batch_ok_def split: if_splits)
    then obtain y ys where ne: "t_batch ?t = y # ys" by (cases "t_batch ?t") auto
    let ?t' = "?t\<lparr>t_batch := [], t_phase := if t_phase ?t = TFinal then TDone else TIdle\<rparr>"
    have ph: "t_phase ?t = TFlush \<or> t_phase ?t = TFinal"
      using send by (auto simp: t_send_def Let_def split: if_splits)
    have "work (set_transformer j ?t' s) + (2 + 2 * length (t_batch ?t)) < work s + 0"
      using ne ph by (intro set_transformer_work assms) (auto simp: transformer_work_def)
    moreover have "s' = (set_transformer j ?t' s)\<lparr>batch_ch := batch_ch s @ [t_batch ?t]\<rparr>"
      using that by (auto simp: t_send_def Let_def split: if_splits)
    ultimately show ?thesis by (simp only: work_batch_ch)
  qed
  show "work s' < work s" if cncl: "t_cancel j s = Some s'"
  proof -
    have "work (set_transformer j (?t\<lparr>t_batch := [], t_phase := TDone\<rparr>) s) + 1 < work s + 0"
      using cncl by (intro set_transformer_work assms)
        (auto simp: t_cancel_def Let_def transformer_work_def split: if_splits)
    with cncl show ?thesis
      by (auto simp: t_cancel_def Let_def work_pending split: if_splits)
  qed
qed

lemma writer_work_less:
  assumes "k < length (writers s)"
  shows "w_take k s = Some s' \<Longrightarrow> work s' < work s"
    and "w_cancel k s = Some s' \<Longrightarrow> work s' < work s"
    and "w_ack env k s = Some s' \<Longrightarrow> work s' < work s"
    and "w_fail k s = Some s' \<Longrightarrow> work s' < work s"
    and "w_ack_one k s = Some s' \<Longrightarrow> work s' < work s"
    and "w_fail_one k e now we s = Some s' \<Longrightarrow> work s' < work s"
    and "save_read env k i now s = Some s' \<Longrightarrow> work s' < work s"
    and "save_write env k s = Some s' \<Longrightarrow> work s' < work s"
proof -
  let ?w = "writers s ! k"
  note sp = writer_phase.splits list.splits prod.splits if_splits
  show "work s' < work s" if take: "w_take k s = Some s'"
  proof (cases "batch_ch s")
    case Nil
    with take show ?thesis
      by (auto simp: w_take_def Let_def split: if_splits intro!: set_writer_less assms)
        (simp_all add: writer_work_def)
  next
    case (Cons b bs)
    with take have idle: "w_phase ?w = WIdle"
      and s': "s' = (set_writer k (?w\<lparr>w_phase := WWriting b\<rparr>) s)\<lparr>batch_ch := bs\<rparr>"
      by (auto simp: w_take_def Let_def split: if_splits)
    have "work (set_writer k (?w\<lparr>w_phase := WWriting b\<rparr>) s) + 0 < work s + (2 + 2 * length b)"
      using idle by (intro set_writer_work assms) (simp add: writer_work_def)
    then show ?thesis using work_batch_ch(1) [OF Cons, of k "?w\<lparr>w_phase := WWriting b\<rparr>"] s' by simp
  qed
  show "work s' < work s" if cncl: "w_cancel k s = Some s'"
  proof -
    have "work (set_writer k (?w\<lparr>w_phase := WDone\<rparr>) s) + 1 < work s + 0"
      using cncl by (intro set_writer_work assms)
        (auto simp: w_cancel_def Let_def writer_work_def split: if_splits)
    with cncl show ?thesis by (auto simp: w_cancel_def Let_def work_pending split: if_splits)
  qed
  show "work s' < work s" if ack: "w_ack env k s = Some s'"
  proof -
    obtain b where b: "w_phase ?w = WWriting b"
      using ack by (auto simp: w_ack_def Let_def split: writer_phase.splits)
    show ?thesis using ack b save_plan_length [of b]
      by (auto simp: w_ack_def Let_def intro!: set_writer_less assms) (auto simp: writer_work_def)
  qed
  show "w_fail k s = Some s' \<Longrightarrow> work s' < work s"
    by (auto simp: w_fail_def Let_def split: writer_phase.splits intro!: set_writer_less assms)
      (auto simp: writer_work_def)
  show "w_ack_one k s = Some s' \<Longrightarrow> work s' < work s"
    by (auto simp: w_ack_one_def Let_def split: writer_phase.splits list.splits
        intro!: set_writer_less assms) (auto simp: writer_work_def)
  show "w_fail_one k e now we s = Some s' \<Longrightarrow> work s' < work s"
    by (auto simp: w_fail_one_def Let_def split: writer_phase.splits list.splits
        intro!: set_writer_less assms) (auto simp: writer_work_def)
  show "save_read env k i now s = Some s' \<Longrightarrow> work s' < work s"
    by (auto simp: save_read_def Let_def split: writer_phase.splits prod.splits if_splits
        intro!: set_writer_less assms) (auto simp: writer_work_def)
  show "save_write env k s = Some s' \<Longrightarrow> work s' < work s"
    by (auto simp: save_write_def Let_def split: writer_phase.splits
        intro!: set_writer_less assms) (auto simp: writer_work_def)
qed

lemma group_work:
  "close_records s = Some s' \<Longrightarrow> work s' < work s"
  "close_batches s = Some s' \<Longrightarrow> work s' < work s"
  "report n s = Some s' \<Longrightarrow> work s' < work s"
  "cancel s = Some s' \<Longrightarrow> work s' < work s"
  by (auto simp: group_moves work_def split: if_splits)

lemma send_open:
  assumes "closing_ok s"
  shows "i < length (readers s) \<Longrightarrow> r_send env i s = Some s' \<Longrightarrow> \<not> record_closed s"
    and "j < length (transformers s) \<Longrightarrow> t_send env j s = Some s' \<Longrightarrow> \<not> batch_closed s"
  using closed_senders(1) [OF assms, of i] closed_senders(2) [OF assms, of j]
  by (auto simp: r_send_def t_send_def Let_def split: reader_phase.splits if_splits)

lemma fire_work:
  assumes "pipe_inv env s" and "fire env e s = Some s'"
  shows "work s' < work s"
proof -
  have ok: "local_ok env s" "closing_ok s" using assms(1) by (simp_all add: pipe_inv_def)
  show ?thesis using assms(2)
    by (cases e)
      (auto simp: fire_def split: if_splits
        intro: source_work reader_work_less handoff_work writer_work_less group_work
          transformer_work_less(1,2,4) [OF _ local_okD(2) [OF ok(1)]]
          transformer_work_less(3) [OF _ local_okD(2) [OF ok(1)]]
        dest: send_open [OF ok(2)])
qed

interpretation pl: measured_system "fire env" "pipe_inv env" work for env :: "('m, 'p) env"
  by unfold_locales (rule fire_pipe_inv fire_work; assumption)+

end
