(* ===== verification/Checkpoint_Props.thy ===== *)
theory Checkpoint_Props
  imports Checkpoint
begin

text \<open>
  What the checkpoint store promises, from bbolt's documented behaviour (\<open>bolt_laws\<close>): round trips
  of one partition's progress, exact listing by operation, isolation between operations, status
  updates, deletion and garbage collection. A reference bucket (an association list) shows that
  the laws can hold; the witnesses run on it.
\<close>

section \<open>Consequences of the bucket laws\<close>

lemma put_get: "bolt_laws ops \<Longrightarrow> bo_put ops b k v = Inr b' \<Longrightarrow>
  bo_get ops b' k' = (if k' = k then Some v else bo_get ops b k')"
  by (simp add: bolt_laws_def)

lemma delete_get: "bolt_laws ops \<Longrightarrow> bo_delete ops b k = Inr b' \<Longrightarrow>
  bo_get ops b' k' = (if k' = k then None else bo_get ops b k')"
  by (simp add: bolt_laws_def)

lemma seek_sorted: "bolt_laws ops \<Longrightarrow> sorted_wrt (<) (map fst (bo_seek ops b p))"
  unfolding bolt_laws_def by blast

lemma seek_set: "bolt_laws ops \<Longrightarrow> (k, v) \<in> set (bo_seek ops b p) \<longleftrightarrow> bo_get ops b k = Some v \<and> p \<le> k"
  unfolding bolt_laws_def by auto

lemma cursor_prefix_filter:
  assumes "bolt_laws ops"
  shows "cursor_prefix ops b p = filter (\<lambda>(k, v). has_prefix k p) (bo_seek ops b p)"
proof -
  have "sorted (map fst (bo_seek ops b p))"
    using seek_sorted [OF assms] by (simp add: strict_sorted_imp_sorted)
  moreover have "\<forall>x \<in> set (bo_seek ops b p). p \<le> fst x"
    using seek_set [OF assms] by auto
  ultimately show ?thesis
    unfolding cursor_prefix_def case_prod_beta by (rule sorted_takeWhile_prefix)
qed

lemma cursor_prefix_set:
  assumes "bolt_laws ops"
  shows "(k, v) \<in> set (cursor_prefix ops b p) \<longleftrightarrow> bo_get ops b k = Some v \<and> has_prefix k p"
  using seek_set [OF assms, of k v b p] prefix_le [of p]
  by (auto simp: cursor_prefix_filter [OF assms] has_prefix_iff)

lemma cursor_prefix_sorted:
  assumes "bolt_laws ops"
  shows "sorted_wrt (<) (map fst (cursor_prefix ops b p))"
  unfolding cursor_prefix_def using seek_sorted [OF assms, of b p]
  by (metis (no_types, lifting) sorted_wrt_take takeWhile_eq_take take_map)

lemma delete_keys_get:
  assumes "bolt_laws ops" and "delete_keys ops b ks = Inr b'"
  shows "bo_get ops b' k = (if k \<in> set ks then None else bo_get ops b k)"
  using assms(2)
proof (induction ks arbitrary: b)
  case (Cons k' ks)
  then obtain b1 where "bo_delete ops b k' = Inr b1" and "delete_keys ops b1 ks = Inr b'"
    by (auto simp: rbind_Inr_iff)
  with Cons.IH show ?case using delete_get [OF assms(1)] by auto
qed simp

section \<open>Keys\<close>

lemma partition_key_eq:
  assumes "CHR '':'' \<notin> set op1" and "CHR '':'' \<notin> set op2"
  shows "partition_key op1 p1 = partition_key op2 p2 \<longleftrightarrow> op1 = op2 \<and> p1 = p2"
  using assms separator_unique by (fastforce simp: partition_key_def)

lemma partition_key_same_op [simp]: "partition_key op1 p1 = partition_key op1 p2 \<longleftrightarrow> p1 = p2"
  by (simp add: partition_key_def)

lemma has_prefix_key_iff: "has_prefix k (partition_key_prefix op1) \<longleftrightarrow> (\<exists>pid. k = partition_key op1 pid)"
  by (simp add: has_prefix_iff partition_key_def partition_key_prefix_def)

lemma key_has_prefix:
  assumes "CHR '':'' \<notin> set op1" and "CHR '':'' \<notin> set op2"
  shows "has_prefix (partition_key op2 pid) (partition_key_prefix op1) \<longleftrightarrow> op2 = op1"
  using assms by (auto simp: has_prefix_key_iff partition_key_eq)

section \<open>A reference bucket\<close>

type_synonym 'v ref_bucket = "(string \<times> 'v) list"

definition ref_ops :: "('v ref_bucket, 'v) bolt_ops" where
  "ref_ops =
     \<lparr>bo_get = map_of,
      bo_put = (\<lambda>b k v. if k = [] then Inl (ErrMsg ''key required'') else Inr (map_set k v b)),
      bo_delete = (\<lambda>b k. Inr (map_del k b)),
      bo_seek = (\<lambda>b p. map (\<lambda>k. (k, the (map_of b k)))
        (filter (\<lambda>k. p \<le> k) (sort (remdups (map fst b)))))\<rparr>"

definition ref_db :: "(operation_meta option ref_bucket, stored_checkpoint option ref_bucket) bolt_db" where
  "ref_db = \<lparr>meta_ops = ref_ops, part_ops = ref_ops\<rparr>"

lemma ref_seek_set:
  "(k, v) \<in> set (bo_seek ref_ops b p) \<longleftrightarrow> bo_get ref_ops b k = Some v \<and> p \<le> k"
proof -
  have "k \<in> fst ` set b \<longleftrightarrow> (\<exists>v. map_of b k = Some v)"
    by (metis map_of_eq_None_iff not_None_eq)
  then show ?thesis by (auto simp: ref_ops_def)
qed

lemma ref_ops_laws: "bolt_laws ref_ops"
  unfolding bolt_laws_def
proof (intro conjI allI impI)
  fix b :: "'a ref_bucket" and p
  have "sorted_wrt (<) (filter (\<lambda>k. p \<le> k) (sort (remdups (map fst b))))"
    by (intro sorted_wrt_filter) (simp add: strict_sorted_iff)
  then show "sorted_wrt (<) (map fst (bo_seek ref_ops b p))"
    by (simp add: ref_ops_def comp_def)
  show "set (bo_seek ref_ops b p) = {(k, v). bo_get ref_ops b k = Some v \<and> p \<le> k}"
    by (auto simp: ref_seek_set)
qed (auto simp: ref_ops_def split: if_splits)

lemma ref_db_laws: "bolt_db_laws ref_db"
  by (simp add: bolt_db_laws_def ref_db_def ref_ops_laws)

definition ref_store :: "(operation_meta option ref_bucket, stored_checkpoint option ref_bucket) store" where
  "ref_store = \<lparr>meta_bucket = [], partition_bucket = []\<rparr>"

definition sample_checkpoint :: "string \<Rightarrow> int \<Rightarrow> partition_checkpoint" where
  "sample_checkpoint pid i =
     \<lparr>cp_partition_id = pid, cp_status = StatusInProgress, cp_last_committed = VInt64 (word_of_int i),
      cp_rows_written = 100, cp_error_count = 0, cp_updated_at = 5\<rparr>"

lemmas ref_eval = ref_db_def ref_ops_def ref_store_def sample_checkpoint_def
  save_partition_def get_partition_def list_partitions_def save_status_def delete_operation_def
  save_meta_def get_meta_def cursor_prefix_def encode_checkpoint_def decode_checkpoint_def
  partition_key_def partition_key_prefix_def has_prefix_def list_all_meta_ids_def Let_def

section \<open>Saving and reading back\<close>

lemma save_partition_get:
  assumes "bolt_db_laws db" and "save_partition db st op_id cp = Inr st'"
  obtains j where "to_json (cp_last_committed cp) = Inr j"
    and "\<And>pid. get_partition db st' op_id pid =
      (if pid = cp_partition_id cp then Inr (cp\<lparr>cp_last_committed := from_json True j\<rparr>)
       else get_partition db st op_id pid)"
proof -
  from assms(2) obtain j p' where j: "to_json (cp_last_committed cp) = Inr j"
    and put: "bo_put (part_ops db) (partition_bucket st) (partition_key op_id (cp_partition_id cp))
       (Some \<lparr>sc_partition_id = cp_partition_id cp, sc_status = cp_status cp, sc_last_committed = j,
        sc_rows_written = cp_rows_written cp, sc_error_count = cp_error_count cp,
        sc_updated_at = cp_updated_at cp\<rparr>) = Inr p'"
    and st': "st' = st\<lparr>partition_bucket := p'\<rparr>"
    by (auto simp: save_partition_def encode_checkpoint_def rbind_Inr_iff)
  have laws: "bolt_laws (part_ops db)" using assms(1) by (simp add: bolt_db_laws_def)
  have "get_partition db st' op_id pid =
      (if pid = cp_partition_id cp then Inr (cp\<lparr>cp_last_committed := from_json True j\<rparr>)
       else get_partition db st op_id pid)" for pid
    using st' by (auto simp: get_partition_def put_get [OF laws put] decode_checkpoint_def)
  with j that show thesis by blast
qed

text \<open>A saved checkpoint reads back with every field unchanged except that its offset
  has gone through JSON (with \<open>UseNumber\<close>, so no digit of a number is lost), and saving it
  changes no other partition of this operation and nothing of any other operation whose ID has no
  colon.\<close>

theorem save_get_partition:
  assumes "bolt_db_laws db" and "save_partition db st op_id cp = Inr st'"
  shows "\<exists>j. to_json (cp_last_committed cp) = Inr j \<and>
      get_partition db st' op_id (cp_partition_id cp)
        = Inr (cp\<lparr>cp_last_committed := from_json True j\<rparr>) \<and>
      (\<forall>pid. pid \<noteq> cp_partition_id cp \<longrightarrow>
         get_partition db st' op_id pid = get_partition db st op_id pid) \<and>
      (\<forall>op2 pid. CHR '':'' \<notin> set op_id \<and> CHR '':'' \<notin> set op2 \<and> op2 \<noteq> op_id \<longrightarrow>
         get_partition db st' op2 pid = get_partition db st op2 pid) \<and>
      (\<forall>i. get_meta db st' i = get_meta db st i)"
proof -
  from assms(2) obtain j p' where j: "to_json (cp_last_committed cp) = Inr j"
    and put: "bo_put (part_ops db) (partition_bucket st) (partition_key op_id (cp_partition_id cp))
       (Some \<lparr>sc_partition_id = cp_partition_id cp, sc_status = cp_status cp, sc_last_committed = j,
        sc_rows_written = cp_rows_written cp, sc_error_count = cp_error_count cp,
        sc_updated_at = cp_updated_at cp\<rparr>) = Inr p'"
    and st': "st' = st\<lparr>partition_bucket := p'\<rparr>"
    by (auto simp: save_partition_def encode_checkpoint_def rbind_Inr_iff)
  have laws: "bolt_laws (part_ops db)" using assms(1) by (simp add: bolt_db_laws_def)
  note get = put_get [OF laws put]
  show ?thesis
    using j st' by (auto simp: get_partition_def get_meta_def get decode_checkpoint_def partition_key_eq)
qed

theorem save_get_partition_witness:
  "\<exists>st'. save_partition ref_db ref_store ''mig-1'' (sample_checkpoint ''p0'' 7) = Inr st' \<and>
     (\<exists>j. to_json (cp_last_committed (sample_checkpoint ''p0'' 7)) = Inr j \<and>
        get_partition ref_db st' ''mig-1'' (cp_partition_id (sample_checkpoint ''p0'' 7))
          = Inr ((sample_checkpoint ''p0'' 7)\<lparr>cp_last_committed := from_json True j\<rparr>))"
proof -
  obtain st' where s: "save_partition ref_db ref_store ''mig-1'' (sample_checkpoint ''p0'' 7) = Inr st'"
    by (auto simp: ref_eval)
  then show ?thesis using save_get_partition [OF ref_db_laws s] by auto
qed

text \<open>Reading a checkpoint and saving it again is stable: after the first save the offset
  no longer changes, so any number of get-and-save rounds (what the writers do) keeps it. The
  offset's JSON is canonical, as \<open>json.Marshal\<close> always writes it.\<close>

theorem checkpoint_reload_stable:
  assumes "bolt_db_laws db" and "get_partition db st op_id pid = Inr cp"
    and "\<forall>k data. bo_get (part_ops db) (partition_bucket st) k = Some (Some data) \<longrightarrow>
           canonical (sc_last_committed data)"
    and "save_partition db st op_id (cp\<lparr>cp_partition_id := pid, cp_rows_written := n, cp_updated_at := t\<rparr>) = Inr st'"
  shows "get_partition db st' op_id pid = Inr (cp\<lparr>cp_partition_id := pid, cp_rows_written := n, cp_updated_at := t\<rparr>)"
proof -
  from assms(2) obtain data where
    data: "bo_get (part_ops db) (partition_bucket st) (partition_key op_id pid) = Some (Some data)"
    and cp: "cp = decode_checkpoint True data"
    by (auto simp: get_partition_def split: option.splits)
  have "canonical (sc_last_committed data)" using assms(3) data by blast
  then have "to_json (cp_last_committed cp) = Inr (sc_last_committed data)"
    by (simp add: cp decode_checkpoint_def reload_canonical)
  moreover have "from_json True (sc_last_committed data) = cp_last_committed cp"
    by (simp add: cp decode_checkpoint_def)
  ultimately show ?thesis
    using save_get_partition [OF assms(1,4)] by auto
qed

theorem checkpoint_reload_stable_witness:
  "\<exists>st st' cp. get_partition ref_db st ''mig-1'' ''p0'' = Inr cp \<and>
     save_partition ref_db st ''mig-1'' (cp\<lparr>cp_partition_id := ''p0'', cp_rows_written := 200, cp_updated_at := 9\<rparr>)
       = Inr st' \<and>
     get_partition ref_db st' ''mig-1'' ''p0''
       = Inr (cp\<lparr>cp_partition_id := ''p0'', cp_rows_written := 200, cp_updated_at := 9\<rparr>)"
proof -
  obtain st where st: "save_partition ref_db ref_store ''mig-1'' (sample_checkpoint ''p0'' 7) = Inr st"
    by (auto simp: ref_eval)
  from save_get_partition [OF ref_db_laws st] obtain cp where
    cp: "get_partition ref_db st ''mig-1'' ''p0'' = Inr cp"
    by (auto simp: sample_checkpoint_def)
  have canon: "\<forall>k data. bo_get (part_ops ref_db) (partition_bucket st) k = Some (Some data) \<longrightarrow>
      canonical (sc_last_committed data)"
    using st by (auto simp: ref_eval split: if_splits)
  obtain st' where st': "save_partition ref_db st ''mig-1''
      (cp\<lparr>cp_partition_id := ''p0'', cp_rows_written := 200, cp_updated_at := 9\<rparr>) = Inr st'"
    using st cp by (auto simp: ref_eval)
  show ?thesis
    using cp st' checkpoint_reload_stable [OF ref_db_laws cp canon st'] by blast
qed

section \<open>Listing\<close>

lemma decode_partitions_Inr:
  "decode_partitions kvs = Inr cps \<longleftrightarrow>
     (\<forall>kv \<in> set kvs. snd kv \<noteq> None) \<and> cps = map (\<lambda>kv. decode_checkpoint True (the (snd kv))) kvs"
  by (induction kvs arbitrary: cps rule: decode_partitions.induct) (auto simp: rbind_Inr_iff)

lemma map_partition_key_sorted:
  "sorted_wrt (<) (map (partition_key op_id) pids) \<Longrightarrow> sorted_wrt (<) pids"
  by (induction pids) (auto simp: partition_key_def append_less_cancel)

text \<open>C29: listing is exact: when \<open>ListPartitions\<close> succeeds it returns, in increasing order of
  partition ID and each once, precisely the checkpoints that \<open>GetPartition\<close> finds for the
  operation, even though the cursor stops at the first key without the operation's prefix.\<close>

theorem list_partitions_exact:
  assumes "bolt_db_laws db" and "list_partitions db st op_id = Inr cps"
  shows "\<exists>pids. sorted_wrt (<) pids \<and> map (get_partition db st op_id) pids = map Inr cps \<and>
      (\<forall>pid. pid \<in> set pids \<longleftrightarrow> get_partition db st op_id pid \<noteq> Inl checkpoint_not_found)"
proof -
  have laws: "bolt_laws (part_ops db)" using assms(1) by (simp add: bolt_db_laws_def)
  define p where "p = partition_key_prefix op_id"
  define kvs where "kvs = cursor_prefix (part_ops db) (partition_bucket st) p"
  define pids where "pids = map (\<lambda>kv. drop (length p) (fst kv)) kvs"
  have dec: "\<forall>kv \<in> set kvs. snd kv \<noteq> None" "cps = map (\<lambda>kv. decode_checkpoint True (the (snd kv))) kvs"
    using assms(2) unfolding list_partitions_def kvs_def p_def decode_partitions_Inr by blast+
  have kv: "bo_get (part_ops db) (partition_bucket st) (fst kv) = Some (snd kv)"
    "fst kv = partition_key op_id (drop (length p) (fst kv))" if "kv \<in> set kvs" for kv
    using that cursor_prefix_set [OF laws, of "fst kv" "snd kv"]
    by (auto simp: kvs_def p_def has_prefix_key_iff) (simp add: partition_key_def partition_key_prefix_def)
  have keys: "map (partition_key op_id) pids = map fst kvs"
    unfolding pids_def using kv(2) by simp
  have "sorted_wrt (<) (map fst kvs)"
    unfolding kvs_def using laws by (rule cursor_prefix_sorted)
  then have "sorted_wrt (<) pids" by (metis keys map_partition_key_sorted)
  moreover have "map (get_partition db st op_id) pids = map Inr cps"
  proof -
    have "get_partition db st op_id (drop (length p) (fst kv))
        = Inr (decode_checkpoint True (the (snd kv)))" if m: "kv \<in> set kvs" for kv
      using kv [OF m] dec(1) m by (auto simp: get_partition_def)
    then show ?thesis by (simp add: pids_def dec(2))
  qed
  moreover have "pid \<in> set pids \<longleftrightarrow> get_partition db st op_id pid \<noteq> Inl checkpoint_not_found" for pid
  proof -
    have "pid \<in> set pids \<longleftrightarrow> partition_key op_id pid \<in> set (map fst kvs)"
      by (metis (no_types, lifting) keys image_iff list.set_map partition_key_same_op)
    also have "\<dots> \<longleftrightarrow> bo_get (part_ops db) (partition_bucket st) (partition_key op_id pid) \<noteq> None"
      using cursor_prefix_set [OF laws, of "partition_key op_id pid" _ "partition_bucket st" p]
      by (force simp: kvs_def p_def has_prefix_key_iff)
    finally show ?thesis by (auto simp: get_partition_def split: option.splits)
  qed
  ultimately show ?thesis by blast
qed

theorem list_partitions_exact_witness:
  "\<exists>st cps. list_partitions ref_db st ''mig-1'' = Inr cps \<and> cps \<noteq> [] \<and>
     (\<exists>pids. sorted_wrt (<) pids \<and> map (get_partition ref_db st ''mig-1'') pids = map Inr cps)"
proof -
  obtain st where st: "save_partition ref_db ref_store ''mig-1'' (sample_checkpoint ''p0'' 7) = Inr st"
    by (auto simp: ref_eval)
  then obtain cps where cps: "list_partitions ref_db st ''mig-1'' = Inr cps" and "cps \<noteq> []"
    by (auto simp: ref_eval split: if_splits)
  with list_partitions_exact [OF ref_db_laws cps] show ?thesis by blast
qed

section \<open>Status updates\<close>

text \<open>\<open>SaveStatus\<close> changes the status and the time only, as long as the offset is not
  a number. A number is replaced by its nearest float64, because the update decodes without
  \<open>UseNumber\<close>: an integer offset above \<open>2^53\<close> comes back as another row's key.\<close>

theorem save_status_effect:
  assumes "bolt_db_laws db" and "get_partition db st op_id pid = Inr cp"
    and "save_status db now st op_id pid status = Inr st'"
  shows "\<exists>cp'. get_partition db st' op_id pid = Inr cp' \<and>
      cp' = cp\<lparr>cp_status := status, cp_updated_at := now,
               cp_last_committed := cp_last_committed cp'\<rparr> \<and>
      (\<forall>s. cp_last_committed cp = VString s \<longrightarrow> cp_last_committed cp' = VString s) \<and>
      (cp_last_committed cp = VNil \<longrightarrow> cp_last_committed cp' = VNil) \<and>
      (\<forall>n. cp_last_committed cp = VNumber n \<longrightarrow>
         cp_last_committed cp' = VNumber (float_lit 53 (f64_round (lit_value n)))) \<and>
      (cp_last_committed cp = VNumber (LInt 9007199254740993) \<longrightarrow>
         cp_last_committed cp' = VNumber (LInt 9007199254740992))"
proof -
  have laws: "bolt_laws (part_ops db)" using assms(1) by (simp add: bolt_db_laws_def)
  from assms(2) obtain data where
    data: "bo_get (part_ops db) (partition_bucket st) (partition_key op_id pid) = Some (Some data)"
    and cp: "cp = decode_checkpoint True data"
    by (auto simp: get_partition_def split: option.splits)
  from assms(3) data obtain j p' where
    j: "to_json (from_json False (sc_last_committed data)) = Inr j"
    and put: "bo_put (part_ops db) (partition_bucket st) (partition_key op_id pid)
       (Some \<lparr>sc_partition_id = sc_partition_id data, sc_status = status, sc_last_committed = j,
          sc_rows_written = sc_rows_written data, sc_error_count = sc_error_count data,
          sc_updated_at = now\<rparr>) = Inr p'"
    and st': "st' = st\<lparr>partition_bucket := p'\<rparr>"
    by (auto simp: save_status_def encode_checkpoint_def decode_checkpoint_def rbind_Inr_iff Let_def)
  let ?cp' = "cp\<lparr>cp_status := status, cp_updated_at := now, cp_last_committed := from_json True j\<rparr>"
  have "get_partition db st' op_id pid = Inr ?cp'"
    using st' put_get [OF laws put] by (simp add: get_partition_def decode_checkpoint_def cp)
  moreover have lc: "cp_last_committed cp = from_json True (sc_last_committed data)"
    by (simp add: cp decode_checkpoint_def)
  moreover have "from_json True j = VString s" if "cp_last_committed cp = VString s" for s
    using that lc j by (cases "sc_last_committed data") auto
  moreover have "from_json True j = VNil" if "cp_last_committed cp = VNil"
    using that lc j by (cases "sc_last_committed data") auto
  moreover have num: "from_json True j = VNumber (float_lit 53 (f64_round (lit_value n)))"
    if "cp_last_committed cp = VNumber n" for n
    using that lc j by (cases "sc_last_committed data") auto
  moreover have "float_lit 53 (f64_round (lit_value (LInt 9007199254740993))) = LInt 9007199254740992"
    by (simp add: f64_round_2p53_plus_1 float_lit_def shortest_decimal_2p53)
  ultimately show ?thesis
    by (intro exI [of _ ?cp']) (simp del: lit_value.simps)
qed

theorem save_status_effect_witness:
  "\<exists>st st' cp cp'. get_partition ref_db st ''mig-1'' ''p0'' = Inr cp \<and>
     cp_last_committed cp = VNumber (LInt 9007199254740993) \<and>
     save_status ref_db 9 st ''mig-1'' ''p0'' StatusDone = Inr st' \<and>
     get_partition ref_db st' ''mig-1'' ''p0'' = Inr cp' \<and>
     cp_last_committed cp' = VNumber (LInt 9007199254740992)"
proof -
  obtain st where st: "save_partition ref_db ref_store ''mig-1'' (sample_checkpoint ''p0'' 9007199254740993) = Inr st"
    by (auto simp: ref_eval)
  from st obtain cp where
    cp: "get_partition ref_db st ''mig-1'' ''p0'' = Inr cp"
      "cp_last_committed cp = VNumber (LInt 9007199254740993)"
    by (auto simp: ref_eval)
  obtain st' where st': "save_status ref_db 9 st ''mig-1'' ''p0'' StatusDone = Inr st'"
    using st by (auto simp: ref_eval)
  show ?thesis
    using cp st' save_status_effect [OF ref_db_laws cp(1) st'] by blast
qed

section \<open>Deletion and garbage collection\<close>

lemma delete_operation_parts:
  assumes "bolt_db_laws db" and "delete_operation db st op_id = Inr st'"
  shows "get_meta db st' i = (if i = op_id then Inl checkpoint_not_found else get_meta db st i)"
    and "bo_get (part_ops db) (partition_bucket st') k =
      (if has_prefix k (partition_key_prefix op_id) then None
       else bo_get (part_ops db) (partition_bucket st) k)"
proof -
  have laws: "bolt_laws (part_ops db)" "bolt_laws (meta_ops db)"
    using assms(1) by (simp_all add: bolt_db_laws_def)
  let ?kvs = "cursor_prefix (part_ops db) (partition_bucket st) (partition_key_prefix op_id)"
  from assms(2) obtain m' p' where del: "bo_delete (meta_ops db) (meta_bucket st) op_id = Inr m'"
    and keys: "delete_keys (part_ops db) (partition_bucket st) (map fst ?kvs) = Inr p'"
    and st': "st' = st\<lparr>meta_bucket := m', partition_bucket := p'\<rparr>"
    by (auto simp: delete_operation_def rbind_Inr_iff)
  show "get_meta db st' i = (if i = op_id then Inl checkpoint_not_found else get_meta db st i)"
    using delete_get [OF laws(2) del] st' by (simp add: get_meta_def)
  have "k \<in> set (map fst ?kvs) \<longleftrightarrow>
      has_prefix k (partition_key_prefix op_id) \<and> bo_get (part_ops db) (partition_bucket st) k \<noteq> None"
    using cursor_prefix_set [OF laws(1), of k _ "partition_bucket st" "partition_key_prefix op_id"]
    by force
  then show "bo_get (part_ops db) (partition_bucket st') k =
      (if has_prefix k (partition_key_prefix op_id) then None
       else bo_get (part_ops db) (partition_bucket st) k)"
    using delete_keys_get [OF laws(1) keys, of k] st' by auto
qed

lemma list_partitions_empty:
  assumes "bolt_db_laws db"
    and "\<And>pid. bo_get (part_ops db) (partition_bucket st) (partition_key op_id pid) = None"
  shows "list_partitions db st op_id = Inr []"
proof -
  have laws: "bolt_laws (part_ops db)" using assms(1) by (simp add: bolt_db_laws_def)
  have "(k, v) \<notin> set (cursor_prefix (part_ops db) (partition_bucket st) (partition_key_prefix op_id))" for k v
    using cursor_prefix_set [OF laws] assms(2) by (auto simp: has_prefix_key_iff)
  then have "cursor_prefix (part_ops db) (partition_bucket st) (partition_key_prefix op_id) = []"
    by (metis list.set_intros(1) neq_Nil_conv surj_pair)
  then show ?thesis by (simp add: list_partitions_def)
qed

text \<open>\<open>DeleteOperation\<close> removes the operation's metadata and all its partitions, and
  leaves every other operation alone, provided the deleted ID and the other ID have no colon.\<close>

theorem delete_operation_effect:
  assumes "bolt_db_laws db" and "delete_operation db st op_id = Inr st'"
  shows "get_meta db st' op_id = Inl checkpoint_not_found \<and>
    list_partitions db st' op_id = Inr [] \<and>
    (\<forall>op2. op2 \<noteq> op_id \<longrightarrow> get_meta db st' op2 = get_meta db st op2) \<and>
    (\<forall>op2 pid. op2 \<noteq> op_id \<and> CHR '':'' \<notin> set op_id \<and> CHR '':'' \<notin> set op2 \<longrightarrow>
       get_partition db st' op2 pid = get_partition db st op2 pid)"
proof -
  note parts = delete_operation_parts [OF assms]
  have "list_partitions db st' op_id = Inr []"
    using assms(1) by (rule list_partitions_empty) (simp add: parts(2) has_prefix_key_iff)
  then show ?thesis by (auto simp: parts get_partition_def key_has_prefix)
qed

theorem delete_operation_effect_witness:
  "\<exists>st st'. delete_operation ref_db st ''mig-1'' = Inr st' \<and>
     get_partition ref_db st ''mig-1'' ''p0'' \<noteq> Inl checkpoint_not_found \<and>
     list_partitions ref_db st' ''mig-1'' = Inr []"
proof -
  obtain st where st: "save_partition ref_db ref_store ''mig-1'' (sample_checkpoint ''p0'' 7) = Inr st"
    by (auto simp: ref_eval)
  then have g: "get_partition ref_db st ''mig-1'' ''p0'' \<noteq> Inl checkpoint_not_found"
    by (auto simp: ref_eval)
  obtain st' where st': "delete_operation ref_db st ''mig-1'' = Inr st'"
    using st by (auto simp: ref_eval)
  show ?thesis using g st' delete_operation_effect [OF ref_db_laws st'] by blast
qed

text \<open>The proviso matters: with operation IDs \<open>a\<close> and \<open>a:b\<close>, deleting \<open>a\<close> deletes every
  partition of \<open>a:b\<close>, while the metadata of \<open>a:b\<close> stays.\<close>

theorem delete_operation_colon_leak:
  assumes "bolt_db_laws db" and "delete_operation db st op_id = Inr st'"
  shows "list_partitions db st' (op_id @ '':'' @ rest) = Inr [] \<and>
    get_meta db st' (op_id @ '':'' @ rest) = get_meta db st (op_id @ '':'' @ rest)"
proof -
  note parts = delete_operation_parts [OF assms]
  have "has_prefix (partition_key (op_id @ '':'' @ rest) pid) (partition_key_prefix op_id)" for pid
    by (simp add: has_prefix_iff partition_key_def partition_key_prefix_def)
  then have "list_partitions db st' (op_id @ '':'' @ rest) = Inr []"
    using assms(1) by (intro list_partitions_empty) (simp_all add: parts(2))
  then show ?thesis by (simp add: parts(1))
qed

theorem delete_operation_colon_leak_witness:
  "\<exists>st st'. delete_operation ref_db st ''a'' = Inr st' \<and>
     get_partition ref_db st ''a:b'' ''p0'' \<noteq> Inl checkpoint_not_found \<and>
     list_partitions ref_db st' ''a:b'' = Inr []"
proof -
  obtain st where st: "save_partition ref_db ref_store ''a:b'' (sample_checkpoint ''p0'' 7) = Inr st"
    by (auto simp: ref_eval)
  then have g: "get_partition ref_db st ''a:b'' ''p0'' \<noteq> Inl checkpoint_not_found"
    by (auto simp: ref_eval)
  obtain st' where st': "delete_operation ref_db st ''a'' = Inr st'"
    using st by (auto simp: ref_eval)
  from delete_operation_colon_leak [OF ref_db_laws st', of "''b''"] g st' show ?thesis by auto
qed

text \<open>
  The garbage collector deletes by the ID inside the metadata, and \<open>SaveMeta\<close> stores an entry
  under the ID it holds: that agreement is the invariant it relies on.
\<close>

definition metas_agree :: "('m, 'p) bolt_db \<Rightarrow> ('m, 'p) store \<Rightarrow> bool" where
  "metas_agree db st \<longleftrightarrow> (\<forall>i meta. get_meta db st i = Inr meta \<longrightarrow> operation_id meta = i)"

lemma save_meta_agree:
  assumes "bolt_db_laws db" and "metas_agree db st" and "save_meta db st meta = Inr st'"
  shows "metas_agree db st'"
proof -
  from assms(3) obtain m' where put: "bo_put (meta_ops db) (meta_bucket st) (operation_id meta) (Some meta) = Inr m'"
    and st': "st' = st\<lparr>meta_bucket := m'\<rparr>"
    by (auto simp: save_meta_def rbind_Inr_iff)
  have "bolt_laws (meta_ops db)" using assms(1) by (simp add: bolt_db_laws_def)
  note get = put_get [OF this put]
  show ?thesis using assms(2) st' by (auto simp: metas_agree_def get_meta_def get)
qed

lemma gc_loop_meta:
  assumes "bolt_db_laws db" and "metas_agree db st" and "distinct ids"
    and "\<And>st i. \<exists>st'. delete_operation db st i = Inr st'"
  shows "get_meta db (gc_loop db cutoff st ids) i =
    (case get_meta db st i of
       Inr meta \<Rightarrow> if i \<in> set ids \<and> start_time meta < cutoff then Inl checkpoint_not_found else Inr meta
     | Inl e \<Rightarrow> Inl e)"
  using assms(2,3)
proof (induction ids arbitrary: st)
  case Nil
  then show ?case by (auto split: sum.splits)
next
  case (Cons j ids)
  show ?case
  proof (cases "\<exists>meta. get_meta db st j = Inr meta \<and> start_time meta < cutoff")
    case True
    then obtain meta where meta: "get_meta db st j = Inr meta" "start_time meta < cutoff" by blast
    with Cons.prems have oid: "operation_id meta = j" by (simp add: metas_agree_def)
    obtain st' where st': "delete_operation db st j = Inr st'" using assms(4) by blast
    note del = delete_operation_parts(1) [OF assms(1) st']
    have "metas_agree db st'" using Cons.prems(1) by (auto simp: metas_agree_def del)
    then show ?thesis using Cons.IH [of st'] Cons.prems meta oid st' del
      by (auto split: sum.splits)
  next
    case False
    then have "gc_loop db cutoff st (j # ids) = gc_loop db cutoff st ids"
      by (auto split: sum.splits)
    then show ?thesis using Cons.IH [of st] Cons.prems False by (auto split: sum.splits)
  qed
qed

text \<open>The operations that were started before the cutoff.\<close>

definition stale :: "('m, 'p) bolt_db \<Rightarrow> ('m, 'p) store \<Rightarrow> int \<Rightarrow> string \<Rightarrow> bool" where
  "stale db st cutoff i \<longleftrightarrow> (case get_meta db st i of Inr meta \<Rightarrow> start_time meta < cutoff | Inl e \<Rightarrow> False)"

lemma gc_loop_parts:
  assumes "bolt_db_laws db" and "metas_agree db st" and "distinct ids"
    and "\<And>st i. \<exists>st'. delete_operation db st i = Inr st'"
  shows "bo_get (part_ops db) (partition_bucket (gc_loop db cutoff st ids)) k =
    (if \<exists>i \<in> set ids. stale db st cutoff i \<and> has_prefix k (partition_key_prefix i) then None
     else bo_get (part_ops db) (partition_bucket st) k)"
  using assms(2,3)
proof (induction ids arbitrary: st)
  case (Cons j ids)
  show ?case
  proof (cases "stale db st cutoff j")
    case True
    then obtain meta where meta: "get_meta db st j = Inr meta" "start_time meta < cutoff"
      by (auto simp: stale_def split: sum.splits)
    with Cons.prems have oid: "operation_id meta = j" by (simp add: metas_agree_def)
    obtain st' where st': "delete_operation db st j = Inr st'" using assms(4) by blast
    note del = delete_operation_parts [OF assms(1) st']
    have "metas_agree db st'" using Cons.prems(1) by (auto simp: metas_agree_def del(1))
    moreover have "gc_loop db cutoff st (j # ids) = gc_loop db cutoff st' ids" using meta oid st' by simp
    moreover have "stale db st' cutoff i \<longleftrightarrow> stale db st cutoff i" if "i \<in> set ids" for i
      using that Cons.prems(2) by (auto simp: stale_def del(1))
    ultimately show ?thesis using Cons.IH [of st'] Cons.prems(2) True del(2) [of k] by auto
  next
    case False
    then have "gc_loop db cutoff st (j # ids) = gc_loop db cutoff st ids"
      by (auto simp: stale_def split: sum.splits)
    with Cons.IH [of st] Cons.prems False show ?thesis by auto
  qed
qed simp

lemma meta_ids:
  assumes "bolt_db_laws db"
  shows "distinct (list_all_meta_ids db st)" and "get_meta db st i = Inr meta \<Longrightarrow> i \<in> set (list_all_meta_ids db st)"
proof -
  have laws: "bolt_laws (meta_ops db)" using assms by (simp add: bolt_db_laws_def)
  show "distinct (list_all_meta_ids db st)"
    using seek_sorted [OF laws] by (simp add: list_all_meta_ids_def strict_sorted_iff)
  assume "get_meta db st i = Inr meta"
  then have "bo_get (meta_ops db) (meta_bucket st) i = Some (Some meta)"
    by (auto simp: get_meta_def split: option.splits)
  then have "(i, Some meta) \<in> set (bo_seek (meta_ops db) (meta_bucket st) [])"
    using seek_set [OF laws] by simp
  then show "i \<in> set (list_all_meta_ids db st)" by (force simp: list_all_meta_ids_def)
qed

text \<open>C30: garbage collection removes exactly the operations started before the retention cutoff: their
  metadata is gone and every newer or unreadable entry is as before; they have no partition
  checkpoints left; and a partition checkpoint is gone exactly if its key has the prefix of a removed
  operation. For operation IDs without a colon, as the commands make them, these are the removed
  operations' own checkpoints, and those of every other operation are as before.\<close>

theorem gc_removes_exactly_stale:
  assumes "bolt_db_laws db" and "metas_agree db st"
    and "\<And>st i. \<exists>st'. delete_operation db st i = Inr st'"
    and "st' = gc db now retention_age st" and "cutoff = now - retention_age"
  shows "(\<forall>i. get_meta db st' i = (if stale db st cutoff i then Inl checkpoint_not_found else get_meta db st i)) \<and>
    (\<forall>i. stale db st cutoff i \<longrightarrow> list_partitions db st' i = Inr []) \<and>
    (\<forall>op pid. get_partition db st' op pid =
       (if \<exists>i. stale db st cutoff i \<and> has_prefix (partition_key op pid) (partition_key_prefix i)
        then Inl checkpoint_not_found else get_partition db st op pid)) \<and>
    (\<forall>op pid. CHR '':'' \<notin> set op \<and> (\<forall>i. stale db st cutoff i \<longrightarrow> CHR '':'' \<notin> set i) \<longrightarrow>
       get_partition db st' op pid =
         (if stale db st cutoff op then Inl checkpoint_not_found else get_partition db st op pid))"
proof -
  let ?ids = "list_all_meta_ids db st"
  note ids = meta_ids [OF assms(1)]
  have st': "st' = gc_loop db cutoff st ?ids" by (simp add: assms(4,5) gc_def)
  have listed: "stale db st cutoff i \<Longrightarrow> i \<in> set ?ids" for i
    using ids(2) by (auto simp: stale_def split: sum.splits)
  have meta: "get_meta db st' i = (if stale db st cutoff i then Inl checkpoint_not_found else get_meta db st i)" for i
    unfolding st' gc_loop_meta [OF assms(1,2) ids(1) assms(3)] using ids(2) [of st i]
    by (auto simp: stale_def split: sum.splits)
  have part: "bo_get (part_ops db) (partition_bucket st') k =
      (if \<exists>i. stale db st cutoff i \<and> has_prefix k (partition_key_prefix i) then None
       else bo_get (part_ops db) (partition_bucket st) k)" for k
    unfolding st' gc_loop_parts [OF assms(1,2) ids(1) assms(3)] using listed by auto
  have none: "list_partitions db st' i = Inr []" if "stale db st cutoff i" for i
    using assms(1) by (rule list_partitions_empty) (use that in \<open>auto simp: part has_prefix_key_iff\<close>)
  have get: "get_partition db st' op pid =
      (if \<exists>i. stale db st cutoff i \<and> has_prefix (partition_key op pid) (partition_key_prefix i)
       then Inl checkpoint_not_found else get_partition db st op pid)" for op pid
    unfolding get_partition_def part by auto
  have "get_partition db st' op pid =
      (if stale db st cutoff op then Inl checkpoint_not_found else get_partition db st op pid)"
    if "CHR '':'' \<notin> set op" "\<forall>i. stale db st cutoff i \<longrightarrow> CHR '':'' \<notin> set i" for op pid
  proof -
    have "(\<exists>i. stale db st cutoff i \<and> has_prefix (partition_key op pid) (partition_key_prefix i)) \<longleftrightarrow> stale db st cutoff op"
      using that key_has_prefix by metis
    then show ?thesis unfolding get by simp
  qed
  with meta none get show ?thesis by blast
qed

text \<open>An old operation with a partition beside a new one with a partition.\<close>

theorem gc_removes_exactly_stale_witness:
  "\<exists>st. get_partition ref_db st ''mig-1'' ''p0'' \<noteq> Inl checkpoint_not_found \<and>
     get_partition ref_db st ''mig-2'' ''p0'' \<noteq> Inl checkpoint_not_found \<and>
     get_meta ref_db (gc ref_db 100 50 st) ''mig-1'' = Inl checkpoint_not_found \<and>
     list_partitions ref_db (gc ref_db 100 50 st) ''mig-1'' = Inr [] \<and>
     get_partition ref_db (gc ref_db 100 50 st) ''mig-2'' ''p0'' = get_partition ref_db st ''mig-2'' ''p0''"
proof -
  let ?m = "\<lparr>operation_id = ''mig-1'', start_time = 3, config_hash = []\<rparr>"
  let ?n = "\<lparr>operation_id = ''mig-2'', start_time = 90, config_hash = []\<rparr>"
  have a0: "metas_agree ref_db ref_store" by (simp add: metas_agree_def ref_eval)
  obtain st1 where st1: "save_meta ref_db ref_store ?m = Inr st1" by (auto simp: ref_eval)
  obtain st2 where st2: "save_meta ref_db st1 ?n = Inr st2" by (auto simp: ref_eval)
  have agree2: "metas_agree ref_db st2"
    using save_meta_agree [OF ref_db_laws save_meta_agree [OF ref_db_laws a0 st1] st2] .
  obtain st3 where st3: "save_partition ref_db st2 ''mig-1'' (sample_checkpoint ''p0'' 7) = Inr st3" by (auto simp: ref_eval)
  obtain st where st: "save_partition ref_db st3 ''mig-2'' (sample_checkpoint ''p0'' 8) = Inr st" by (auto simp: ref_eval)
  have metas: "get_meta ref_db st i = get_meta ref_db st2 i" for i using st3 st by (auto simp: ref_eval)
  have agree: "metas_agree ref_db st" using agree2 by (simp add: metas_agree_def metas)
  have m: "get_meta ref_db st i = (if i = ''mig-1'' then Inr ?m else if i = ''mig-2'' then Inr ?n else Inl checkpoint_not_found)" for i
    unfolding metas using st1 st2 by (auto simp: ref_eval)
  then have old: "stale ref_db st 50 i \<longleftrightarrow> i = ''mig-1''" for i by (auto simp: stale_def)
  have there: "get_partition ref_db st ''mig-1'' ''p0'' \<noteq> Inl checkpoint_not_found"
    "get_partition ref_db st ''mig-2'' ''p0'' \<noteq> Inl checkpoint_not_found"
    using st3 st by (auto simp: ref_eval)
  have keys: "\<exists>b'. delete_keys ref_ops b ks = Inr b'" for b :: "stored_checkpoint option ref_bucket" and ks
    by (induction ks arbitrary: b) (simp_all add: ref_ops_def)
  have del: "\<exists>st'. delete_operation ref_db st i = Inr st'" for st i
    using keys [of "partition_bucket st"] by (auto simp: delete_operation_def ref_db_def ref_ops_def rbind_Inr_iff)
  have cut: "(50 :: int) = 100 - 50" by simp
  note gone = gc_removes_exactly_stale [OF ref_db_laws agree del refl cut]
  have "get_meta ref_db (gc ref_db 100 50 st) ''mig-1'' = Inl checkpoint_not_found"
    using conjunct1 [OF gone] old by simp
  moreover have "list_partitions ref_db (gc ref_db 100 50 st) ''mig-1'' = Inr []"
    using conjunct1 [OF conjunct2 [OF gone]] old by simp
  moreover have "get_partition ref_db (gc ref_db 100 50 st) ''mig-2'' ''p0'' = get_partition ref_db st ''mig-2'' ''p0''"
    using conjunct2 [OF conjunct2 [OF conjunct2 [OF gone]]] old by simp
  ultimately show ?thesis using there by blast
qed

end
