(* ===== verification/Pipeline_Props.thy ===== *)
theory Pipeline_Props
  imports Pipeline_Inv Checkpoint_Props
begin

text \<open>
  The properties of \<open>Migrate\<close>: conservation and bounds under every interleaving, completeness of a
  migration that returns nil, progress and termination, and what planning and checkpointing do
  and do not guarantee for a later run.
\<close>

section \<open>Progress\<close>

text \<open>
  A migration in good order: nobody has cancelled or failed, no source reports an error, every
  source closes its channel, and there are transformers and writers.
\<close>

definition reader_fair :: "reader \<Rightarrow> bool" where
  "reader_fair r \<longleftrightarrow> src_closes r \<and> src_result r = None \<and> r_phase r \<noteq> RDraining"

definition healthy :: "('m, 'p) pipeline \<Rightarrow> bool" where
  "healthy s \<longleftrightarrow> \<not> cancelled s \<and> pending_errs s = [] \<and> first_err s = None \<and>
     transformers s \<noteq> [] \<and> writers s \<noteq> [] \<and> list_all reader_fair (readers s)"

lemma set_reader_healthy:
  "healthy s \<Longrightarrow> reader_fair r \<Longrightarrow> healthy (set_reader i r s)"
  by (simp add: healthy_def set_reader_def list_all_update)

lemma healthy_other [simp]:
  "healthy (s\<lparr>record_ch := xs\<rparr>) = healthy s"
  "healthy (s\<lparr>batch_ch := bs\<rparr>) = healthy s"
  "healthy (s\<lparr>dropped := d\<rparr>) = healthy s"
  "healthy (s\<lparr>written := ws\<rparr>) = healthy s"
  "healthy (s\<lparr>rejected := ws\<rparr>) = healthy s"
  "healthy (s\<lparr>dlq_log := q\<rparr>) = healthy s"
  "healthy (s\<lparr>cp_store := st\<rparr>) = healthy s"
  "healthy (s\<lparr>record_closed := b\<rparr>) = healthy s"
  "healthy (s\<lparr>batch_closed := b\<rparr>) = healthy s"
  "healthy (s\<lparr>panicked := b\<rparr>) = healthy s"
  "healthy (set_transformer j t s) = healthy s"
  "healthy (set_writer k w s) = healthy s"
  by (simp_all add: healthy_def setters)

lemma healthy_fair: "healthy s \<Longrightarrow> i < length (readers s) \<Longrightarrow> reader_fair (readers s ! i)"
  by (simp add: healthy_def list_all_length)

lemma set_reader_nil_pending [simp]:
  "pending_errs s = [] \<Longrightarrow> (set_reader i r s)\<lparr>pending_errs := []\<rparr> = set_reader i r s"
  by (simp add: set_reader_def)

lemma source_healthy:
  assumes "healthy s" and "i < length (readers s)"
  shows "src_send env i s = Some s' \<Longrightarrow> healthy s'"
    and "src_close i s = Some s' \<Longrightarrow> healthy s'"
    and "src_return i s = Some s' \<Longrightarrow> healthy s'"
    and "src_abort env i s = Some s' \<Longrightarrow> healthy s'"
  using assms healthy_fair [OF assms]
  by (auto simp: source_moves Let_def split: list.splits if_splits intro!: set_reader_healthy)
    (auto simp: reader_fair_def healthy_def)

lemma reader_healthy:
  assumes "healthy s" and "i < length (readers s)"
  shows "r_take i s = Some s' \<Longrightarrow> healthy s'"
    and "r_send env i s = Some s' \<Longrightarrow> healthy s'"
    and "r_cancel env i s = Some s' \<Longrightarrow> healthy s'"
    and "r_drain env i s = Some s' \<Longrightarrow> healthy s'"
    and "r_finish i s = Some s' \<Longrightarrow> healthy s'"
proof -
  note f = healthy_fair [OF assms]
  note sp = list.splits reader_phase.splits option.splits if_splits
  show "r_take i s = Some s' \<Longrightarrow> healthy s'"
    using assms by (auto simp: r_take_def Let_def split: sp intro!: set_reader_healthy)
      (use f in \<open>auto simp: reader_fair_def\<close>)
  show "r_send env i s = Some s' \<Longrightarrow> healthy s'"
    using assms by (auto simp: r_send_def Let_def split: sp intro!: set_reader_healthy)
      (use f in \<open>auto simp: reader_fair_def\<close>)
  show "r_cancel env i s = Some s' \<Longrightarrow> healthy s'"
    using assms by (auto simp: r_cancel_def Let_def healthy_def split: sp)
  show "r_drain env i s = Some s' \<Longrightarrow> healthy s'"
    using f by (auto simp: r_drain_def Let_def reader_fair_def split: sp)
  show "r_finish i s = Some s' \<Longrightarrow> healthy s'"
    using assms f
    by (auto simp: r_finish_def Let_def err_list_def healthy_def set_reader_def reader_fair_def
        split: sp intro!: list_all_update)
qed

lemma handoff_healthy: "healthy s \<Longrightarrow> i < length (readers s) \<Longrightarrow> r_handoff env i j s = Some s' \<Longrightarrow> healthy s'"
  using healthy_fair [of s i]
  by (auto simp: r_handoff_def Let_def healthy_def set_reader_def reader_fair_def
      split: reader_phase.splits if_splits intro!: list_all_update)

lemma transformer_healthy:
  assumes "healthy s"
  shows "t_take env j s = Some s' \<Longrightarrow> healthy s'"
    and "t_tick j s = Some s' \<Longrightarrow> healthy s'"
    and "t_send env j s = Some s' \<Longrightarrow> healthy s'"
    and "t_cancel j s = Some s' \<Longrightarrow> healthy s'"
  using assms by (auto simp: transformer_moves Let_def split: list.splits if_splits)
    (simp add: healthy_def)

lemma writer_healthy:
  assumes "healthy s"
  shows "w_take k s = Some s' \<Longrightarrow> healthy s'"
    and "w_cancel k s = Some s' \<Longrightarrow> healthy s'"
    and "w_ack env k s = Some s' \<Longrightarrow> healthy s'"
    and "w_fail k s = Some s' \<Longrightarrow> healthy s'"
    and "w_ack_one k s = Some s' \<Longrightarrow> healthy s'"
    and "w_fail_one k e now we s = Some s' \<Longrightarrow> healthy s'"
    and "save_read env k i now s = Some s' \<Longrightarrow> healthy s'"
    and "save_write env k s = Some s' \<Longrightarrow> healthy s'"
  using assms
  by (auto simp: writer_moves Let_def split: list.splits writer_phase.splits prod.splits if_splits)
    (simp add: healthy_def)

lemma group_healthy:
  assumes "healthy s"
  shows "close_records s = Some s' \<Longrightarrow> healthy s'"
    and "close_batches s = Some s' \<Longrightarrow> healthy s'"
    and "report n s = Some s' \<Longrightarrow> healthy s'"
  using assms by (auto simp: group_moves split: if_splits) (simp add: healthy_def)

text \<open>Only a cancellation from outside ends good order.\<close>

lemma fire_healthy: "healthy s \<Longrightarrow> e \<noteq> Cancel \<Longrightarrow> fire env e s = Some s' \<Longrightarrow> healthy s'"
  by (cases e)
    (auto simp: fire_def split: if_splits
      intro: source_healthy reader_healthy handoff_healthy transformer_healthy writer_healthy group_healthy)

definition can_move :: "('m, 'p) env \<Rightarrow> ('m, 'p) pipeline \<Rightarrow> bool" where
  "can_move env s \<longleftrightarrow> (\<exists>e s'. e \<noteq> Cancel \<and> fire env e s = Some s')"

lemma can_moveI:
  "\<not> panicked s \<Longrightarrow> event_in_range e s \<Longrightarrow> e \<noteq> Cancel \<Longrightarrow> perform env e s = Some s' \<Longrightarrow> can_move env s"
  unfolding can_move_def by (intro exI [of _ e]) (simp add: fire_def)

lemma writer_progress:
  assumes "pipe_inv env s" and "k < length (writers s)"
    and "w_phase (writers s ! k) \<noteq> WIdle" and "w_phase (writers s ! k) \<noteq> WDone"
  shows "can_move env s"
proof -
  have np: "\<not> panicked s" using assms(1) by (simp add: pipe_inv_def closing_ok_def)
  have ok: "writer_ok env (writers s ! k)" using assms(1,2) by (simp add: pipe_inv_def local_okD)
  show ?thesis
  proof (cases "w_phase (writers s ! k)")
    case (WWriting b)
    then show ?thesis
      by (intro can_moveI [OF np, of "WFail k"]) (simp_all add: assms(2) w_fail_def Let_def)
  next
    case (WIsolating xs)
    with ok obtain y ys where "w_phase (writers s ! k) = WIsolating (y # ys)"
      by (cases xs) (auto simp: writer_ok_def)
    then show ?thesis
      by (intro can_moveI [OF np, of "WAckOne k"]) (simp_all add: assms(2) w_ack_one_def Let_def)
  next
    case (WSaving es)
    with ok have "es \<noteq> []" by (simp add: writer_ok_def)
    moreover obtain pid off n where "es ! 0 = (pid, off, n)" by (cases "es ! 0") auto
    ultimately show ?thesis using WSaving
      by (intro can_moveI [OF np, of "SaveRead k 0 0"]) (simp_all add: assms(2) save_read_def Let_def)
  next
    case (WPutting cp es)
    then show ?thesis
      by (intro can_moveI [OF np, of "SaveWrite k"]) (simp_all add: assms(2) save_write_def Let_def)
  qed (use assms in auto)
qed

lemma reader_progress:
  assumes inv: "pipe_inv env s" and healthy: "healthy s" and i: "i < length (readers s)"
    and "r_phase (readers s ! i) \<noteq> RDone"
    and j: "j < length (transformers s)" "t_phase (transformers s ! j) = TIdle"
    and "record_ch s = []" and "\<not> record_closed s"
  shows "can_move env s"
proof -
  let ?r = "readers s ! i"
  have np: "\<not> panicked s" using inv by (simp add: pipe_inv_def closing_ok_def)
  have ok: "reader_ok env ?r" using inv i by (simp add: pipe_inv_def local_okD)
  have caps: "0 \<le> record_cap env" "0 \<le> batch_size (env_cfg env)"
    using inv by (auto simp: pipe_inv_def sizes_ok_def caps_ok_def)
  have fair: "reader_fair ?r" using healthy i by (rule healthy_fair)
  show ?thesis
  proof (cases "r_phase ?r")
    case RReading
    consider (take) "part_ch ?r \<noteq> [] \<or> part_closed ?r"
      | (close) "part_ch ?r = []" "\<not> part_closed ?r" "src_todo ?r = []"
      | (send) x xs where "part_ch ?r = []" "src_todo ?r = x # xs"
      by (cases "src_todo ?r") auto
    then show ?thesis
    proof cases
      case take
      then show ?thesis using RReading
        by (cases "part_ch ?r"; intro can_moveI [OF np, of "RTake i"]) (simp_all add: i r_take_def Let_def)
    next
      case close
      then show ?thesis using fair
        by (intro can_moveI [OF np, of "SrcClose i"]) (simp_all add: i src_close_def Let_def reader_fair_def)
    next
      case (send x xs)
      then show ?thesis using RReading
        by (cases "0 < batch_size (env_cfg env)"; intro can_moveI [OF np, of "SrcSend i"])
          (simp_all add: i src_send_def Let_def)
    qed
  next
    case (RHolding x)
    show ?thesis
    proof (cases "0 < record_cap env")
      case True
      with RHolding assms show ?thesis
        by (intro can_moveI [OF np, of "RSend i"]) (simp_all add: r_send_def Let_def)
    next
      case False
      with RHolding assms caps show ?thesis
        by (intro can_moveI [OF np, of "RHandoff i j"]) (simp_all add: r_handoff_def Let_def)
    qed
  next
    case RAwait
    with ok have closed: "part_closed ?r" "src_todo ?r = []" by (auto simp: reader_ok_def)
    show ?thesis
    proof (cases "src_returned ?r")
      case True
      with RAwait show ?thesis
        by (intro can_moveI [OF np, of "RFinish i"]) (simp_all add: i r_finish_def Let_def)
    next
      case False
      with closed show ?thesis
        by (intro can_moveI [OF np, of "SrcReturn i"]) (simp_all add: i src_return_def Let_def)
    qed
  qed (use assms(4) fair in \<open>auto simp: reader_fair_def\<close>)
qed

lemma not_list_all_nth: "\<not> list_all P xs \<Longrightarrow> \<exists>i < length xs. \<not> P (xs ! i)"
  by (auto simp: list_all_length)

lemma idle_writer_progress:
  assumes inv: "pipe_inv env s" and healthy: "healthy s"
    and k: "k < length (writers s)" "w_phase (writers s ! k) = WIdle"
  shows "can_move env s"
proof (cases "batch_ch s \<noteq> [] \<or> batch_closed s")
  case True
  have np: "\<not> panicked s" using inv by (simp add: pipe_inv_def closing_ok_def)
  with True k show ?thesis
    by (cases "batch_ch s"; intro can_moveI [OF np, of "WTake k"]) (simp_all add: w_take_def Let_def)
next
  case False
  have np: "\<not> panicked s" using inv by (simp add: pipe_inv_def closing_ok_def)
  have cap: "0 < batch_cap env"
    using inv k(1) by (simp add: pipe_inv_def sizes_ok_def batch_cap_def)
  consider (ended) "list_all (\<lambda>t. t_phase t = TDone) (transformers s)"
    | (flush) j where "j < length (transformers s)"
        "t_phase (transformers s ! j) = TFlush \<or> t_phase (transformers s ! j) = TFinal"
    | (idle) j where "j < length (transformers s)" "t_phase (transformers s ! j) = TIdle"
    using not_list_all_nth [of "\<lambda>t. t_phase t = TDone" "transformers s"]
    by (metis transformer_phase.exhaust)
  then show ?thesis
  proof cases
    case ended
    with False show ?thesis
      by (intro can_moveI [OF np, of CloseBatches]) (simp_all add: close_batches_def)
  next
    case (flush j)
    with False cap show ?thesis
      by (intro can_moveI [OF np, of "TSend j"]) (auto simp: t_send_def Let_def)
  next
    case (idle j)
    show ?thesis
    proof (cases "record_ch s \<noteq> [] \<or> record_closed s")
      case True
      with idle show ?thesis
        by (cases "record_ch s"; intro can_moveI [OF np, of "TTake j"]) (simp_all add: t_take_def Let_def)
    next
      case open_: False
      show ?thesis
      proof (cases "list_all (\<lambda>r. r_phase r = RDone) (readers s)")
        case True
        with open_ show ?thesis
          by (intro can_moveI [OF np, of CloseRecords]) (simp_all add: close_records_def)
      next
        case not_all: False
        then obtain i where "i < length (readers s)" "r_phase (readers s ! i) \<noteq> RDone"
          using not_list_all_nth by blast
        then show ?thesis using reader_progress [OF inv healthy _ _ idle] open_ by blast
      qed
    qed
  qed
qed

lemma progress:
  assumes inv: "pipe_inv env s" and healthy: "healthy s" and "\<not> finished s"
  shows "can_move env s"
proof (cases "list_all (\<lambda>w. w_phase w = WDone) (writers s)")
  case False
  then obtain k where k: "k < length (writers s)" "w_phase (writers s ! k) \<noteq> WDone"
    using not_list_all_nth by blast
  then show ?thesis
    using writer_progress [OF inv k(1)] idle_writer_progress [OF inv healthy k(1)] by blast
next
  case True
  have ok: "closing_ok s" "exits_ok s" "\<not> troubled s" "transformers s \<noteq> []" "writers s \<noteq> []"
    using inv healthy by (auto simp: pipe_inv_def healthy_def troubled_def)
  then have "list_ex (\<lambda>w. w_phase w = WDone) (writers s)"
    using True by (cases "writers s") auto
  then have "batch_closed s" using ok by (simp add: exits_ok_def)
  then have ts: "list_all (\<lambda>t. t_phase t = TDone) (transformers s)" using ok by (simp add: closing_ok_def)
  then have "list_ex (\<lambda>t. t_phase t = TDone \<or> t_phase t = TFinal) (transformers s)"
    using ok(4) by (cases "transformers s") auto
  then have "record_closed s" using ok by (simp add: exits_ok_def)
  then have "list_all (\<lambda>r. r_phase r = RDone) (readers s)" using ok by (simp add: closing_ok_def)
  with True ts healthy assms(3) show ?thesis by (simp add: finished_def healthy_def)
qed

section \<open>Runs from the start\<close>

definition all_records :: "(partition \<Rightarrow> read_script) \<Rightarrow> partition list \<Rightarrow> go_record list" where
  "all_records source parts = concat (map (\<lambda>p. rs_records (source p)) parts)"

definition reaches ::
  "('m, 'p) env \<Rightarrow> (partition \<Rightarrow> read_script) \<Rightarrow> partition list \<Rightarrow> ('m, 'p) store \<Rightarrow> dlq option
   \<Rightarrow> event list \<Rightarrow> ('m, 'p) pipeline \<Rightarrow> bool" where
  "reaches env source parts st q es s \<longleftrightarrow>
     run_from (fire env) es (start_pipeline env source parts st q) = Some s"

lemma start_total:
  "total env (start_pipeline env source parts st q) =
   image_mset (env_map env) (mset (all_records source parts))"
proof -
  have "gather (reader_load env) (map (\<lambda>p. start_reader (source p)) parts) =
      image_mset (env_map env) (mset (all_records source parts))"
    by (induction parts) (simp_all add: reader_load_def start_reader_def all_records_def)
  moreover have "gather transformer_load (replicate n \<lparr>t_batch = [], t_phase = TIdle\<rparr>) = {#}" for n
    by (rule gather_empty) (auto simp: transformer_load_def)
  moreover have "gather writer_load (replicate n \<lparr>w_count = 0, w_phase = WIdle\<rparr>) = {#}" for n
    by (rule gather_empty) (auto simp: writer_load_def)
  ultimately show ?thesis by (simp add: total_def in_flight_def start_pipeline_def)
qed

lemma run_total: "run_from (fire env) es s = Some s' \<Longrightarrow> total env s' = total env s"
proof (induction es arbitrary: s)
  case (Cons e es)
  then show ?case by (auto split: option.splits dest!: fire_total)
qed simp

lemma reaches_inv: "caps_ok env \<Longrightarrow> reaches env source parts st q es s \<Longrightarrow> pipe_inv env s"
  unfolding reaches_def by (rule pl.run_inv [OF start_inv])

lemma reaches_total:
  "reaches env source parts st q es s \<Longrightarrow>
   total env s = image_mset (env_map env) (mset (all_records source parts))"
  unfolding reaches_def by (metis run_total start_total)

lemma run_healthy:
  "healthy s \<Longrightarrow> Cancel \<notin> set es \<Longrightarrow> run_from (fire env) es s = Some s' \<Longrightarrow> healthy s'"
proof (induction es arbitrary: s)
  case (Cons e es)
  then obtain t where "fire env e s = Some t" "run_from (fire env) es t = Some s'"
    by (auto split: option.splits)
  with Cons show ?case using fire_healthy [of s e env t] by auto
qed simp

definition well_behaved :: "('m, 'p) env \<Rightarrow> (partition \<Rightarrow> read_script) \<Rightarrow> partition list \<Rightarrow> bool" where
  "well_behaved env source parts \<longleftrightarrow> caps_ok env \<and>
     1 \<le> num_transformers (env_cfg env) \<and> 1 \<le> num_writers (env_cfg env) \<and>
     list_all (\<lambda>p. rs_closes (source p) \<and> rs_error (source p) = None) parts"

lemma start_healthy: "well_behaved env source parts \<Longrightarrow> healthy (start_pipeline env source parts st q)"
  by (auto simp: well_behaved_def healthy_def start_pipeline_def start_reader_def reader_fair_def list_all_iff)

lemma gather_zero:
  "list_all (\<lambda>x. f x = 0) xs \<Longrightarrow> gather f xs = 0"
  by (induction xs) auto

lemma finished_in_flight:
  assumes "pipe_inv env s" and "finished s"
  shows "in_flight env s = gather (reader_load env) (readers s) +
    image_mset (env_map env) (mset (record_ch s)) + mset (concat (batch_ch s))"
proof -
  have "gather transformer_load (transformers s) = {#}"
    using assms by (intro gather_zero)
      (auto simp: pipe_inv_def local_ok_def finished_def list_all_iff transformer_load_def transformer_ok_def)
  moreover have "gather writer_load (writers s) = {#}"
    using assms by (intro gather_zero) (auto simp: finished_def list_all_iff writer_load_def)
  ultimately show ?thesis by (simp add: in_flight_def)
qed

lemma finished_readers:
  assumes "pipe_inv env s" and "finished s"
  shows "gather (reader_load env) (readers s) = {#}"
  using assms by (intro gather_zero)
    (auto simp: pipe_inv_def local_ok_def finished_def list_all_iff reader_load_def reader_ok_def)

section \<open>Properties\<close>

text \<open>C4: conservation: at every moment of every interleaving, cancelled or not, the records
  still under way (in the source, in channels, held by goroutines) together with those written,
  rejected and dropped are exactly the mapped records of all planned partitions. No stage loses
  or duplicates a record.\<close>

theorem pipeline_conserves:
  assumes "reaches env source parts st q es s"
  shows "in_flight env s + mset (written s) + mset (rejected s) + mset (dropped s) =
    image_mset (env_map env) (mset (all_records source parts))"
  using reaches_total [OF assms] by (simp add: total_def)

lemma migration_accounts:
  assumes "caps_ok env" and "1 \<le> num_transformers (env_cfg env)"
    and "reaches env source parts st q es s" and "finished s" and "first_err s = None"
  shows "mset (written s) + mset (rejected s) = image_mset (env_map env) (mset (all_records source parts))
    \<and> dropped s = []"
proof -
  have inv: "pipe_inv env s" using assms(1,3) by (rule reaches_inv)
  have calm: "\<not> troubled s" using assms(4,5) by (simp add: troubled_def finished_def)
  have "transformers s \<noteq> []" using inv assms(2) by (auto simp: pipe_inv_def sizes_ok_def)
  then have "list_ex (\<lambda>t. t_phase t = TDone \<or> t_phase t = TFinal) (transformers s)"
    using assms(4) by (cases "transformers s") (auto simp: finished_def)
  then have records: "record_ch s = []" using inv calm by (simp add: pipe_inv_def exits_ok_def)
  have batches: "batch_ch s = []"
  proof (cases "writers s")
    case Nil
    then have "batch_cap env \<le> 0" using inv by (simp add: pipe_inv_def sizes_ok_def batch_cap_def)
    moreover have "int (length (batch_ch s)) \<le> batch_cap env"
      using inv by (simp add: pipe_inv_def local_ok_def)
    ultimately have "int (length (batch_ch s)) \<le> 0" by linarith
    then show ?thesis by simp
  next
    case (Cons w ws)
    then have "list_ex (\<lambda>w. w_phase w = WDone) (writers s)" using assms(4) by (simp add: finished_def)
    then show ?thesis using inv calm by (simp add: pipe_inv_def exits_ok_def)
  qed
  have "in_flight env s = {#}"
    using finished_in_flight [OF inv assms(4)] finished_readers [OF inv assms(4)] records batches by simp
  moreover have "\<not> list_ex doomed (readers s)"
    using assms(4) by (auto simp: finished_def list_all_iff list_ex_iff doomed_def)
  then have "dropped s = []" using inv calm by (simp add: pipe_inv_def blame_ok_def)
  ultimately show ?thesis using reaches_total [OF assms(3)] by (simp add: total_def)
qed

text \<open>C1: completeness: if the pipeline has at least one transformer and \<open>Migrate\<close> returns nil,
  then every record of every planned partition has been mapped and was either acknowledged by
  the target or handed to the dead-letter branch, each exactly once; none was dropped.\<close>

theorem migration_complete:
  assumes "caps_ok env" and "1 \<le> num_transformers (env_cfg env)"
    and "reaches env source parts st q es s" and "finished s" and "first_err s = None"
  shows "mset (written s) + mset (rejected s) = image_mset (env_map env) (mset (all_records source parts))
    \<and> dropped s = []"
  using assms by (rule migration_accounts)

text \<open>C7: channel discipline and bounds: the process never panics (no send on a closed channel),
  the channels stay within the capacities the code asks for, and every batch that is queued or
  handed to \<open>WriteBatch\<close> is non-empty and has at most \<open>BatchSize\<close> records (one when
  \<open>BatchSize\<close> is 0).\<close>

theorem pipeline_bounds:
  assumes "caps_ok env" and "reaches env source parts st q es s"
  shows "\<not> panicked s \<and> int (length (record_ch s)) \<le> record_cap env \<and>
    int (length (batch_ch s)) \<le> batch_cap env \<and>
    (\<forall>b \<in> set (batch_ch s) \<union> {b. \<exists>w \<in> set (writers s). w_phase w = WWriting b}.
       b \<noteq> [] \<and> int (length b) \<le> max 1 (batch_size (env_cfg env)))"
  using reaches_inv [OF assms]
  by (fastforce simp: pipe_inv_def closing_ok_def local_ok_def list_all_iff writer_ok_def batch_ok_def)

lemma start_work:
  "work (start_pipeline env source parts st q) =
     10 * length (all_records source parts) + 7 * length parts +
     4 * nat (num_transformers (env_cfg env)) + 3 * nat (num_writers (env_cfg env)) + 3"
proof -
  have "gather reader_work (map (\<lambda>p. start_reader (source p)) parts) =
      10 * length (all_records source parts) + 7 * length parts"
    by (induction parts) (simp_all add: reader_work_def start_reader_def all_records_def)
  moreover have "gather transformer_work (replicate n \<lparr>t_batch = [], t_phase = TIdle\<rparr>) = 4 * n" for n
    by (induction n) (simp_all add: transformer_work_def)
  moreover have "gather writer_work (replicate n \<lparr>w_count = 0, w_phase = WIdle\<rparr>) = 3 * n" for n
    by (induction n) (simp_all add: writer_work_def)
  ultimately show ?thesis by (simp add: work_def start_pipeline_def)
qed

text \<open>C6: termination: whatever the interleaving and the answers of source and target, a
  migration performs at most \<open>10 n + 7 p + 4 t + 3 w + 3\<close> events for \<open>n\<close> records, \<open>p\<close>
  partitions, \<open>t\<close> transformers and \<open>w\<close> writers.\<close>

theorem migration_terminates:
  assumes "caps_ok env" and "reaches env source parts st q es s"
  shows "length es \<le> 10 * length (all_records source parts) + 7 * length parts +
    4 * nat (num_transformers (env_cfg env)) + 3 * nat (num_writers (env_cfg env)) + 3"
  using pl.run_bounded [OF start_inv [OF assms(1)] assms(2) [unfolded reaches_def]]
  by (simp add: start_work)

text \<open>C5: liveness: with at least one transformer and one writer, sources that close their
  channel and report no error, and no cancellation, the pipeline never gets stuck: every state it
  can reach is finished or has a move, it can always be run to the end, and \<open>Migrate\<close> then returns
  nil.\<close>

theorem migration_completes:
  assumes "well_behaved env source parts" and "reaches env source parts st q es s"
    and "Cancel \<notin> set es"
  shows "(finished s \<or> can_move env s) \<and> first_err s = None \<and>
    (\<exists>es' s'. run_from (fire env) es' s = Some s' \<and> finished s' \<and> first_err s' = None)"
proof -
  have caps: "caps_ok env" using assms(1) by (simp add: well_behaved_def)
  have inv: "pipe_inv env s" using caps assms(2) by (rule reaches_inv)
  have healthy: "healthy s"
    using run_healthy [OF start_healthy [OF assms(1)] assms(3)] assms(2) by (simp add: reaches_def)
  have "\<exists>es' s'. run_from (fire env) es' s = Some s' \<and> finished s' \<and> healthy s'"
  proof (rule pl.run_completes [where good = healthy and final = finished, OF inv healthy])
    fix t :: "('a, 'b) pipeline"
    assume t: "pipe_inv env t" "healthy t" "\<not> finished t"
    then obtain e t' where "e \<noteq> Cancel" "fire env e t = Some t'"
      using progress unfolding can_move_def by blast
    then show "\<exists>e t'. fire env e t = Some t' \<and> healthy t'" using fire_healthy t(2) by blast
  qed
  then show ?thesis using progress [OF inv healthy] healthy unfolding healthy_def by blast
qed

section \<open>Concrete runs\<close>

definition ex_record :: "string \<Rightarrow> int \<Rightarrow> go_record" where
  "ex_record pid i =
     \<lparr>rec_id = show_int i, rec_data = [(''id'', VInt64 (word_of_int i))],
      rec_meta = \<lparr>source_table = ''users'', source_db = [], partition_id = pid,
                  offset = VInt64 (word_of_int i)\<rparr>\<rparr>"

definition ex_env :: "int \<Rightarrow> int \<Rightarrow> int \<Rightarrow>
    (operation_meta option ref_bucket, stored_checkpoint option ref_bucket) env" where
  "ex_env nt nw bs =
     \<lparr>env_cfg = \<lparr>num_readers = 1, num_transformers = nt, num_writers = nw, batch_size = bs,
                 batch_timeout = 0, rate_limit_rps = 0, flush_every_n_batches = 1\<rparr>,
      env_map = id, env_db = ref_db, env_op = ''mig-1''\<rparr>"

definition ex_part :: partition where
  "ex_part = \<lparr>part_id = ''p0'', part_table = ''users'', part_start = VInt64 1, part_end = VInt64 9\<rparr>"

definition ex_source :: "int list \<Rightarrow> partition \<Rightarrow> read_script" where
  "ex_source is p = \<lparr>rs_records = map (ex_record (part_id p)) is, rs_error = None, rs_closes = True\<rparr>"

lemmas ex_defs = ex_env_def ex_part_def ex_source_def start_pipeline_def start_reader_def fire_def
  all_moves setters t_receive_def err_list_def record_cap_def batch_cap_def flush_every_def
  dead_letter_def

text \<open>A run of one record through one transformer and one writer.\<close>

definition ex_run :: "event list" where
  "ex_run =
     [SrcSend 0, RTake 0, RSend 0, TTake 0, TSend 0, WTake 0, WFail 0, WAckOne 0,
      SrcClose 0, SrcReturn 0, RTake 0, RFinish 0, CloseRecords, TTake 0, CloseBatches, WTake 0]"

lemma ex_run_reaches:
  "\<exists>s. reaches (ex_env 1 1 1) (ex_source [1]) [ex_part] ref_store None ex_run s \<and> finished s \<and>
     first_err s = None \<and> written s = [ex_record ''p0'' 1] \<and> rejected s = []"
  by (simp add: reaches_def ex_run_def ex_defs finished_def)

lemma ex_env_ok: "caps_ok (ex_env 1 1 1)" "well_behaved (ex_env 1 1 1) (ex_source is) [ex_part]"
  by (simp_all add: caps_ok_def well_behaved_def record_cap_def batch_cap_def ex_env_def ex_source_def)

theorem pipeline_conserves_witness:
  "\<exists>s. written s = [ex_record ''p0'' 1] \<and>
     in_flight (ex_env 1 1 1) s + mset (written s) + mset (rejected s) + mset (dropped s) =
     image_mset (env_map (ex_env 1 1 1)) (mset (all_records (ex_source [1]) [ex_part]))"
proof -
  obtain s where s: "reaches (ex_env 1 1 1) (ex_source [1]) [ex_part] ref_store None ex_run s"
    "written s = [ex_record ''p0'' 1]"
    using ex_run_reaches by blast
  from pipeline_conserves [OF s(1)] s(2) show ?thesis by (intro exI [of _ s] conjI)
qed

theorem migration_complete_witness:
  "\<exists>s. reaches (ex_env 1 1 1) (ex_source [1]) [ex_part] ref_store None ex_run s \<and>
     mset (written s) + mset (rejected s) =
     image_mset (env_map (ex_env 1 1 1)) (mset (all_records (ex_source [1]) [ex_part])) \<and> dropped s = []"
proof -
  obtain s where s: "reaches (ex_env 1 1 1) (ex_source [1]) [ex_part] ref_store None ex_run s"
    "finished s" "first_err s = None"
    using ex_run_reaches by blast
  have "1 \<le> num_transformers (env_cfg (ex_env 1 1 1))" by (simp add: ex_env_def)
  from migration_complete [OF ex_env_ok(1) this s] s(1) show ?thesis by (intro exI [of _ s] conjI) simp_all
qed

theorem pipeline_bounds_witness:
  "\<exists>s. reaches (ex_env 1 1 1) (ex_source [1]) [ex_part] ref_store None ex_run s \<and> \<not> panicked s"
proof -
  obtain s where s: "reaches (ex_env 1 1 1) (ex_source [1]) [ex_part] ref_store None ex_run s"
    using ex_run_reaches by blast
  from pipeline_bounds [OF ex_env_ok(1) s] s show ?thesis by (intro exI [of _ s] conjI) simp_all
qed

theorem migration_terminates_witness:
  "length ex_run \<le> 10 * length (all_records (ex_source [1]) [ex_part]) + 7 * length [ex_part] +
     4 * nat (num_transformers (env_cfg (ex_env 1 1 1))) +
     3 * nat (num_writers (env_cfg (ex_env 1 1 1))) + 3"
proof -
  obtain s where s: "reaches (ex_env 1 1 1) (ex_source [1]) [ex_part] ref_store None ex_run s"
    using ex_run_reaches by blast
  show ?thesis by (rule migration_terminates [OF ex_env_ok(1) s])
qed

theorem migration_completes_witness:
  "\<exists>es' s'. run_from (fire (ex_env 1 1 1)) es'
       (start_pipeline (ex_env 1 1 1) (ex_source [1, 2]) [ex_part] ref_store None) = Some s' \<and>
     finished s' \<and> first_err s' = None"
proof -
  let ?s = "start_pipeline (ex_env 1 1 1) (ex_source [1, 2]) [ex_part] ref_store None"
  have "reaches (ex_env 1 1 1) (ex_source [1, 2]) [ex_part] ref_store None [] ?s"
    by (simp add: reaches_def)
  from migration_completes [OF ex_env_ok(2) this] show ?thesis by simp
qed

section \<open>What can go wrong\<close>

text \<open>With \<open>NumTransformers\<close> set to 0 the pipeline accepts no record but ends without error: a
  run exists that finishes, returns nil, and has written nothing of a partition that was not
  empty.\<close>

theorem no_transformers_loses_silently:
  "\<exists>es s. reaches (ex_env 0 1 1) (ex_source [1]) [ex_part] ref_store None es s \<and> finished s \<and>
     first_err s = None \<and> written s = [] \<and> rejected s = [] \<and>
     all_records (ex_source [1]) [ex_part] \<noteq> []"
proof -
  let ?es = "[SrcSend 0, RTake 0, RSend 0, SrcClose 0, SrcReturn 0, RTake 0, RFinish 0,
     CloseBatches, WTake 0]"
  have "\<exists>s. reaches (ex_env 0 1 1) (ex_source [1]) [ex_part] ref_store None ?es s \<and> finished s \<and>
     first_err s = None \<and> written s = [] \<and> rejected s = []"
    by (simp add: reaches_def ex_defs finished_def)
  moreover have "all_records (ex_source [1]) [ex_part] \<noteq> []"
    by (simp add: all_records_def ex_source_def)
  ultimately show ?thesis by blast
qed

text \<open>C10: after a cancellation \<open>Migrate\<close> may never return: the writers leave their loop, a
  transformer blocked in \<open>flush\<close> does not watch \<open>ctx.Done()\<close>, and a state is reachable that is not
  finished and in which no event at all can happen.\<close>

theorem cancelled_migration_can_hang:
  "\<exists>es s. reaches (ex_env 1 1 1) (ex_source [1, 2, 3]) [ex_part] ref_store None es s \<and>
     \<not> finished s \<and> (\<forall>e. fire (ex_env 1 1 1) e s = None)"
proof -
  let ?load = "[SrcSend 0, RTake 0, RSend 0, TTake 0]"
  let ?es = "?load @ [TSend 0] @ ?load @ [TSend 0] @ ?load @
     [SrcClose 0, SrcReturn 0, RTake 0, RFinish 0, CloseRecords, Cancel, WCancel 0, Report 0]"
  let ?rs = "[\<lparr>src_todo = [], src_result = None, src_closes = True, part_ch = [], part_closed = True,
     src_returned = True, r_phase = RDone\<rparr>]"
  let ?s = "\<lparr>readers = ?rs, record_ch = [], record_closed = True,
     transformers = [\<lparr>t_batch = [ex_record ''p0'' 3], t_phase = TFlush\<rparr>],
     batch_ch = [[ex_record ''p0'' 1], [ex_record ''p0'' 2]], batch_closed = False,
     writers = [\<lparr>w_count = 0, w_phase = WDone\<rparr>], cancelled = True, pending_errs = [],
     first_err = Some (Sentinel ContextCanceled), panicked = False, cp_store = ref_store,
     dlq_log = None, written = [], rejected = [], dropped = []\<rparr>"
  have "reaches (ex_env 1 1 1) (ex_source [1, 2, 3]) [ex_part] ref_store None ?es ?s"
    by (simp add: reaches_def ex_defs)
  moreover have "fire (ex_env 1 1 1) e ?s = None" for e
    by (cases e) (simp_all add: ex_defs)
  moreover have "\<not> finished ?s" by (simp add: finished_def)
  ultimately show ?thesis by blast
qed

section \<open>Planning and checkpoints\<close>

lemma resume_start_find:
  "resume_start cps p =
     (case find (\<lambda>cp. cp_partition_id cp = part_id p \<and> cp_last_committed cp \<noteq> VNil) cps of
        None \<Rightarrow> p | Some cp \<Rightarrow> p\<lparr>part_start := cp_last_committed cp\<rparr>)"
  by (induction cps) auto

text \<open>Planning is exact: the partitions to read are those not recorded as done, in their
  order and with their table and end; each starts at the offset of its first checkpoint that has
  one, and otherwise where the source put it.\<close>

theorem plan_partitions_exact:
  "map part_id (plan_partitions cps all) =
     filter (\<lambda>i. \<nexists>cp. cp \<in> set cps \<and> cp_status cp = StatusDone \<and> cp_partition_id cp = i) (map part_id all) \<and>
   list_all2 (\<lambda>p p0. part_id p = part_id p0 \<and> part_table p = part_table p0 \<and> part_end p = part_end p0 \<and>
       part_start p =
         (case find (\<lambda>cp. cp_partition_id cp = part_id p0 \<and> cp_last_committed cp \<noteq> VNil) cps of
            None \<Rightarrow> part_start p0 | Some cp \<Rightarrow> cp_last_committed cp))
     (plan_partitions cps all) (filter (\<lambda>p. part_id p \<notin> done_partitions cps) all)"
proof -
  have id: "part_id (resume_start cps p) = part_id p" for p
    by (simp add: resume_start_find split: option.splits)
  have done_iff: "part_id p \<in> done_partitions cps \<longleftrightarrow>
      (\<exists>cp. cp \<in> set cps \<and> cp_status cp = StatusDone \<and> cp_partition_id cp = part_id p)" for p
    by (force simp: done_partitions_def)
  show ?thesis
    by (auto simp: plan_partitions_def id comp_def filter_map done_iff list_all2_map1
        resume_start_find split: option.splits intro!: list.rel_refl)
qed

text \<open>
  A checkpoint is written only for a record the target has acknowledged. \<open>entry_ok\<close>: the offset
  about to be saved for a partition is that of a written record of the partition.
\<close>

definition entry_ok :: "go_record list \<Rightarrow> string \<Rightarrow> gval \<Rightarrow> bool" where
  "entry_ok ws pid off \<longleftrightarrow> (\<exists>rc \<in> set ws. partition_id (rec_meta rc) = pid \<and> offset (rec_meta rc) = off)"

definition stored_ok :: "go_record list \<Rightarrow> string \<Rightarrow> partition_checkpoint \<Rightarrow> bool" where
  "stored_ok ws pid cp \<longleftrightarrow> cp_partition_id cp = pid \<and>
     (\<exists>rc \<in> set ws. partition_id (rec_meta rc) = pid \<and>
        (\<exists>j. to_json (offset (rec_meta rc)) = Inr j \<and> cp_last_committed cp = from_json True j))"

fun save_phase_ok :: "go_record list \<Rightarrow> writer_phase \<Rightarrow> bool" where
  "save_phase_ok ws (WSaving es) = (\<forall>(pid, off, n) \<in> set es. entry_ok ws pid off)"
| "save_phase_ok ws (WPutting cp es) =
     (entry_ok ws (cp_partition_id cp) (cp_last_committed cp) \<and>
      (\<forall>(pid, off, n) \<in> set es. entry_ok ws pid off))"
| "save_phase_ok ws _ = True"

definition checkpoints_ok :: "('m, 'p) env \<Rightarrow> ('m, 'p) pipeline \<Rightarrow> bool" where
  "checkpoints_ok env s \<longleftrightarrow>
     list_all (\<lambda>w. save_phase_ok (written s) (w_phase w)) (writers s) \<and>
     (\<forall>pid cp. get_partition (env_db env) (cp_store s) (env_op env) pid = Inr cp \<longrightarrow>
        stored_ok (written s) pid cp)"

lemma save_plan_entries:
  "(pid, off, n) \<in> set (foldl add_entry es b) \<Longrightarrow> \<forall>(pid, off, n) \<in> set es. entry_ok ws pid off \<Longrightarrow>
   set b \<subseteq> set ws \<Longrightarrow> entry_ok ws pid off"
proof (induction b arbitrary: es)
  case (Cons x b)
  have sub: "set (map_set k v m) \<subseteq> insert (k, v) (set m)" for k :: string and v :: "gval \<times> int" and m
    by (induction k v m rule: map_set.induct) auto
  have "entry_ok ws (partition_id (rec_meta x)) (offset (rec_meta x))"
    using Cons.prems(3) by (auto simp: entry_ok_def)
  then have "\<forall>(pid, off, n) \<in> set (add_entry es x). entry_ok ws pid off"
    using Cons.prems(2) by (auto simp: add_entry_def Let_def dest!: sub [THEN subsetD])
  with Cons show ?case by simp
qed auto

lemma entry_ok_mono: "entry_ok ws pid off \<Longrightarrow> set ws \<subseteq> set ws' \<Longrightarrow> entry_ok ws' pid off"
  by (auto simp: entry_ok_def)

lemma stored_ok_mono: "stored_ok ws pid cp \<Longrightarrow> set ws \<subseteq> set ws' \<Longrightarrow> stored_ok ws' pid cp"
  by (auto simp: stored_ok_def)

lemma save_phase_mono: "save_phase_ok ws ph \<Longrightarrow> set ws \<subseteq> set ws' \<Longrightarrow> save_phase_ok ws' ph"
  by (cases ph) (auto intro: entry_ok_mono)

lemma checkpoints_written:
  assumes "checkpoints_ok env s" and "set (written s) \<subseteq> set ws"
  shows "checkpoints_ok env (s\<lparr>written := ws\<rparr>)"
  using assms save_phase_mono [OF _ assms(2)] stored_ok_mono [OF _ assms(2)]
  unfolding checkpoints_ok_def list_all_iff by simp

lemma set_writer_checkpoints:
  "checkpoints_ok env s \<Longrightarrow> save_phase_ok (written s) (w_phase w) \<Longrightarrow> checkpoints_ok env (set_writer k w s)"
  by (auto simp: checkpoints_ok_def set_writer_def list_all_update)

lemma checkpoints_other [simp]:
  "checkpoints_ok env (s\<lparr>record_ch := xs\<rparr>) = checkpoints_ok env s"
  "checkpoints_ok env (s\<lparr>batch_ch := bs\<rparr>) = checkpoints_ok env s"
  "checkpoints_ok env (s\<lparr>dropped := d\<rparr>) = checkpoints_ok env s"
  "checkpoints_ok env (s\<lparr>rejected := ws\<rparr>) = checkpoints_ok env s"
  "checkpoints_ok env (s\<lparr>dlq_log := q\<rparr>) = checkpoints_ok env s"
  "checkpoints_ok env (s\<lparr>cancelled := b\<rparr>) = checkpoints_ok env s"
  "checkpoints_ok env (s\<lparr>panicked := b\<rparr>) = checkpoints_ok env s"
  "checkpoints_ok env (s\<lparr>record_closed := b\<rparr>) = checkpoints_ok env s"
  "checkpoints_ok env (s\<lparr>batch_closed := b\<rparr>) = checkpoints_ok env s"
  "checkpoints_ok env (s\<lparr>pending_errs := p\<rparr>) = checkpoints_ok env s"
  "checkpoints_ok env (s\<lparr>first_err := f\<rparr>) = checkpoints_ok env s"
  "checkpoints_ok env (s\<lparr>transformers := ts\<rparr>) = checkpoints_ok env s"
  "checkpoints_ok env (set_transformer j t s) = checkpoints_ok env s"
  "checkpoints_ok env (set_reader i r s) = checkpoints_ok env s"
  by (simp_all add: checkpoints_ok_def setters)

lemma written_set_writer [simp]: "written (set_writer k w s) = written s"
  by (simp add: set_writer_def)

lemma writer_checkpoints:
  assumes "checkpoints_ok env s" and "k < length (writers s)" and "bolt_db_laws (env_db env)"
  shows "w_take k s = Some s' \<Longrightarrow> checkpoints_ok env s'"
    and "w_cancel k s = Some s' \<Longrightarrow> checkpoints_ok env s'"
    and "w_ack env k s = Some s' \<Longrightarrow> checkpoints_ok env s'"
    and "w_fail k s = Some s' \<Longrightarrow> checkpoints_ok env s'"
    and "w_ack_one k s = Some s' \<Longrightarrow> checkpoints_ok env s'"
    and "w_fail_one k e now we s = Some s' \<Longrightarrow> checkpoints_ok env s'"
    and "save_read env k i now s = Some s' \<Longrightarrow> checkpoints_ok env s'"
    and "save_write env k s = Some s' \<Longrightarrow> checkpoints_ok env s'"
proof -
  let ?w = "writers s ! k"
  have ph: "save_phase_ok (written s) (w_phase ?w)"
    using assms(1,2) by (auto simp: checkpoints_ok_def list_all_length)
  show "w_take k s = Some s' \<Longrightarrow> checkpoints_ok env s'"
    using assms(1) by (auto simp: w_take_def Let_def split: list.splits if_splits intro!: set_writer_checkpoints)
  show "w_cancel k s = Some s' \<Longrightarrow> checkpoints_ok env s'"
    using assms(1) by (auto simp: w_cancel_def Let_def split: if_splits intro!: set_writer_checkpoints)
  show "checkpoints_ok env s'" if ack: "w_ack env k s = Some s'"
  proof -
    from ack obtain b where b: "w_phase ?w = WWriting b" by (auto simp: w_ack_def Let_def split: writer_phase.splits)
    let ?n = "w_count ?w + 1"
    define w where "w = ?w\<lparr>w_count := ?n,
      w_phase := if int ?n mod flush_every env = 0 then saving (save_plan b) else WIdle\<rparr>"
    have w: "w_phase w = WIdle \<or> w_phase w = saving (save_plan b)" by (simp add: w_def)
    have "s' = (set_writer k w s)\<lparr>written := b @ written s\<rparr>"
      using ack b by (simp add: w_ack_def Let_def w_def)
    then have "s' = set_writer k w (s\<lparr>written := b @ written s\<rparr>)" by (simp add: set_writer_def)
    moreover have "checkpoints_ok env (s\<lparr>written := b @ written s\<rparr>)"
      using assms(1) by (rule checkpoints_written) simp
    moreover have "save_phase_ok (b @ written s) (w_phase w)"
      using w by (auto simp: save_plan_def dest!: save_plan_entries [where ws = "b @ written s"])
    ultimately show ?thesis by (auto intro!: set_writer_checkpoints)
  qed
  show "w_fail k s = Some s' \<Longrightarrow> checkpoints_ok env s'"
    using assms(1) by (auto simp: w_fail_def Let_def split: writer_phase.splits intro!: set_writer_checkpoints)
  show "w_ack_one k s = Some s' \<Longrightarrow> checkpoints_ok env s'"
    using assms(1) by (auto simp: w_ack_one_def Let_def split: writer_phase.splits list.splits
        intro!: set_writer_checkpoints checkpoints_written)
  show "w_fail_one k e now we s = Some s' \<Longrightarrow> checkpoints_ok env s'"
    using assms(1) by (auto simp: w_fail_one_def Let_def split: writer_phase.splits list.splits
        intro!: set_writer_checkpoints)
  show "checkpoints_ok env s'" if read: "save_read env k i now s = Some s'"
  proof -
    from read obtain es pid off n where es: "w_phase ?w = WSaving es" "i < length es" "es ! i = (pid, off, n)"
      and s': "s' = set_writer k (?w\<lparr>w_phase := WPutting
        (bump_checkpoint pid off n now (get_partition (env_db env) (cp_store s) (env_op env) pid))
        (take i es @ drop (Suc i) es)\<rparr>) s"
      by (auto simp: save_read_def Let_def split: writer_phase.splits prod.splits if_splits)
    have "(pid, off, n) \<in> set es" using es by (metis nth_mem)
    then have entry: "entry_ok (written s) pid off" using ph es by auto
    have "cp_partition_id cp = pid"
      if "get_partition (env_db env) (cp_store s) (env_op env) pid = Inr cp" for cp
      using that assms(1) by (auto simp: checkpoints_ok_def stored_ok_def)
    then have "entry_ok (written s)
        (cp_partition_id (bump_checkpoint pid off n now (get_partition (env_db env) (cp_store s) (env_op env) pid)))
        (cp_last_committed (bump_checkpoint pid off n now (get_partition (env_db env) (cp_store s) (env_op env) pid)))"
      using entry by (simp add: bump_checkpoint_def Let_def split: sum.splits)
    moreover have "\<forall>(pid, off, n) \<in> set (take i es @ drop (Suc i) es). entry_ok (written s) pid off"
      using ph es by (auto dest: in_set_takeD in_set_dropD)
    ultimately show ?thesis using s' assms(1) by (auto intro!: set_writer_checkpoints)
  qed
  show "checkpoints_ok env s'" if wr: "save_write env k s = Some s'"
  proof -
    from wr obtain cp es where cp: "w_phase ?w = WPutting cp es"
      and s': "s' = (set_writer k (?w\<lparr>w_phase := saving es\<rparr>) s)\<lparr>cp_store :=
         (case save_partition (env_db env) (cp_store s) (env_op env) cp of
            Inl _ \<Rightarrow> cp_store s | Inr st \<Rightarrow> st)\<rparr>"
      by (auto simp: save_write_def Let_def split: writer_phase.splits)
    have w: "checkpoints_ok env (set_writer k (?w\<lparr>w_phase := saving es\<rparr>) s)"
      using assms(1) ph cp by (auto intro!: set_writer_checkpoints)
    show ?thesis
    proof (cases "save_partition (env_db env) (cp_store s) (env_op env) cp")
      case (Inl e)
      with w s' show ?thesis by (auto simp: checkpoints_ok_def set_writer_def)
    next
      case (Inr st)
      have entry: "entry_ok (written s) (cp_partition_id cp) (cp_last_committed cp)" using ph cp by simp
      have "stored_ok (written s) pid cp'"
        if get: "get_partition (env_db env) st (env_op env) pid = Inr cp'" for pid cp'
      proof -
        obtain j where j: "to_json (cp_last_committed cp) = Inr j"
          and gets: "\<And>pid. get_partition (env_db env) st (env_op env) pid =
            (if pid = cp_partition_id cp then Inr (cp\<lparr>cp_last_committed := from_json True j\<rparr>)
             else get_partition (env_db env) (cp_store s) (env_op env) pid)"
          using save_partition_get [OF assms(3) Inr] by blast
        show ?thesis
        proof (cases "pid = cp_partition_id cp")
          case True
          then show ?thesis using get gets entry j by (auto simp: entry_ok_def stored_ok_def)
        next
          case False
          then show ?thesis using get gets assms(1) by (simp add: checkpoints_ok_def)
        qed
      qed
      with w s' Inr show ?thesis by (auto simp: checkpoints_ok_def set_writer_def)
    qed
  qed
qed

lemma fire_checkpoints:
  assumes "checkpoints_ok env s" and "bolt_db_laws (env_db env)" and "fire env e s = Some s'"
  shows "checkpoints_ok env s'"
proof -
  note w = writer_checkpoints [OF assms(1) _ assms(2)]
  show ?thesis using assms(1,3)
    by (cases e)
      (auto simp: fire_def source_moves reader_moves transformer_moves group_moves Let_def
        split: if_splits list.splits reader_phase.splits intro: w)
qed

lemma run_checkpoints:
  "checkpoints_ok env s \<Longrightarrow> bolt_db_laws (env_db env) \<Longrightarrow> run_from (fire env) es s = Some s' \<Longrightarrow>
   checkpoints_ok env s'"
proof (induction es arbitrary: s)
  case (Cons e es)
  then obtain t where "fire env e s = Some t" "run_from (fire env) es t = Some s'"
    by (auto split: option.splits)
  with Cons show ?case using fire_checkpoints [of env s e t] by blast
qed simp

text \<open>C8: a checkpoint never runs ahead of the target for its own record: if the operation had no
  checkpoint before, then in every reachable state each stored checkpoint of a partition names
  the offset (as JSON keeps it) of a record of that partition that the target has acknowledged,
  in a batch or alone. An offset of a rejected or dropped record is never stored.\<close>

theorem checkpoints_follow_writes:
  assumes "bolt_db_laws (env_db env)"
    and "\<And>pid cp. get_partition (env_db env) st (env_op env) pid \<noteq> Inr cp"
    and "reaches env source parts st q es s"
    and "get_partition (env_db env) (cp_store s) (env_op env) pid = Inr cp"
  shows "cp_partition_id cp = pid \<and>
    (\<exists>rc \<in> set (written s). partition_id (rec_meta rc) = pid \<and>
       (\<exists>j. to_json (offset (rec_meta rc)) = Inr j \<and> cp_last_committed cp = from_json True j))"
proof -
  have "checkpoints_ok env (start_pipeline env source parts st q)"
    using assms(2) by (auto simp: checkpoints_ok_def start_pipeline_def list_all_iff)
  then have "checkpoints_ok env s"
    using run_checkpoints assms(1,3) unfolding reaches_def by blast
  then show ?thesis using assms(4) by (simp add: checkpoints_ok_def stored_ok_def)
qed

text \<open>Two writers hold the first two records of a partition; the second one answers first.\<close>

definition overtaking_run :: "event list" where
  "overtaking_run =
     [SrcSend 0, RTake 0, RSend 0, TTake 0, TSend 0, SrcSend 0, RTake 0, RSend 0, TTake 0, TSend 0,
      WTake 0, WTake 1, WAck 1, SaveRead 1 0 5, SaveWrite 1]"

lemma overtaking_run_reaches:
  "\<exists>s. reaches (ex_env 1 2 1) (ex_source [1, 2]) [ex_part] ref_store None overtaking_run s \<and>
     written s = [ex_record ''p0'' 2] \<and>
     get_partition ref_db (cp_store s) ''mig-1'' ''p0'' =
       Inr \<lparr>cp_partition_id = ''p0'', cp_status = StatusInProgress, cp_last_committed = VNumber (LInt 2),
            cp_rows_written = 1, cp_error_count = 0, cp_updated_at = 5\<rparr> \<and>
     known_checkpoints ref_db (cp_store s) ''mig-1'' =
       [\<lparr>cp_partition_id = ''p0'', cp_status = StatusInProgress, cp_last_committed = VNumber (LInt 2),
         cp_rows_written = 1, cp_error_count = 0, cp_updated_at = 5\<rparr>]"
  by (simp add: reaches_def overtaking_run_def ex_defs ex_record_def save_plan_def add_entry_def
      bump_checkpoint_def ref_eval known_checkpoints_def)

theorem checkpoints_follow_writes_witness:
  "\<exists>s cp. reaches (ex_env 1 2 1) (ex_source [1, 2]) [ex_part] ref_store None overtaking_run s \<and>
     get_partition ref_db (cp_store s) ''mig-1'' ''p0'' = Inr cp \<and>
     written s = [ex_record ''p0'' 2] \<and> cp_partition_id cp = ''p0'' \<and>
     (\<exists>rc \<in> set (written s). partition_id (rec_meta rc) = ''p0'' \<and>
       (\<exists>j. to_json (offset (rec_meta rc)) = Inr j \<and> cp_last_committed cp = from_json True j))"
proof -
  obtain s cp where s: "reaches (ex_env 1 2 1) (ex_source [1, 2]) [ex_part] ref_store None overtaking_run s"
    "written s = [ex_record ''p0'' 2]" "get_partition ref_db (cp_store s) ''mig-1'' ''p0'' = Inr cp"
    using overtaking_run_reaches by blast
  have env: "env_db (ex_env 1 2 1) = ref_db" "env_op (ex_env 1 2 1) = ''mig-1''" by (simp_all add: ex_env_def)
  have "get_partition (env_db (ex_env 1 2 1)) ref_store (env_op (ex_env 1 2 1)) pid \<noteq> Inr cp" for pid cp
    by (simp add: env ref_eval)
  from checkpoints_follow_writes [OF _ this s(1), of "''p0''" cp] s ref_db_laws env show ?thesis
    by (intro exI [of _ s] exI [of _ cp] conjI) simp_all
qed

text \<open>C9: but the high-water mark is not safe for resuming: with two writers a state is reachable
  (where a crash may strike) in which the stored checkpoint of a partition is offset 2 while the
  record with offset 1 of the same partition has not been written; the next run plans that
  partition from offset 2 on.\<close>

theorem checkpoint_overtakes_unwritten:
  "\<exists>es s. reaches (ex_env 1 2 1) (ex_source [1, 2]) [ex_part] ref_store None es s \<and>
     written s = [ex_record ''p0'' 2] \<and> rejected s = [] \<and>
     map part_start (plan_partitions (known_checkpoints ref_db (cp_store s) ''mig-1'') [ex_part]) =
       [VNumber (LInt 2)]"
proof -
  obtain s where s: "reaches (ex_env 1 2 1) (ex_source [1, 2]) [ex_part] ref_store None overtaking_run s"
    "written s = [ex_record ''p0'' 2]" "known_checkpoints ref_db (cp_store s) ''mig-1'' =
       [\<lparr>cp_partition_id = ''p0'', cp_status = StatusInProgress, cp_last_committed = VNumber (LInt 2),
         cp_rows_written = 1, cp_error_count = 0, cp_updated_at = 5\<rparr>]"
    using overtaking_run_reaches by blast
  have "rejected s = []" using s(1)
    by (auto simp: reaches_def overtaking_run_def ex_defs ex_record_def save_plan_def add_entry_def
      bump_checkpoint_def ref_eval)
  with s show ?thesis
    by (intro exI [of _ overtaking_run] exI [of _ s])
      (simp add: plan_partitions_def done_partitions_def ex_part_def)
qed

end
