(* ===== verification/Sha256.thy ===== *)
theory Sha256
  imports Prelude
begin

text \<open>
  \<open>crypto/sha256\<close> as the repository uses it: the digest of a byte string, printed with \<open>%x\<close>.
  Backups use it for chunk checksums (\<open>internal/backup\<close>), the schema mapper for masking
  (\<open>internal/migration\<close>), the command line for the configuration hash.
\<close>

unbundle bit_operations_syntax

type_synonym w32 = "32 word"

text \<open>
  The constants of the standard: the first 32 bits of the fractional parts of the cube roots of the
  first 64 primes, and of the square roots of the first eight. \<open>root_bits k x n r\<close> adds the bits
  below position \<open>n\<close> to the integer \<open>k\<close>th root of \<open>x\<close>.
\<close>

fun root_bits :: "nat \<Rightarrow> int \<Rightarrow> nat \<Rightarrow> int \<Rightarrow> int" where
  "root_bits k x 0 r = r"
| "root_bits k x (Suc n) r = root_bits k x n (if (r + 2 ^ n) ^ k \<le> x then r + 2 ^ n else r)"

definition small_primes :: "int list" where
  "small_primes = filter (\<lambda>p. list_all (\<lambda>d. p mod d \<noteq> 0) [2..p - 1]) [2..311]"

definition round_keys :: "w32 list" where
  "round_keys = map (\<lambda>p. word_of_int (root_bits 3 (p * 2 ^ 96) 36 0)) small_primes"

definition initial_hash :: "w32 list" where
  "initial_hash = map (\<lambda>p. word_of_int (root_bits 2 (p * 2 ^ 64) 37 0)) [2, 3, 5, 7, 11, 13, 17, 19]"

definition big_endian :: "nat \<Rightarrow> nat \<Rightarrow> 8 word list" where
  "big_endian k n = map (\<lambda>i. of_nat (n div 256 ^ i)) (rev [0..<k])"

definition sha_pad :: "8 word list \<Rightarrow> 8 word list" where
  "sha_pad bs = bs @ [0x80] @ replicate ((119 - length bs mod 64) mod 64) 0 @ big_endian 8 (8 * length bs)"

definition join_bytes :: "8 word list \<Rightarrow> w32" where
  "join_bytes bs = foldl (\<lambda>a b. push_bit 8 a OR ucast b) 0 bs"

text \<open>The message schedule, newest word first.\<close>

fun extend_schedule :: "nat \<Rightarrow> w32 list \<Rightarrow> w32 list" where
  "extend_schedule 0 ws = ws"
| "extend_schedule (Suc k) ws =
     (let x = ws ! 14; y = ws ! 1;
          s0 = word_rotr 7 x XOR word_rotr 18 x XOR drop_bit 3 x;
          s1 = word_rotr 17 y XOR word_rotr 19 y XOR drop_bit 10 y
      in extend_schedule k ((ws ! 15 + s0 + ws ! 6 + s1) # ws))"

definition schedule :: "8 word list \<Rightarrow> w32 list" where
  "schedule block = rev (extend_schedule 48 (rev (map join_bytes (chunks_of 4 block))))"

fun sha_round :: "w32 list \<Rightarrow> w32 \<times> w32 \<Rightarrow> w32 list" where
  "sha_round [a, b, c, d, e, f, g, h] (k, w) =
     (let s1 = word_rotr 6 e XOR word_rotr 11 e XOR word_rotr 25 e;
          ch = (e AND f) XOR (NOT e AND g);
          t1 = h + s1 + ch + k + w;
          s0 = word_rotr 2 a XOR word_rotr 13 a XOR word_rotr 22 a;
          maj = (a AND b) XOR (a AND c) XOR (b AND c)
      in [t1 + (s0 + maj), a, b, c, d + t1, e, f, g])"
| "sha_round st kw = st"

definition compress :: "w32 list \<Rightarrow> 8 word list \<Rightarrow> w32 list" where
  "compress hs block = map2 (+) hs (foldl sha_round hs (zip round_keys (schedule block)))"

definition sha256 :: "8 word list \<Rightarrow> w32 list" where
  "sha256 bs = foldl compress initial_hash (chunks_of 64 (sha_pad bs))"

definition hex_char :: "nat \<Rightarrow> char" where
  "hex_char n = (if n < 10 then char_of (48 + n) else char_of (87 + n))"

definition hex_word :: "w32 \<Rightarrow> string" where
  "hex_word w = map (\<lambda>i. hex_char (unat (drop_bit (4 * i) w AND 15))) (rev [0..<8])"

text \<open>\<open>fmt.Sprintf("%x", h.Sum(nil))\<close> after writing \<open>bs\<close>.\<close>

definition sha256_hex :: "8 word list \<Rightarrow> string" where
  "sha256_hex bs = concat (map hex_word (sha256 bs))"

definition bytes_of :: "string \<Rightarrow> 8 word list" where
  "bytes_of s = map (\<lambda>c. of_nat (of_char c)) s"

section \<open>The shape of a digest\<close>

lemma sha_round_length: "length (sha_round st kw) = length st"
  by (cases "(st, kw)" rule: sha_round.cases) (simp_all add: Let_def)

lemma rounds_length: "length (foldl sha_round st kws) = length st"
  by (induction kws arbitrary: st) (simp_all add: sha_round_length)

lemma compress_length: "length (compress hs block) = length hs"
  by (simp add: compress_def rounds_length)

lemma initial_hash_length [simp]: "length initial_hash = 8"
  by (simp add: initial_hash_def)

lemma sha256_length: "length (sha256 bs) = 8"
proof -
  have "length (foldl compress hs blocks) = length hs" for hs blocks
    by (induction blocks arbitrary: hs) (simp_all add: compress_length)
  then show ?thesis by (simp add: sha256_def)
qed

lemma sha256_hex_length: "length (sha256_hex bs) = 64"
proof -
  have "length (concat (map hex_word ws)) = 8 * length ws" for ws
    by (induction ws) (simp_all add: hex_word_def)
  then show ?thesis by (simp add: sha256_hex_def sha256_length)
qed

end
