(* ===== verification/Mapper.thy ===== *)
theory Mapper
  imports Fmt Sha256
begin

text \<open>
  \<open>internal/migration/schema_mapper.go\<close>: masking of records, named value transforms and
  flattening of nested maps. Text-level work of the standard library that the model of JSON
  leaves out (printing and parsing JSON text, parsing RFC 3339, Unicode case mapping) is the
  argument \<open>text_lib\<close>.
\<close>

section \<open>Masking\<close>

record schema_mapper =
  source_type :: string
  target_type :: string
  masking :: "masking_config list"

definition new_schema_mapper :: "string \<Rightarrow> string \<Rightarrow> masking_config list \<Rightarrow> schema_mapper" where
  "new_schema_mapper src dst ms = \<lparr>source_type = src, target_type = dst, masking = ms\<rparr>"

definition apply_mask :: "gval \<Rightarrow> string \<Rightarrow> gval" where
  "apply_mask val strategy =
     (let str_val = sprint_v val in
      if strategy = ''sha256'' then VString (sha256_hex (bytes_of str_val))
      else if strategy = ''redact'' then VString ''[REDACTED]''
      else if strategy = ''partial''
      then if 4 < length str_val
           then VString (''****'' @ drop (length str_val - 4) str_val)
           else VString ''****''
      else val)"

fun apply_rules :: "masking_config list \<Rightarrow> go_map \<Rightarrow> go_map" where
  "apply_rules [] data = data"
| "apply_rules (rule # rules) data =
     apply_rules rules
       (case map_of data (mask_column rule) of
          None \<Rightarrow> data
        | Some val \<Rightarrow> map_set (mask_column rule) (apply_mask val (mask_strategy rule)) data)"

text \<open>The record is changed in place and returned.\<close>

definition map_record :: "schema_mapper \<Rightarrow> go_record \<Rightarrow> go_record" where
  "map_record m rc = rc\<lparr>rec_data := apply_rules (masking m) (rec_data rc)\<rparr>"

section \<open>Flattening\<close>

text \<open>
  The assignments \<open>out[key] = v\<close> that \<open>flattenMap\<close> performs, in order. A map is visited in the
  order of its list.
\<close>

definition extend_key :: "string \<Rightarrow> string \<Rightarrow> string" where
  "extend_key prefix k = (if prefix = [] then k else prefix @ ''.'' @ k)"

fun flatten_entry :: "string \<Rightarrow> gval \<Rightarrow> (string \<times> gval) list" where
  "flatten_entry key (VMap m) = concat (map (\<lambda>(k, v). flatten_entry (extend_key key k) v) m)"
| "flatten_entry key v = [(key, v)]"

definition flatten_assignments :: "string \<Rightarrow> go_map \<Rightarrow> (string \<times> gval) list" where
  "flatten_assignments prefix m = concat (map (\<lambda>(k, v). flatten_entry (extend_key prefix k) v) m)"

definition flatten_map :: "string \<Rightarrow> go_map \<Rightarrow> go_map \<Rightarrow> go_map" where
  "flatten_map prefix m out = foldl (\<lambda>o' (k, v). map_set k v o') out (flatten_assignments prefix m)"

section \<open>Transforms\<close>

record text_lib =
  json_print :: "json \<Rightarrow> string"
  json_parse :: "string \<Rightarrow> json result"
  parse_rfc3339 :: "string \<Rightarrow> int result"
  to_upper :: "string \<Rightarrow> string"
  to_lower :: "string \<Rightarrow> string"

definition is_hex_digit :: "char \<Rightarrow> bool" where
  "is_hex_digit c \<longleftrightarrow>
     CHR ''0'' \<le> c \<and> c \<le> CHR ''9'' \<or> CHR ''a'' \<le> c \<and> c \<le> CHR ''f'' \<or> CHR ''A'' \<le> c \<and> c \<le> CHR ''F''"

definition unix_milli :: "int \<Rightarrow> 64 word" where
  "unix_milli t = word_of_int (t div 1000000)"

definition from_milli :: "64 word \<Rightarrow> int" where
  "from_milli n = sint n * 1000000"

text \<open>\<open>json.Number.Int64\<close>: an integer literal in range.\<close>

definition number_int64 :: "numlit \<Rightarrow> (64 word) result" where
  "number_int64 n =
     (case n of
        LInt i \<Rightarrow> if - (2 ^ 63) \<le> i \<and> i < 2 ^ 63 then Inr (word_of_int i)
                  else Inl (ErrMsg ''strconv.ParseInt: value out of range'')
      | LDec q \<Rightarrow> Inl (ErrMsg ''strconv.ParseInt: invalid syntax''))"

definition prefix_err :: "string \<Rightarrow> 'a result \<Rightarrow> 'a result" where
  "prefix_err s r = (case r of Inl e \<Rightarrow> Inl (Wrapf s e) | Inr x \<Rightarrow> Inr x)"

definition parse_object :: "text_lib \<Rightarrow> string \<Rightarrow> go_map result" where
  "parse_object lib s =
     rbind (json_parse lib s) (object_of_json False)"

definition apply_transform :: "text_lib \<Rightarrow> gval \<Rightarrow> string \<Rightarrow> gval result" where
  "apply_transform lib val transform =
     (if transform = ''none'' \<or> transform = '''' then Inr val
      else if transform = ''to_json_string'' then
        rbind (prefix_err ''to_json_string'' (to_json val)) (\<lambda>j. Inr (VString (json_print lib j)))
      else if transform = ''from_json_string'' then
        (case val of
           VString s \<Rightarrow> rbind (prefix_err ''from_json_string'' (json_parse lib s))
             (\<lambda>j. Inr (from_json False j))
         | _ \<Rightarrow> Inl (ErrMsg (''from_json_string: expected string, got '' @ type_name val)))
      else if transform = ''to_unix_ms'' then
        (case val of
           VTime t \<Rightarrow> Inr (VInt64 (unix_milli t))
         | VString s \<Rightarrow> rbind (prefix_err (''to_unix_ms: cannot parse '' @ quote s) (parse_rfc3339 lib s))
             (\<lambda>t. Inr (VInt64 (unix_milli t)))
         | _ \<Rightarrow> Inl (ErrMsg (''to_unix_ms: unsupported type '' @ type_name val)))
      else if transform = ''from_unix_ms'' then
        (case val of
           VInt64 n \<Rightarrow> Inr (VTime (from_milli n))
         | VFloat64 x \<Rightarrow> Inr (VTime (from_milli (word_of_int (trunc_rat x))))
         | VNumber n \<Rightarrow> rbind (prefix_err ''from_unix_ms'' (number_int64 n)) (\<lambda>ms. Inr (VTime (from_milli ms)))
         | _ \<Rightarrow> Inl (ErrMsg (''from_unix_ms: unsupported type '' @ type_name val)))
      else if transform = ''to_upper'' then Inr (VString (to_upper lib (sprint_v val)))
      else if transform = ''to_lower'' then Inr (VString (to_lower lib (sprint_v val)))
      else if transform = ''uuid_to_string'' then Inr (VString (sprint_v val))
      else if transform = ''string_to_uuid'' then
        (case val of
           VString s \<Rightarrow>
             (let clean = filter (\<lambda>c. c \<noteq> CHR ''-'') s in
              if length clean \<noteq> 32
              then Inl (ErrMsg (''string_to_uuid: '' @ quote s @ '' is not a valid UUID''))
              else case filter (\<lambda>c. \<not> is_hex_digit c) clean of
                     c # _ \<Rightarrow> Inl (ErrMsg (''string_to_uuid: '' @ quote s @ '' contains non-hex character '' @ [CHR 0x27, c, CHR 0x27]))
                   | [] \<Rightarrow> Inr (VString s))
         | _ \<Rightarrow> Inl (ErrMsg (''string_to_uuid: expected string, got '' @ type_name val)))
      else if transform = ''flatten_json'' then
        (case val of
           VMap m \<Rightarrow> Inr (VMap (flatten_map '''' m []))
         | VString s \<Rightarrow> rbind (prefix_err ''flatten_json: cannot parse string as JSON'' (parse_object lib s))
             (\<lambda>m. Inr (VMap (flatten_map '''' m [])))
         | _ \<Rightarrow> Inl (ErrMsg (''flatten_json: expected map[string]any or JSON string, got '' @ type_name val)))
      else Inl (ErrMsg (''unknown transform: '' @ quote transform)))"

end
