(* ===== verification/Mapper_Props.thy ===== *)
theory Mapper_Props
  imports Mapper
begin

text \<open>
  What masking does to a record and what it hides, flattening as path lookup, and the UUID check.
\<close>

section \<open>Masking\<close>

definition strategies_for :: "masking_config list \<Rightarrow> string \<Rightarrow> string list" where
  "strategies_for rules c = map mask_strategy (filter (\<lambda>r. mask_column r = c) rules)"

lemma apply_rules_get:
  "map_of (apply_rules rules data) c =
     map_option (\<lambda>v. foldl apply_mask v (strategies_for rules c)) (map_of data c)"
  by (induction rules arbitrary: data)
    (auto simp: strategies_for_def option.map_comp comp_def option.map_ident split: option.splits)

lemma apply_rules_keys: "map fst (apply_rules rules data) = map fst data"
proof (induction rules arbitrary: data)
  case (Cons r rules)
  have "map fst (map_set (mask_column r) v data) = map fst data" if "map_of data (mask_column r) = Some w" for v w
    using that by (intro keys_map_set_present) (metis domI dom_map_of_conv_image_fst)
  with Cons show ?case by (auto split: option.splits)
qed simp

text \<open>Masking is exact: \<open>MapRecord\<close> keeps the columns and their order, replaces the value of
  a column by its strategies applied in the order of the rules, and touches nothing else, in
  particular neither the record's ID nor its offset, which keep what a masked key column held.\<close>

theorem map_record_effect:
  "map_of (rec_data (map_record m rc)) c =
     map_option (\<lambda>v. foldl apply_mask v (strategies_for (masking m) c)) (map_of (rec_data rc) c) \<and>
   map fst (rec_data (map_record m rc)) = map fst (rec_data rc) \<and>
   rec_id (map_record m rc) = rec_id rc \<and> rec_meta (map_record m rc) = rec_meta rc"
  by (simp add: map_record_def apply_rules_get apply_rules_keys)

lemma foldl_mask_unknown:
  "\<forall>s \<in> set ss. s \<notin> {''sha256'', ''redact'', ''partial''} \<Longrightarrow> foldl apply_mask v ss = v"
  by (induction ss) (auto simp: apply_mask_def Let_def)

text \<open>What the last four bytes of a text reveal.\<close>

definition tail4 :: "string \<Rightarrow> string" where
  "tail4 s = (if 4 < length s then drop (length s - 4) s else [])"

text \<open>What each strategy reveals: \<open>redact\<close> yields one constant; \<open>partial\<close> depends only on the
  last four bytes of the printed value, and on nothing when it has at most four; \<open>sha256\<close> always
  yields 64 characters; a strategy with any other name returns the value unmasked.\<close>

theorem mask_reveals:
  "apply_mask v ''redact'' = apply_mask w ''redact'' \<and>
   (tail4 (sprint_v v) = tail4 (sprint_v w) \<longrightarrow> apply_mask v ''partial'' = apply_mask w ''partial'') \<and>
   (\<exists>h. apply_mask v ''sha256'' = VString h \<and> length h = 64) \<and>
   (s \<notin> {''sha256'', ''redact'', ''partial''} \<longrightarrow> apply_mask v s = v)"
proof -
  have "drop (length x - 4) x \<noteq> []" if "4 < length x" for x :: string using that by simp
  then have "apply_mask v ''partial'' = apply_mask w ''partial''"
    if "tail4 (sprint_v v) = tail4 (sprint_v w)"
    using that by (auto simp: apply_mask_def tail4_def Let_def split: if_splits)
  then show ?thesis by (auto simp: apply_mask_def Let_def sha256_hex_length)
qed

theorem mask_reveals_witness:
  "apply_mask (VString ''alice@example.com'') ''partial'' = apply_mask (VString ''bob.com'') ''partial'' \<and>
   apply_mask (VInt64 7) ''md5'' = VInt64 7"
  using mask_reveals [of "VString ''alice@example.com''" "VString ''bob.com''" "''md5''"]
    mask_reveals [of "VInt64 7" "VInt64 7" "''md5''"]
  by (simp add: tail4_def)

section \<open>Flattening\<close>

text \<open>The leaf of a nested map at a path.\<close>

fun leaf :: "gval \<Rightarrow> string list \<Rightarrow> gval option" where
  "leaf (VMap m) [] = None"
| "leaf v [] = Some v"
| "leaf (VMap m) (k # ks) = (case map_of m k of None \<Rightarrow> None | Some v \<Rightarrow> leaf v ks)"
| "leaf v (k # ks) = None"

fun clean_keys :: "gval \<Rightarrow> bool" where
  "clean_keys (VMap m) \<longleftrightarrow> distinct (map fst m) \<and>
     (\<forall>(k, v) \<in> set m. k \<noteq> [] \<and> CHR ''.'' \<notin> set k \<and> clean_keys v)"
| "clean_keys v \<longleftrightarrow> True"

definition dotted :: "string list \<Rightarrow> string" where
  "dotted ks = concat (map (\<lambda>k. CHR ''.'' # k) ks)"

lemma dotted_simps [simp]: "dotted [] = []" "dotted (k # ks) = CHR ''.'' # k @ dotted ks"
  by (simp_all add: dotted_def)

lemma join_dotted: "join_strings ''.'' (k # ks) = k @ dotted ks"
  by (induction ks arbitrary: k) auto

lemma dotted_inj:
  assumes "k @ dotted ks = l @ dotted ls"
    and "CHR ''.'' \<notin> set k" and "CHR ''.'' \<notin> set l"
    and "\<forall>x \<in> set ks. CHR ''.'' \<notin> set x" and "\<forall>x \<in> set ls. CHR ''.'' \<notin> set x"
  shows "k = l \<and> ks = ls"
  using assms
proof (induction ks arbitrary: k l ls)
  case Nil
  then show ?case by (cases ls) auto
next
  case step: (Cons a ks)
  show ?case
  proof (cases ls)
    case Nil
    with step.prems show ?thesis by auto
  next
    case (Cons b ls')
    then have "k @ CHR ''.'' # (a @ dotted ks) = l @ CHR ''.'' # (b @ dotted ls')"
      using step.prems(1) by simp
    then have eq: "k = l" "a @ dotted ks = b @ dotted ls'"
      using separator_unique [OF step.prems(2,3)] by blast+
    have "a = b \<and> ks = ls'"
      using step.prems(4,5) Cons by (intro step.IH [OF eq(2)]) auto
    with eq Cons show ?thesis by simp
  qed
qed

lemma flatten_entry_leaves:
  assumes "key \<noteq> []" and "clean_keys v"
  shows "(q, x) \<in> set (flatten_entry key v) \<longleftrightarrow> (\<exists>ks. leaf v ks = Some x \<and> q = key @ dotted ks)"
  using assms
proof (induction key v arbitrary: q rule: flatten_entry.induct)
  case (1 key m)
  have d: "distinct (map fst m)" using 1(3) by simp
  have "(q, x) \<in> set (flatten_entry key (VMap m)) \<longleftrightarrow>
      (\<exists>k v. (k, v) \<in> set m \<and> (q, x) \<in> set (flatten_entry (key @ CHR ''.'' # k) v))"
    using 1(2) by (auto simp: extend_key_def)
  also have "\<dots> \<longleftrightarrow> (\<exists>k v ks. (k, v) \<in> set m \<and> leaf v ks = Some x \<and> q = key @ dotted (k # ks))"
  proof -
    have "(q, x) \<in> set (flatten_entry (key @ CHR ''.'' # k) v) \<longleftrightarrow>
        (\<exists>ks. leaf v ks = Some x \<and> q = key @ dotted (k # ks))" if "(k, v) \<in> set m" for k v
      using 1(1) [of "(k, v)" k v q] that 1(2,3) by (auto simp: extend_key_def)
    then show ?thesis by blast
  qed
  also have "\<dots> \<longleftrightarrow> (\<exists>ks. leaf (VMap m) ks = Some x \<and> q = key @ dotted ks)"
  proof
    assume "\<exists>k v ks. (k, v) \<in> set m \<and> leaf v ks = Some x \<and> q = key @ dotted (k # ks)"
    then obtain k v ks where "(k, v) \<in> set m" "leaf v ks = Some x" "q = key @ dotted (k # ks)" by blast
    moreover from this have "leaf (VMap m) (k # ks) = Some x" using d by simp
    ultimately show "\<exists>ks. leaf (VMap m) ks = Some x \<and> q = key @ dotted ks" by blast
  next
    assume "\<exists>ks. leaf (VMap m) ks = Some x \<and> q = key @ dotted ks"
    then obtain ks where ks: "leaf (VMap m) ks = Some x" "q = key @ dotted ks" by blast
    then obtain k ks' v where "ks = k # ks'" "map_of m k = Some v" "leaf v ks' = Some x"
      by (cases ks) (auto split: option.splits)
    with ks show "\<exists>k v ks. (k, v) \<in> set m \<and> leaf v ks = Some x \<and> q = key @ dotted (k # ks)"
      by (blast dest: map_of_SomeD)
  qed
  finally show ?case .
qed (auto elim: leaf.elims intro: exI [of _ "[]"])

lemma leaf_keys: "leaf v ks = Some x \<Longrightarrow> clean_keys v \<Longrightarrow> \<forall>k \<in> set ks. CHR ''.'' \<notin> set k"
  by (induction v ks rule: leaf.induct) (fastforce split: option.splits dest!: map_of_SomeD)+

lemma flatten_assignments_leaves:
  assumes "clean_keys (VMap m)"
  shows "(q, x) \<in> set (flatten_assignments [] m) \<longleftrightarrow>
    (\<exists>ks. ks \<noteq> [] \<and> leaf (VMap m) ks = Some x \<and> q = join_strings ''.'' ks)"
proof -
  have entry: "(q, x) \<in> set (flatten_entry k v) \<longleftrightarrow> (\<exists>ks. leaf v ks = Some x \<and> q = k @ dotted ks)"
    if "map_of m k = Some v" for k v
    using assms map_of_SomeD [OF that] by (intro flatten_entry_leaves) auto
  have "(q, x) \<in> set (flatten_assignments [] m) \<longleftrightarrow>
      (\<exists>k v. (k, v) \<in> set m \<and> (q, x) \<in> set (flatten_entry k v))"
    by (auto simp: flatten_assignments_def extend_key_def)
  also have "\<dots> \<longleftrightarrow> (\<exists>k v. map_of m k = Some v \<and> (q, x) \<in> set (flatten_entry k v))"
    using assms by simp
  also have "\<dots> \<longleftrightarrow> (\<exists>k ks v. map_of m k = Some v \<and> leaf v ks = Some x \<and> q = k @ dotted ks)"
    using entry by blast
  also have "\<dots> \<longleftrightarrow> (\<exists>ks. ks \<noteq> [] \<and> leaf (VMap m) ks = Some x \<and> q = join_strings ''.'' ks)"
  proof
    assume "\<exists>k ks v. map_of m k = Some v \<and> leaf v ks = Some x \<and> q = k @ dotted ks"
    then obtain k ks v where "map_of m k = Some v" "leaf v ks = Some x" "q = k @ dotted ks" by blast
    then show "\<exists>ks. ks \<noteq> [] \<and> leaf (VMap m) ks = Some x \<and> q = join_strings ''.'' ks"
      by (intro exI [of _ "k # ks"]) (simp add: join_dotted del: join_strings.simps)
  next
    assume "\<exists>ks. ks \<noteq> [] \<and> leaf (VMap m) ks = Some x \<and> q = join_strings ''.'' ks"
    then obtain k ks where "leaf (VMap m) (k # ks) = Some x" "q = join_strings ''.'' (k # ks)"
      by (metis neq_Nil_conv)
    then show "\<exists>k ks v. map_of m k = Some v \<and> leaf v ks = Some x \<and> q = k @ dotted ks"
      by (auto simp: join_dotted simp del: join_strings.simps split: option.splits)
  qed
  finally show ?thesis .
qed

lemma foldl_map_set: "map_of (foldl (\<lambda>o' (k, v). map_set k v o') out as) = map_of out ++ map_of (rev as)"
proof (induction as arbitrary: out)
  case (Cons a as)
  obtain k v where "a = (k, v)" by (cases a)
  with Cons show ?case by (simp add: map_add_assoc fun_eq_iff map_add_def split: option.splits)
qed simp

text \<open>Flattening is exact: for a map whose keys at every level are non-empty and contain no
  dot, \<open>flatten_json\<close> maps a key to a value precisely when the key is the dotted path of a leaf
  that holds the value; no two leaves collide, whatever the iteration order.\<close>

theorem flatten_exact:
  assumes "clean_keys (VMap m)"
  shows "map_of (flatten_map [] m []) key = Some x \<longleftrightarrow>
    (\<exists>ks. ks \<noteq> [] \<and> leaf (VMap m) ks = Some x \<and> key = join_strings ''.'' ks)"
proof -
  let ?as = "flatten_assignments [] m"
  have functional: "x = y" if "(q, x) \<in> set ?as" "(q, y) \<in> set ?as" for q x y
  proof -
    from that obtain ks ls where p: "ks \<noteq> []" "leaf (VMap m) ks = Some x" "q = join_strings ''.'' ks"
      "ls \<noteq> []" "leaf (VMap m) ls = Some y" "q = join_strings ''.'' ls"
      using flatten_assignments_leaves [OF assms] by metis
    then obtain k ks' l ls' where c: "ks = k # ks'" "ls = l # ls'" by (metis neq_Nil_conv)
    have "k @ dotted ks' = l @ dotted ls'" using p c by (simp add: join_dotted del: join_strings.simps)
    then have "ks = ls" using dotted_inj [of k ks' l ls'] leaf_keys [OF p(2) assms] leaf_keys [OF p(5) assms] c by simp
    with p show ?thesis by simp
  qed
  have "map_of (rev ?as) key = Some x \<longleftrightarrow> (key, x) \<in> set ?as"
  proof
    assume "(key, x) \<in> set ?as"
    then obtain y where "map_of (rev ?as) key = Some y" by (metis set_rev weak_map_of_SomeI)
    moreover from this have "(key, y) \<in> set ?as" by (metis map_of_SomeD set_rev)
    ultimately show "map_of (rev ?as) key = Some x" using functional \<open>(key, x) \<in> set ?as\<close> by blast
  qed (metis map_of_SomeD set_rev)
  then show ?thesis
    using flatten_assignments_leaves [OF assms] by (simp add: flatten_map_def foldl_map_set)
qed

theorem flatten_exact_witness:
  "map_of (flatten_map [] [(''a'', VInt64 1), (''b'', VMap [(''c'', VBool True)])] []) ''b.c'' = Some (VBool True)"
proof -
  let ?m = "[(''a'', VInt64 1), (''b'', VMap [(''c'', VBool True)])]"
  have "clean_keys (VMap ?m)" by simp
  moreover have "leaf (VMap ?m) [''b'', ''c''] = Some (VBool True)" by simp
  moreover have "''b.c'' = join_strings ''.'' [''b'', ''c'']" by simp
  ultimately show ?thesis using flatten_exact [of ?m "''b.c''" "VBool True"] by blast
qed

section \<open>UUIDs\<close>

text \<open>\<open>string_to_uuid\<close> accepts exactly the strings with 32 hexadecimal digits once dashes are
  removed, and returns them unchanged; the positions and the number of the dashes are not checked.\<close>

theorem string_to_uuid_accepts:
  "apply_transform lib (VString s) ''string_to_uuid'' = Inr v \<longleftrightarrow>
     v = VString s \<and> length (filter (\<lambda>c. c \<noteq> CHR ''-'') s) = 32 \<and>
     list_all (\<lambda>c. c = CHR ''-'' \<or> is_hex_digit c) s"
proof -
  have "filter (\<lambda>c. \<not> is_hex_digit c) (filter (\<lambda>c. c \<noteq> CHR ''-'') s) = [] \<longleftrightarrow>
      list_all (\<lambda>c. c = CHR ''-'' \<or> is_hex_digit c) s"
    by (auto simp: filter_empty_conv list_all_iff)
  then show ?thesis
    by (cases "filter (\<lambda>c. \<not> is_hex_digit c) (filter (\<lambda>c. c \<noteq> CHR ''-'') s)")
      (auto simp: apply_transform_def Let_def)
qed

end
