(* ===== verification/Retry.thy ===== *)
theory Retry
  imports Errs Float64
begin

text \<open>
  \<open>internal/errs/retry.go\<close>: the retry loop and its backoff. A duration is its number of
  nanoseconds. The operation \<open>f\<close> acts on a state \<open>'s\<close>; \<open>done_first i\<close> says that the context ends
  during the wait before attempt \<open>i\<close>; \<open>rnd\<close> is \<open>rand.Float64()\<close>.
\<close>

record retry_policy =
  max_attempts :: int
  initial_interval :: int
  max_interval :: int
  multiplier :: rat
  jitter :: rat

definition default_retry :: retry_policy where
  "default_retry =
     \<lparr>max_attempts = 5, initial_interval = 100 * 1000000, max_interval = 30 * 1000000000,
      multiplier = 2, jitter = f64_round (2 / 10)\<rparr>"

section \<open>Backoff\<close>

text \<open>\<open>for i := 1; i < attempt; i++\<close>, leaving the loop at the cap.\<close>

fun backoff :: "retry_policy \<Rightarrow> nat \<Rightarrow> rat \<Rightarrow> rat" where
  "backoff p 0 x = x"
| "backoff p (Suc n) x =
     (let y = f64_round (x * multiplier p); cap = f64_round (of_int (max_interval p))
      in if cap < y then cap else backoff p n y)"

definition next_interval :: "retry_policy \<Rightarrow> rat \<Rightarrow> int \<Rightarrow> int" where
  "next_interval p rnd attempt =
     (if attempt \<le> 0 then 0
      else let interval = backoff p (nat (attempt - 1)) (f64_round (of_int (initial_interval p)))
        in trunc_rat
          (if 0 < jitter p
           then let range = f64_round (interval * jitter p);
                    low = f64_round (interval - f64_round (range / 2))
                in f64_round (low + f64_round (rnd * range))
           else interval))"

section \<open>The loop\<close>

text \<open>\<open>retry_loop\<close> has \<open>n\<close> attempts left, the next one is number \<open>i\<close>.\<close>

definition retry_failure :: "retry_policy \<Rightarrow> goerr option \<Rightarrow> goerr" where
  "retry_failure p last_err =
     (let s = ''operation failed after '' @ show_int (max_attempts p + 1) @ '' attempts''
      in case last_err of Some e \<Rightarrow> Wrapf s e | None \<Rightarrow> ErrMsg (s @ '': %!w(<nil>)''))"

fun retry_loop ::
  "retry_policy \<Rightarrow> (nat \<Rightarrow> bool) \<Rightarrow> ('s \<Rightarrow> goerr option \<times> 's) \<Rightarrow> nat \<Rightarrow> nat \<Rightarrow> goerr option \<Rightarrow> 's
   \<Rightarrow> goerr option \<times> 's" where
  "retry_loop p done_first f 0 i last_err s = (Some (retry_failure p last_err), s)"
| "retry_loop p done_first f (Suc n) i last_err s =
     (if 0 < i \<and> done_first i then (Some (Sentinel ContextCanceled), s)
      else case f s of
             (None, s') \<Rightarrow> (None, s')
           | (Some e, s') \<Rightarrow>
               if is_fatal (Some e) then (Some e, s')
               else retry_loop p done_first f n (Suc i) (Some e) s')"

definition retry_do ::
  "retry_policy \<Rightarrow> (nat \<Rightarrow> bool) \<Rightarrow> ('s \<Rightarrow> goerr option \<times> 's) \<Rightarrow> 's \<Rightarrow> goerr option \<times> 's" where
  "retry_do p done_first f s = retry_loop p done_first f (nat (max_attempts p + 1)) 0 None s"

section \<open>Properties\<close>

text \<open>An operation whose \<open>i\<close>th call returns \<open>outs i\<close>; its state counts the calls.\<close>

definition scripted :: "(nat \<Rightarrow> goerr option) \<Rightarrow> nat \<Rightarrow> goerr option \<times> nat" where
  "scripted outs i = (outs i, Suc i)"

definition settles :: "(nat \<Rightarrow> goerr option) \<Rightarrow> nat \<Rightarrow> bool" where
  "settles outs i \<longleftrightarrow> outs i = None \<or> is_fatal (outs i)"

lemma retry_loop_settles:
  assumes "settles outs k" and "i \<le> k" and "k < i + n"
    and "\<forall>j. i \<le> j \<and> j < k \<longrightarrow> \<not> settles outs j"
    and "\<forall>j. i \<le> j \<and> j \<le> k \<and> 0 < j \<longrightarrow> \<not> done_first j"
  shows "retry_loop p done_first (scripted outs) n i last_err i = (outs k, Suc k)"
  using assms
proof (induction n arbitrary: i last_err)
  case (Suc n)
  show ?case
  proof (cases "i = k")
    case True
    with Suc.prems show ?thesis by (auto simp: scripted_def settles_def split: option.splits)
  next
    case False
    with Suc.prems have "\<not> settles outs i" "\<not> (0 < i \<and> done_first i)" by auto
    moreover have "retry_loop p done_first (scripted outs) n (Suc i) l (Suc i) = (outs k, Suc k)" for l
      using Suc.prems False by (intro Suc.IH) auto
    ultimately show ?thesis by (auto simp: scripted_def [of outs i] settles_def)
  qed
qed simp

lemma retry_loop_exhausted:
  assumes "\<forall>j. i \<le> j \<and> j < i + n \<longrightarrow> \<not> settles outs j \<and> (0 < j \<longrightarrow> \<not> done_first j)"
  shows "retry_loop p done_first (scripted outs) n i last_err i =
    (Some (retry_failure p (if n = 0 then last_err else outs (i + n - 1))), i + n)"
  using assms
proof (induction n arbitrary: i last_err)
  case (Suc n)
  then have "\<not> settles outs i" "\<not> (0 < i \<and> done_first i)" by auto
  moreover have "retry_loop p done_first (scripted outs) n (Suc i) l (Suc i) =
      (Some (retry_failure p (if n = 0 then l else outs (Suc i + n - 1))), Suc i + n)" for l
    using Suc.prems by (intro Suc.IH) auto
  ultimately show ?case by (auto simp: scripted_def [of outs i] settles_def)
qed simp

lemma retry_loop_cancelled:
  assumes "done_first k" and "0 < k" and "i \<le> k" and "k < i + n"
    and "\<forall>j. i \<le> j \<and> j < k \<longrightarrow> \<not> settles outs j \<and> (0 < j \<longrightarrow> \<not> done_first j)"
  shows "retry_loop p done_first (scripted outs) n i last_err i = (Some (Sentinel ContextCanceled), k)"
  using assms
proof (induction n arbitrary: i last_err)
  case (Suc n)
  show ?case
  proof (cases "i = k")
    case True
    with Suc.prems show ?thesis by simp
  next
    case False
    with Suc.prems have "\<not> settles outs i" "\<not> (0 < i \<and> done_first i)" by auto
    moreover have "retry_loop p done_first (scripted outs) n (Suc i) l (Suc i) = (Some (Sentinel ContextCanceled), k)" for l
      using Suc.prems False by (intro Suc.IH) auto
    ultimately show ?thesis by (auto simp: scripted_def [of outs i] settles_def)
  qed
qed simp

text \<open>C35: the retry loop, for a policy with \<open>MaxAttempts\<close> = \<open>n\<close> >= 0. If call \<open>k\<close> <= \<open>n\<close> is the
  first that succeeds or fails fatally and no wait before it is cut short, \<open>Do\<close> returns that
  outcome after \<open>k + 1\<close> calls; if the context ends first, before call \<open>k\<close>, \<open>Do\<close> returns its error
  after \<open>k\<close> calls; if neither happens, it makes exactly \<open>n + 1\<close> calls and wraps the last error.\<close>

theorem retry_do_outcome:
  assumes "max_attempts p = int n"
    and "\<forall>j < k. \<not> settles outs j \<and> (0 < j \<longrightarrow> \<not> done_first j)"
  shows "(k \<le> n \<and> settles outs k \<and> (0 < k \<longrightarrow> \<not> done_first k) \<longrightarrow>
            retry_do p done_first (scripted outs) 0 = (outs k, Suc k)) \<and>
         (0 < k \<and> k \<le> n \<and> done_first k \<longrightarrow>
            retry_do p done_first (scripted outs) 0 = (Some (Sentinel ContextCanceled), k)) \<and>
         (k = Suc n \<longrightarrow>
            (\<exists>s. retry_do p done_first (scripted outs) 0 = (Some (Wrapf s (the (outs n))), Suc n)))"
proof -
  have n: "nat (max_attempts p + 1) = Suc n" using assms(1) by simp
  have "retry_do p done_first (scripted outs) 0 = (outs k, Suc k)"
    if "k \<le> n" "settles outs k" "0 < k \<longrightarrow> \<not> done_first k"
    unfolding retry_do_def n using that assms(2) by (intro retry_loop_settles) (auto simp: le_less)
  moreover have "retry_do p done_first (scripted outs) 0 = (Some (Sentinel ContextCanceled), k)"
    if "0 < k" "k \<le> n" "done_first k"
    unfolding retry_do_def n using that assms(2) by (intro retry_loop_cancelled) auto
  moreover have "\<exists>s. retry_do p done_first (scripted outs) 0 = (Some (Wrapf s (the (outs n))), Suc n)"
    if "k = Suc n"
  proof -
    have "retry_do p done_first (scripted outs) 0 = (Some (retry_failure p (outs n)), Suc n)"
      unfolding retry_do_def n
      using retry_loop_exhausted [of 0 "Suc n" outs done_first p None] that assms(2) by simp
    moreover have "outs n \<noteq> None" using assms(2) that by (auto simp: settles_def)
    ultimately show ?thesis by (auto simp: retry_failure_def Let_def)
  qed
  ultimately show ?thesis by blast
qed

theorem retry_do_outcome_witness:
  "retry_do default_retry (\<lambda>i. False)
     (scripted (\<lambda>i. if i < 2 then Some (TransientError (ErrMsg ''busy'')) else None)) 0 = (None, 3)"
proof -
  let ?outs = "\<lambda>i. if i < 2 then Some (TransientError (ErrMsg ''busy'')) else None"
  have "max_attempts default_retry = int 5" by (simp add: default_retry_def)
  moreover have "\<forall>j < 2. \<not> settles ?outs j \<and> (0 < j \<longrightarrow> \<not> False)"
    by (simp add: settles_def is_fatal_def errors_as_def)
  moreover have "settles ?outs 2" by (simp add: settles_def)
  ultimately show ?thesis using retry_do_outcome [of default_retry 5 2 ?outs "\<lambda>i. False"] by simp
qed

lemma backoff_capped:
  "x \<le> f64_round (of_int (max_interval p)) \<Longrightarrow> backoff p n x \<le> f64_round (of_int (max_interval p))"
  by (induction n arbitrary: x) (simp_all add: Let_def)

lemma trunc_rat_le: "x \<le> of_int m \<Longrightarrow> trunc_rat x \<le> m"
  unfolding trunc_rat_def by (auto simp: floor_le_iff ceiling_le_iff)

text \<open>Without jitter, every wait from the second retry on is at most \<open>MaxInterval\<close>.\<close>

theorem backoff_respects_cap:
  assumes "jitter p \<le> 0" and "2 \<le> attempt" and "\<bar>max_interval p\<bar> \<le> 2 ^ 53"
  shows "next_interval p rnd attempt \<le> max_interval p"
proof -
  obtain n where n: "nat (attempt - 1) = Suc n" using assms(2) by (cases "nat (attempt - 1)") auto
  have cap: "f64_round (of_int (max_interval p)) = of_int (max_interval p)"
    using assms(3) by (rule f64_round_int)
  have "backoff p (Suc n) x \<le> of_int (max_interval p)" for x
    using backoff_capped [of "f64_round (x * multiplier p)" p n] by (auto simp: cap Let_def)
  then have "trunc_rat (backoff p (Suc n) x) \<le> max_interval p" for x by (intro trunc_rat_le)
  then show ?thesis using assms(1,2) unfolding next_interval_def n
    by (simp add: Let_def del: backoff.simps)
qed

theorem backoff_respects_cap_witness:
  "next_interval (default_retry\<lparr>jitter := 0\<rparr>) 0 9 \<le> 30000000000"
  using backoff_respects_cap [of "default_retry\<lparr>jitter := 0\<rparr>" 9 0] by (simp add: default_retry_def)

lemma f64_numeral [simp]: "(numeral k :: int) \<le> 2 ^ 53 \<Longrightarrow> f64_round (numeral k) = numeral k"
  using f64_round_int [of "numeral k"] by simp

text \<open>\<open>MaxInterval\<close>, documented as the maximum possible wait, is not one: the first retry waits
  \<open>InitialInterval\<close> whatever the maximum, and jitter is added after capping.\<close>

theorem wait_can_exceed_maximum:
  "next_interval \<lparr>max_attempts = 3, initial_interval = 10, max_interval = 5, multiplier = 2, jitter = 0\<rparr> r 1 = 10 \<and>
   next_interval \<lparr>max_attempts = 3, initial_interval = 64, max_interval = 64, multiplier = 2, jitter = 1 / 2\<rparr>
     (3 / 4) 2 = 72"
  by (simp add: next_interval_def trunc_rat_def numeral_2_eq_2 [symmetric])

end
