(* ===== verification/Circuit_Breaker.thy ===== *)
theory Circuit_Breaker
  imports Errs
begin

text \<open>
  \<open>internal/errs/circuit_breaker.go\<close>. The breaker is a record; \<open>allow\<close>, \<open>recordFailure\<close> and
  \<open>recordSuccess\<close> are its atomic operations (each runs under \<open>cb.mu\<close>), and \<open>Execute\<close> composes
  them around the protected call. Times are nanoseconds of one monotonic clock, passed in
  where the code reads \<open>time.Now\<close> or \<open>time.Since\<close>. The second half is the concurrent system: many
  goroutines call \<open>Execute\<close> on one breaker, and \<open>allow\<close>, the end of the call and the clock
  interleave.
\<close>

section \<open>State and operations\<close>

datatype cb_mode = StateClosed | StateOpen | StateHalfOpen

record circuit_breaker =
  cb_state :: cb_mode
  cb_failures :: int
  cb_threshold :: int
  cb_timeout :: int
  cb_last_failure :: int
  cb_trial_in_flight :: bool

definition new_circuit_breaker :: "int \<Rightarrow> int \<Rightarrow> circuit_breaker" where
  "new_circuit_breaker threshold timeout =
     \<lparr>cb_state = StateClosed, cb_failures = 0, cb_threshold = threshold, cb_timeout = timeout,
      cb_last_failure = 0, cb_trial_in_flight = False\<rparr>"

definition current_state :: "circuit_breaker \<Rightarrow> cb_mode" where
  "current_state cb = cb_state cb"

definition allow :: "int \<Rightarrow> circuit_breaker \<Rightarrow> bool \<times> circuit_breaker" where
  "allow now cb =
     (case cb_state cb of
        StateClosed \<Rightarrow> (True, cb)
      | StateOpen \<Rightarrow>
          if now - cb_last_failure cb > cb_timeout cb
          then (True, cb\<lparr>cb_state := StateHalfOpen, cb_trial_in_flight := True\<rparr>)
          else (False, cb)
      | StateHalfOpen \<Rightarrow>
          if cb_trial_in_flight cb then (False, cb)
          else (True, cb\<lparr>cb_trial_in_flight := True\<rparr>))"

definition record_failure :: "int \<Rightarrow> circuit_breaker \<Rightarrow> circuit_breaker" where
  "record_failure now cb =
     (let cb1 = cb\<lparr>cb_failures := cb_failures cb + 1, cb_last_failure := now,
                   cb_trial_in_flight := False\<rparr>
      in if cb_state cb1 = StateHalfOpen \<or> cb_failures cb1 \<ge> cb_threshold cb1
         then cb1\<lparr>cb_state := StateOpen\<rparr> else cb1)"

definition record_success :: "circuit_breaker \<Rightarrow> circuit_breaker" where
  "record_success cb =
     cb\<lparr>cb_failures := 0, cb_trial_in_flight := False, cb_state := StateClosed\<rparr>"

text \<open>
  \<open>Execute\<close>, with the protected function as a state transformer on the world \<open>'s\<close>; \<open>t0\<close> is the
  time at which \<open>allow\<close> runs and \<open>t1\<close> the time at which the call ends.
\<close>

definition execute ::
  "int \<Rightarrow> int \<Rightarrow> ('s \<Rightarrow> goerr option \<times> 's) \<Rightarrow> circuit_breaker \<Rightarrow> 's
   \<Rightarrow> goerr option \<times> circuit_breaker \<times> 's" where
  "execute t0 t1 f cb s =
     (let (ok, cb1) = allow t0 cb in
      if \<not> ok then (Some (Sentinel ErrCircuitOpen), cb1, s)
      else let (err, s') = f s in
        case err of
          Some e \<Rightarrow> (Some e, record_failure t1 cb1, s')
        | None \<Rightarrow> (None, record_success cb1, s'))"

lemmas cb_ops = allow_def record_failure_def record_success_def Let_def

text \<open>One caller issuing several calls in a row, each starting when the last has ended.\<close>

fun execute_all ::
  "(int \<times> int \<times> ('s \<Rightarrow> goerr option \<times> 's)) list \<Rightarrow> circuit_breaker \<Rightarrow> 's
   \<Rightarrow> goerr option list \<times> circuit_breaker \<times> 's" where
  "execute_all [] cb s = ([], cb, s)"
| "execute_all ((t0, t1, f) # calls) cb s =
     (let (r, cb1, s1) = execute t0 t1 f cb s;
          (rs, cb2, s2) = execute_all calls cb1 s1
      in (r # rs, cb2, s2))"

section \<open>The invariant of a breaker\<close>

text \<open>
  What ties the fields together: the trial flag is up exactly in the half-open state, and a
  breaker that is not closed has reached its threshold.
\<close>

definition cb_inv :: "circuit_breaker \<Rightarrow> bool" where
  "cb_inv cb \<longleftrightarrow>
     (cb_trial_in_flight cb \<longleftrightarrow> cb_state cb = StateHalfOpen) \<and>
     0 \<le> cb_failures cb \<and>
     (cb_state cb \<noteq> StateClosed \<longrightarrow> cb_threshold cb \<le> cb_failures cb) \<and>
     (cb_state cb = StateClosed \<longrightarrow> cb_failures cb = 0 \<or> cb_failures cb < cb_threshold cb)"

lemma new_cb_inv: "cb_inv (new_circuit_breaker k t)"
  by (simp add: cb_inv_def new_circuit_breaker_def)

lemma allow_inv: "cb_inv cb \<Longrightarrow> cb_inv (snd (allow now cb))"
  by (cases "cb_state cb") (auto simp: cb_inv_def cb_ops)

lemma record_failure_inv: "cb_inv cb \<Longrightarrow> cb_inv (record_failure now cb)"
  by (cases "cb_state cb") (auto simp: cb_inv_def cb_ops)

lemma record_success_inv: "cb_inv cb \<Longrightarrow> cb_inv (record_success cb)"
  by (simp add: cb_inv_def cb_ops)

lemmas cb_inv_intros = new_cb_inv allow_inv record_failure_inv record_success_inv

lemma execute_inv: "cb_inv cb \<Longrightarrow> cb_inv (fst (snd (execute t0 t1 f cb s)))"
  by (auto simp: execute_def Let_def split: prod.splits option.splits
      intro!: record_failure_inv record_success_inv dest: allow_inv [of cb t0])

lemma allow_static:
  "cb_threshold (snd (allow now cb)) = cb_threshold cb"
  "cb_timeout (snd (allow now cb)) = cb_timeout cb"
  by (simp_all add: allow_def split: cb_mode.splits)

section \<open>Sequential behaviour\<close>

text \<open>An open breaker fails fast: until more than the timeout has passed since the last
  failure, \<open>Execute\<close> returns \<open>ErrCircuitOpen\<close>, does not run the protected call (the
  world is unchanged) and does not change the breaker.\<close>

theorem open_breaker_fails_fast:
  assumes "current_state cb = StateOpen"
    and "now - cb_last_failure cb \<le> cb_timeout cb"
  shows "execute now t1 f cb s = (Some (Sentinel ErrCircuitOpen), cb, s)"
  using assms by (simp add: execute_def allow_def current_state_def)

theorem open_breaker_fails_fast_witness:
  "execute 5 6 (\<lambda>s. (None, s + 1)) (record_failure 0 (new_circuit_breaker 1 10)) (7 :: nat) =
     (Some (Sentinel ErrCircuitOpen), record_failure 0 (new_circuit_breaker 1 10), 7)"
  by (rule open_breaker_fails_fast)
    (simp_all add: current_state_def cb_ops new_circuit_breaker_def)

lemma execute_failure_closed:
  assumes "cb_state cb = StateClosed" and "f s = (Some e, s')"
  shows "execute t0 t1 f cb s = (Some e, record_failure t1 cb, s')"
  using assms by (simp add: execute_def allow_def)

lemma consecutive_failures:
  assumes "cb_state cb = StateClosed"
    and "\<forall>(t0, t1, f) \<in> set calls. \<forall>s. \<exists>e s'. f s = (Some e, s')"
    and "cb_failures cb + int (length calls) < cb_threshold cb"
  shows "\<exists>rs cb' s'. execute_all calls cb s = (rs, cb', s') \<and> cb_state cb' = StateClosed \<and>
           cb_failures cb' = cb_failures cb + int (length calls) \<and>
           cb_threshold cb' = cb_threshold cb \<and> None \<notin> set rs"
  using assms
proof (induction calls arbitrary: cb s)
  case Nil
  then show ?case by simp
next
  case (Cons c calls)
  obtain t0 t1 f where c: "c = (t0, t1, f)" by (cases c) auto
  from Cons.prems(2) c obtain e s1 where f: "f s = (Some e, s1)" by fastforce
  let ?cb = "record_failure t1 cb"
  have ex: "execute t0 t1 f cb s = (Some e, ?cb, s1)"
    using Cons.prems(1) f by (rule execute_failure_closed)
  have cb1: "cb_state ?cb = StateClosed" "cb_failures ?cb = cb_failures cb + 1"
    "cb_threshold ?cb = cb_threshold cb"
    using Cons.prems(1,3) by (simp_all add: cb_ops)
  then obtain rs cb' s' where "execute_all calls ?cb s1 = (rs, cb', s')"
    "cb_state cb' = StateClosed" "cb_failures cb' = cb_failures ?cb + int (length calls)"
    "cb_threshold cb' = cb_threshold ?cb" "None \<notin> set rs"
    using Cons.IH [of ?cb s1] Cons.prems(2,3) by auto
  then show ?case using c ex cb1 by simp
qed

text \<open>A fresh breaker with a positive threshold trips exactly at the threshold: after
  \<open>threshold - 1\<close> failing calls it is still closed (each call was let through and returned its
  own error), and the next failing call opens it and stamps the failure time.\<close>

theorem breaker_trips_at_threshold:
  assumes "1 \<le> k" and "int (length calls) = k - 1"
    and "\<forall>(t0, t1, f) \<in> set calls. \<forall>s. \<exists>e s'. f s = (Some e, s')"
    and "\<And>s. g s = (Some err, s)"
  shows "\<exists>rs cb s'. execute_all calls (new_circuit_breaker k timeout) s = (rs, cb, s') \<and>
           current_state cb = StateClosed \<and> None \<notin> set rs \<and>
           (\<exists>cb'. execute t0 t1 g cb s' = (Some err, cb', s') \<and>
              current_state cb' = StateOpen \<and> cb_last_failure cb' = t1 \<and> cb_failures cb' = k)"
proof -
  let ?n = "new_circuit_breaker k timeout"
  have "cb_state ?n = StateClosed" "cb_failures ?n = 0" "cb_threshold ?n = k"
    by (simp_all add: new_circuit_breaker_def)
  with consecutive_failures [of ?n calls s] assms(2,3) obtain rs cb s' where
    run: "execute_all calls ?n s = (rs, cb, s')" "cb_state cb = StateClosed"
      "cb_failures cb = k - 1" "cb_threshold cb = k" "None \<notin> set rs"
    by auto
  have "execute t0 t1 g cb s' = (Some err, record_failure t1 cb, s')"
    using run(2) assms(4) by (rule execute_failure_closed)
  moreover have "cb_state (record_failure t1 cb) = StateOpen"
    "cb_last_failure (record_failure t1 cb) = t1" "cb_failures (record_failure t1 cb) = k"
    using run by (simp_all add: cb_ops)
  ultimately show ?thesis using run by (simp add: current_state_def)
qed

theorem breaker_trips_at_threshold_witness:
  "\<exists>rs cb s'. execute_all [(0, 1, \<lambda>s. (Some (ErrMsg ''x''), s))] (new_circuit_breaker 2 10) (0 :: nat)
       = (rs, cb, s') \<and> current_state cb = StateClosed \<and> None \<notin> set rs \<and>
     (\<exists>cb'. execute 2 3 (\<lambda>s. (Some (ErrMsg ''y''), s)) cb s' = (Some (ErrMsg ''y''), cb', s') \<and>
        current_state cb' = StateOpen \<and> cb_last_failure cb' = 3 \<and> cb_failures cb' = 2)"
  by (rule breaker_trips_at_threshold) simp_all

text \<open>Recovery: once the timeout has passed, an open breaker lets one trial call
  through; success closes it with the failure count reset, failure opens it again with a fresh
  failure time. Either way no trial is left in flight.\<close>

theorem breaker_recovery:
  assumes "cb_inv cb" and "current_state cb = StateOpen"
    and "t0 - cb_last_failure cb > cb_timeout cb" and "f s = (r, s')"
  shows "\<exists>cb'. execute t0 t1 f cb s = (r, cb', s') \<and> cb_inv cb' \<and> \<not> cb_trial_in_flight cb' \<and>
           (case r of
              None \<Rightarrow> current_state cb' = StateClosed \<and> cb_failures cb' = 0
            | Some e \<Rightarrow> current_state cb' = StateOpen \<and> cb_last_failure cb' = t1 \<and>
                cb_failures cb' = cb_failures cb + 1)"
proof -
  have "cb_inv (fst (snd (execute t0 t1 f cb s)))" using assms(1) by (rule execute_inv)
  then show ?thesis using assms(2-4)
    by (auto simp: execute_def cb_ops current_state_def split: option.splits)
qed

theorem breaker_recovery_witness:
  "\<exists>cb'. execute 20 21 (\<lambda>s. (None, s)) (record_failure 0 (new_circuit_breaker 1 10)) (7 :: nat)
       = (None, cb', 7) \<and> cb_inv cb' \<and> \<not> cb_trial_in_flight cb' \<and>
     (case (None :: goerr option) of
        None \<Rightarrow> current_state cb' = StateClosed \<and> cb_failures cb' = 0
      | Some e \<Rightarrow> current_state cb' = StateOpen \<and> cb_last_failure cb' = 21 \<and>
          cb_failures cb' = cb_failures (record_failure 0 (new_circuit_breaker 1 10)) + 1)"
  by (rule breaker_recovery)
    (simp_all add: cb_inv_def current_state_def cb_ops new_circuit_breaker_def)

section \<open>Many callers on one breaker\<close>

text \<open>
  The calls that \<open>allow\<close> has let through and that have not ended are in flight, each tagged
  with how it was admitted: \<open>Normal\<close> in the closed state, \<open>Trial\<close> otherwise.
\<close>

datatype admission = Normal | Trial

record cb_system =
  breaker :: circuit_breaker
  clock :: int
  inflight :: "admission list"

definition admitted_as :: "circuit_breaker \<Rightarrow> admission" where
  "admitted_as cb = (if cb_state cb = StateClosed then Normal else Trial)"

inductive cb_step :: "cb_system \<Rightarrow> cb_system \<Rightarrow> bool" where
  cb_admit: "allow (clock s) (breaker s) = (True, cb') \<Longrightarrow>
     cb_step s (s\<lparr>breaker := cb', inflight := admitted_as (breaker s) # inflight s\<rparr>)"
| cb_reject: "allow (clock s) (breaker s) = (False, cb') \<Longrightarrow> cb_step s (s\<lparr>breaker := cb'\<rparr>)"
| cb_fail: "a \<in> set (inflight s) \<Longrightarrow>
     cb_step s (s\<lparr>breaker := record_failure (clock s) (breaker s), inflight := remove1 a (inflight s)\<rparr>)"
| cb_succeed: "a \<in> set (inflight s) \<Longrightarrow>
     cb_step s (s\<lparr>breaker := record_success (breaker s), inflight := remove1 a (inflight s)\<rparr>)"
| cb_tick: "0 \<le> d \<Longrightarrow> cb_step s (s\<lparr>clock := clock s + d\<rparr>)"

inductive cb_reachable :: "int \<Rightarrow> int \<Rightarrow> cb_system \<Rightarrow> bool" for k :: int and timeout :: int where
  cb_start: "cb_reachable k timeout
     \<lparr>breaker = new_circuit_breaker k timeout, clock = 0, inflight = []\<rparr>"
| cb_next: "cb_reachable k timeout s \<Longrightarrow> cb_step s t \<Longrightarrow> cb_reachable k timeout t"

inductive_cases cb_stepE: "cb_step s t"

lemma allow_inv_eq: "allow now cb = (b, cb') \<Longrightarrow> cb_inv cb \<Longrightarrow> cb_inv cb'"
  by (metis allow_inv snd_conv)

lemma cb_step_inv: "cb_step s t \<Longrightarrow> cb_inv (breaker s) \<Longrightarrow> cb_inv (breaker t)"
  by (induction rule: cb_step.induct)
    (simp_all add: allow_inv_eq record_failure_inv record_success_inv)

lemma cb_reachable_inv: "cb_reachable k timeout s \<Longrightarrow> cb_inv (breaker s)"
  by (induction rule: cb_reachable.induct) (auto simp: new_cb_inv intro: cb_step_inv)

text \<open>C31: under any interleaving of callers, the trial flag is up exactly while the breaker
  is half-open. So a half-open breaker rejects every other caller (the branch of \<open>allow\<close> that
  admits a caller in the half-open state is never taken), and a breaker that is not closed has
  counted at least \<open>threshold\<close> failures.\<close>

theorem half_open_admits_nobody_else:
  assumes "cb_reachable k timeout s"
  shows "(cb_trial_in_flight (breaker s) \<longleftrightarrow> current_state (breaker s) = StateHalfOpen) \<and>
    (current_state (breaker s) = StateHalfOpen \<longrightarrow> allow now (breaker s) = (False, breaker s)) \<and>
    (current_state (breaker s) \<noteq> StateClosed \<longrightarrow>
       cb_threshold (breaker s) \<le> cb_failures (breaker s))"
  using cb_reachable_inv [OF assms] by (simp add: cb_inv_def allow_def current_state_def)

theorem half_open_admits_nobody_else_witness:
  "\<exists>s. cb_reachable 1 10 s \<and> allow 0 (breaker s) = (True, breaker s) \<and>
     (cb_trial_in_flight (breaker s) \<longleftrightarrow> current_state (breaker s) = StateHalfOpen)"
proof -
  let ?s = "\<lparr>breaker = new_circuit_breaker 1 10, clock = 0, inflight = []\<rparr>"
  have r: "cb_reachable 1 10 ?s" by (rule cb_start)
  have "allow 0 (breaker ?s) = (True, breaker ?s)"
    by (simp add: allow_def new_circuit_breaker_def)
  with r half_open_admits_nobody_else [OF r] show ?thesis by blast
qed

text \<open>
  The flag does not bound the number of trials, though: a call admitted while the breaker was
  closed may end late, and its failure re-opens the breaker and lowers the flag while a trial is
  still running, so that a second trial starts beside the first.
\<close>

definition trials_in_flight :: "cb_system \<Rightarrow> nat" where
  "trials_in_flight s = length (filter (\<lambda>a. a = Trial) (inflight s))"

text \<open>The documented "single trial request" of the half-open state does not hold under
  concurrency: with threshold 1, a stale failure of a call admitted earlier leads to a reachable
  state with two trial calls in flight at once.\<close>

theorem two_trials_reachable: "\<exists>s. cb_reachable 1 10 s \<and> trials_in_flight s = 2"
proof -
  define b0 where "b0 = new_circuit_breaker 1 10"
  define b1 where "b1 = record_failure 0 b0"
  define b2 where "b2 = b1\<lparr>cb_state := StateHalfOpen, cb_trial_in_flight := True\<rparr>"
  define b3 where "b3 = record_failure 11 b2"
  define b4 where "b4 = b3\<lparr>cb_state := StateHalfOpen, cb_trial_in_flight := True\<rparr>"
  note bs = b0_def b1_def b2_def b3_def b4_def new_circuit_breaker_def cb_ops admitted_as_def
  have s0: "cb_reachable 1 10 \<lparr>breaker = b0, clock = 0, inflight = []\<rparr>"
    unfolding b0_def by (rule cb_start)
  have s1: "cb_reachable 1 10 \<lparr>breaker = b0, clock = 0, inflight = [Normal]\<rparr>"
    by (rule cb_next [OF s0]) (use cb_admit [of "\<lparr>breaker = b0, clock = 0, inflight = []\<rparr>" b0] in \<open>simp add: bs\<close>)
  have s2: "cb_reachable 1 10 \<lparr>breaker = b0, clock = 0, inflight = [Normal, Normal]\<rparr>"
    by (rule cb_next [OF s1]) (use cb_admit [of "\<lparr>breaker = b0, clock = 0, inflight = [Normal]\<rparr>" b0] in \<open>simp add: bs\<close>)
  have s3: "cb_reachable 1 10 \<lparr>breaker = b1, clock = 0, inflight = [Normal]\<rparr>"
    by (rule cb_next [OF s2])
      (use cb_fail [of Normal "\<lparr>breaker = b0, clock = 0, inflight = [Normal, Normal]\<rparr>"] in \<open>simp add: b1_def\<close>)
  have s4: "cb_reachable 1 10 \<lparr>breaker = b1, clock = 11, inflight = [Normal]\<rparr>"
    by (rule cb_next [OF s3]) (use cb_tick [of 11 "\<lparr>breaker = b1, clock = 0, inflight = [Normal]\<rparr>"] in simp)
  have s5: "cb_reachable 1 10 \<lparr>breaker = b2, clock = 11, inflight = [Trial, Normal]\<rparr>"
    by (rule cb_next [OF s4]) (use cb_admit [of "\<lparr>breaker = b1, clock = 11, inflight = [Normal]\<rparr>" b2] in \<open>simp add: bs\<close>)
  have s6: "cb_reachable 1 10 \<lparr>breaker = b3, clock = 11, inflight = [Trial]\<rparr>"
    by (rule cb_next [OF s5])
      (use cb_fail [of Normal "\<lparr>breaker = b2, clock = 11, inflight = [Trial, Normal]\<rparr>"] in \<open>simp add: b3_def\<close>)
  have s7: "cb_reachable 1 10 \<lparr>breaker = b3, clock = 22, inflight = [Trial]\<rparr>"
    by (rule cb_next [OF s6]) (use cb_tick [of 11 "\<lparr>breaker = b3, clock = 11, inflight = [Trial]\<rparr>"] in simp)
  have s8: "cb_reachable 1 10 \<lparr>breaker = b4, clock = 22, inflight = [Trial, Trial]\<rparr>"
    by (rule cb_next [OF s7]) (use cb_admit [of "\<lparr>breaker = b3, clock = 22, inflight = [Trial]\<rparr>" b4] in \<open>simp add: bs\<close>)
  then show ?thesis by (intro exI conjI) (assumption, simp add: trials_in_flight_def)
qed

end
