(* ===== verification/Storage.thy ===== *)
theory Storage
  imports Errs Fmt
begin

text \<open>
  \<open>internal/storage\<close>: the \<open>Storage\<close> interface and its three implementations. Paths are Unix paths.
  The local file system is a state with the regular files and the directories that exist, and the
  answers its device gives to writes (symbolic links are not modelled); an object store is reached
  through the client of its SDK, which is a parameter.
\<close>

section \<open>The interface\<close>

record ('s, 'x) storage_ops =
  st_put :: "'s \<Rightarrow> string \<Rightarrow> 'x \<Rightarrow> 's result"
  st_get :: "'s \<Rightarrow> string \<Rightarrow> 'x result"
  st_list :: "'s \<Rightarrow> string \<Rightarrow> string list result"
  st_delete :: "'s \<Rightarrow> string \<Rightarrow> 's result"
  st_exists :: "'s \<Rightarrow> string \<Rightarrow> bool result"

text \<open>A plain name is one path component, which no implementation rewrites or refuses.\<close>

definition plain :: "string \<Rightarrow> bool" where
  "plain p \<longleftrightarrow> p \<noteq> [] \<and> CHR ''/'' \<notin> set p \<and> p \<noteq> ''.'' \<and> \<not> has_prefix p ''..''"

locale blob_store =
  fixes ops :: "('s, 'x) storage_ops"
  assumes put_get: "plain p \<Longrightarrow> st_put ops s p x = Inr s' \<Longrightarrow> st_get ops s' p = Inr x"
    and put_frame: "plain p \<Longrightarrow> plain q \<Longrightarrow> p \<noteq> q \<Longrightarrow> st_put ops s p x = Inr s' \<Longrightarrow>
      st_get ops s' q = st_get ops s q"
begin

text \<open>What was stored under several plain names stays readable after later writes to others.\<close>

lemma put_keeps:
  assumes "plain p" and "plain q" and "p \<noteq> q" and "st_put ops s p x = Inr s'" and "st_get ops s q = Inr y"
  shows "st_get ops s' q = Inr y"
  using put_frame [OF assms(1-4)] assms(5) by simp

end

section \<open>Paths\<close>

fun split_on :: "char \<Rightarrow> string \<Rightarrow> string list" where
  "split_on c [] = [[]]"
| "split_on c (x # xs) =
     (if x = c then [] # split_on c xs
      else case split_on c xs of [] \<Rightarrow> [[x]] | w # ws \<Rightarrow> (x # w) # ws)"

text \<open>\<open>filepath.Clean\<close> of a rooted path, component by component.\<close>

definition clean_step :: "string list \<Rightarrow> string \<Rightarrow> string list" where
  "clean_step st c =
     (if c = [] \<or> c = ''.'' then st else if c = ''..'' then butlast st else st @ [c])"

definition clean_from :: "string list \<Rightarrow> string \<Rightarrow> string list" where
  "clean_from st path = foldl clean_step st (split_on (CHR ''/'') path)"

definition abs_text :: "string list \<Rightarrow> string" where
  "abs_text cs = ''/'' @ join_strings ''/'' cs"

text \<open>\<open>filepath.Rel\<close> of two clean rooted paths: up to the common prefix, then down.\<close>

fun rel_comps :: "string list \<Rightarrow> string list \<Rightarrow> string list" where
  "rel_comps (b # bs) (t # ts) =
     (if b = t then rel_comps bs ts else replicate (Suc (length bs)) ''..'' @ t # ts)"
| "rel_comps bs ts = replicate (length bs) ''..'' @ ts"

definition rel_text :: "string list \<Rightarrow> string list \<Rightarrow> string" where
  "rel_text bs ts = (case rel_comps bs ts of [] \<Rightarrow> ''.'' | c # cs \<Rightarrow> join_strings ''/'' (c # cs))"

section \<open>Local storage\<close>

text \<open>
  What becomes of a write to an open file: \<open>io.Copy\<close> fails after it has left some content, \<open>Sync\<close> fails, or
  the deferred \<open>Close\<close> fails.
\<close>

datatype 'x write_outcome = Written | CopyFails 'x goerr | SyncFails goerr | CloseFails goerr

fun put_error :: "'x write_outcome \<Rightarrow> goerr option" where
  "put_error Written = None"
| "put_error (CopyFails y e) = Some (Wrapf ''failed to write file'' e)"
| "put_error (SyncFails e) = Some (Wrapf ''failed to sync file'' e)"
| "put_error (CloseFails e) = Some e"

fun left_behind :: "'x \<Rightarrow> 'x write_outcome \<Rightarrow> 'x" where
  "left_behind x (CopyFails y e) = y"
| "left_behind x _ = x"

record 'x fs =
  fs_files :: "(string list \<times> 'x) list"
  fs_dirs :: "string list list"
  fs_device :: "string list \<Rightarrow> 'x \<Rightarrow> 'x write_outcome"

definition reliable :: "string list \<Rightarrow> 'x \<Rightarrow> 'x write_outcome" where
  [simp]: "reliable fp x = Written"

text \<open>\<open>baseDir\<close> is absolute and clean, given by its components.\<close>

record local_storage =
  base_dir :: "string list"

definition full_path :: "local_storage \<Rightarrow> string \<Rightarrow> (string list) result" where
  "full_path ls path =
     (let fp = clean_from (base_dir ls) path; rel = rel_text (base_dir ls) fp
      in if has_prefix rel ''..'' then Inl (ErrMsg (''invalid path: '' @ path)) else Inr fp)"

fun prefixes_of :: "'a list \<Rightarrow> 'a list list" where
  "prefixes_of [] = [[]]"
| "prefixes_of (x # xs) = [] # map (\<lambda>p. x # p) (prefixes_of xs)"

text \<open>A path below a regular file: the system call fails with \<open>ENOTDIR\<close>, which is not \<open>IsNotExist\<close>.\<close>

definition under_file :: "'x fs \<Rightarrow> string list \<Rightarrow> bool" where
  "under_file f fp \<longleftrightarrow> list_ex (\<lambda>p. map_of (fs_files f) p \<noteq> None) (prefixes_of (butlast fp))"

definition mkdir_all :: "string list \<Rightarrow> 'x fs \<Rightarrow> 'x fs result" where
  "mkdir_all d f =
     (if list_ex (\<lambda>p. map_of (fs_files f) p \<noteq> None) (prefixes_of d)
      then Inl (ErrMsg ''not a directory'')
      else Inr (f\<lparr>fs_dirs := prefixes_of d @ fs_dirs f\<rparr>))"

definition new_local_storage :: "string list \<Rightarrow> 'x fs \<Rightarrow> (local_storage \<times> 'x fs) result" where
  "new_local_storage base f =
     (case mkdir_all base f of
        Inl e \<Rightarrow> Inl (Wrapf ''failed to create base directory'' e)
      | Inr f' \<Rightarrow> Inr (\<lparr>base_dir = base\<rparr>, f'))"

text \<open>\<open>Put\<close> with the state it leaves, also when it fails; \<open>local_put\<close> is what its callers see.\<close>

definition local_write :: "local_storage \<Rightarrow> 'x fs \<Rightarrow> string \<Rightarrow> 'x \<Rightarrow> goerr option \<times> 'x fs" where
  "local_write ls f path x =
     (case full_path ls path of
        Inl e \<Rightarrow> (Some e, f)
      | Inr fp \<Rightarrow>
          case mkdir_all (butlast fp) f of
            Inl e \<Rightarrow> (Some (Wrapf ''failed to create parent directory'' e), f)
          | Inr f' \<Rightarrow>
              if fp \<in> set (fs_dirs f') then (Some (Wrapf ''failed to create file'' (ErrMsg ''is a directory'')), f')
              else let out = fs_device f' fp x
                   in (put_error out, f'\<lparr>fs_files := map_set fp (left_behind x out) (fs_files f')\<rparr>))"

definition local_put :: "local_storage \<Rightarrow> 'x fs \<Rightarrow> string \<Rightarrow> 'x \<Rightarrow> 'x fs result" where
  "local_put ls f path x =
     (case local_write ls f path x of (None, f') \<Rightarrow> Inr f' | (Some e, f') \<Rightarrow> Inl e)"

text \<open>\<open>os.Open\<close> of a directory succeeds, and the first read of it fails; here \<open>Get\<close> includes that read.\<close>

definition local_get :: "local_storage \<Rightarrow> 'x fs \<Rightarrow> string \<Rightarrow> 'x result" where
  "local_get ls f path =
     rbind (full_path ls path) (\<lambda>fp.
       case map_of (fs_files f) fp of
         Some x \<Rightarrow> Inr x
       | None \<Rightarrow>
           if fp \<in> set (fs_dirs f) then Inl (ErrMsg ''is a directory'')
           else if under_file f fp then Inl (Wrapf ''failed to open file'' (ErrMsg ''not a directory''))
           else Inl (ErrMsg (''file not found: '' @ path)))"

definition local_list :: "local_storage \<Rightarrow> 'x fs \<Rightarrow> string \<Rightarrow> string list result" where
  "local_list ls f prefix =
     rbind (full_path ls prefix) (\<lambda>fp.
       if map_of (fs_files f) fp \<noteq> None then Inr [prefix]
       else if under_file f fp then Inl (Wrapf ''failed to list files'' (ErrMsg ''not a directory''))
       else Inr (map (rel_text (base_dir ls))
              (filter (\<lambda>p. has_prefix p fp) (sort (map fst (fs_files f))))))"

definition local_delete :: "local_storage \<Rightarrow> 'x fs \<Rightarrow> string \<Rightarrow> 'x fs result" where
  "local_delete ls f path =
     rbind (full_path ls path) (\<lambda>fp.
       if map_of (fs_files f) fp \<noteq> None then Inr (f\<lparr>fs_files := map_del fp (fs_files f)\<rparr>)
       else if fp \<in> set (fs_dirs f) then
         if list_ex (\<lambda>p. has_prefix p fp \<and> p \<noteq> fp) (map fst (fs_files f) @ fs_dirs f)
         then Inl (Wrapf ''failed to delete file'' (ErrMsg ''directory not empty''))
         else Inr (f\<lparr>fs_dirs := filter (\<lambda>d. d \<noteq> fp) (fs_dirs f)\<rparr>)
       else if under_file f fp then Inl (Wrapf ''failed to delete file'' (ErrMsg ''not a directory''))
       else Inr f)"

definition local_exists :: "local_storage \<Rightarrow> 'x fs \<Rightarrow> string \<Rightarrow> bool result" where
  "local_exists ls f path =
     rbind (full_path ls path) (\<lambda>fp.
       if map_of (fs_files f) fp \<noteq> None \<or> fp \<in> set (fs_dirs f) then Inr True
       else if under_file f fp
       then Inl (Wrapf ''failed to check if file exists'' (ErrMsg ''not a directory''))
       else Inr False)"

definition local_ops :: "local_storage \<Rightarrow> ('x fs, 'x) storage_ops" where
  "local_ops ls =
     \<lparr>st_put = local_put ls, st_get = local_get ls, st_list = local_list ls,
      st_delete = local_delete ls, st_exists = local_exists ls\<rparr>"

section \<open>Object stores\<close>

datatype head_outcome = HeadOk | HeadApiError string goerr | HeadOther goerr

text \<open>\<open>oc_put\<close> is S3's upload and the \<open>Close\<close> of a GCS writer, which commits the object;
  \<open>oc_copy\<close> is the error, if any, of the \<open>io.Copy\<close> into that writer before it.\<close>

record ('o, 'x) object_client =
  oc_copy :: "'o \<Rightarrow> string \<Rightarrow> 'x \<Rightarrow> goerr option"
  oc_put :: "'o \<Rightarrow> string \<Rightarrow> 'x \<Rightarrow> 'o result"
  oc_get :: "'o \<Rightarrow> string \<Rightarrow> 'x result"
  oc_pages :: "'o \<Rightarrow> string \<Rightarrow> (string list) result list"
  oc_delete :: "'o \<Rightarrow> string \<Rightarrow> 'o result"
  oc_head :: "'o \<Rightarrow> string \<Rightarrow> head_outcome"

definition wrap_err :: "string \<Rightarrow> 'a result \<Rightarrow> 'a result" where
  "wrap_err s r = (case r of Inl e \<Rightarrow> Inl (Wrapf s e) | Inr x \<Rightarrow> Inr x)"

text \<open>The pages of a listing, up to the first that fails.\<close>

fun collect_pages :: "string \<Rightarrow> string \<Rightarrow> (string list) result list \<Rightarrow> string list result" where
  "collect_pages what prefix [] = Inr []"
| "collect_pages what prefix (Inl e # ps) = Inl (Wrapf what e)"
| "collect_pages what prefix (Inr keys # ps) =
     rbind (collect_pages what prefix ps) (\<lambda>rest. Inr (map (\<lambda>k. trim_prefix k prefix) keys @ rest))"

definition s3_exists :: "('o, 'x) object_client \<Rightarrow> 'o \<Rightarrow> string \<Rightarrow> bool result" where
  "s3_exists c w key =
     (case oc_head c w key of
        HeadOk \<Rightarrow> Inr True
      | HeadApiError code e \<Rightarrow>
          if code = ''NotFound'' \<or> code = ''NoSuchKey'' then Inr False
          else if code = ''Forbidden'' \<or> code = ''AccessDenied''
          then Inl (Wrapf ''access denied to S3'' e)
          else Inl (Wrapf ''failed to check if S3 object exists'' e)
      | HeadOther e \<Rightarrow> Inl (Wrapf ''failed to check if S3 object exists'' e))"

definition s3_ops :: "('o, 'x) object_client \<Rightarrow> string \<Rightarrow> ('o, 'x) storage_ops" where
  "s3_ops c prefix =
     \<lparr>st_put = (\<lambda>w p x. wrap_err ''failed to upload to S3'' (oc_put c w (prefix @ p) x)),
      st_get = (\<lambda>w p. wrap_err ''failed to get from S3'' (oc_get c w (prefix @ p))),
      st_list = (\<lambda>w p. collect_pages ''failed to list S3 objects'' prefix (oc_pages c w (prefix @ p))),
      st_delete = (\<lambda>w p. wrap_err ''failed to delete from S3'' (oc_delete c w (prefix @ p))),
      st_exists = (\<lambda>w p. s3_exists c w (prefix @ p))\<rparr>"

text \<open>GCS reports a missing object with its own sentinel error, here the code \<open>NotFound\<close>.\<close>

definition gcs_exists :: "('o, 'x) object_client \<Rightarrow> 'o \<Rightarrow> string \<Rightarrow> bool result" where
  "gcs_exists c w key =
     (case oc_head c w key of
        HeadOk \<Rightarrow> Inr True
      | HeadApiError code e \<Rightarrow>
          if code = ''NotFound'' then Inr False
          else Inl (Wrapf ''failed to check if GCS object exists'' e)
      | HeadOther e \<Rightarrow> Inl (Wrapf ''failed to check if GCS object exists'' e))"

definition gcs_put :: "('o, 'x) object_client \<Rightarrow> 'o \<Rightarrow> string \<Rightarrow> 'x \<Rightarrow> 'o result" where
  "gcs_put c w key x =
     (case oc_copy c w key x of
        Some e \<Rightarrow> Inl (Wrapf ''failed to write to GCS'' e)
      | None \<Rightarrow> oc_put c w key x)"

definition gcs_ops :: "('o, 'x) object_client \<Rightarrow> string \<Rightarrow> ('o, 'x) storage_ops" where
  "gcs_ops c prefix =
     \<lparr>st_put = (\<lambda>w p x. gcs_put c w (prefix @ p) x),
      st_get = (\<lambda>w p. wrap_err ''failed to get from GCS'' (oc_get c w (prefix @ p))),
      st_list = (\<lambda>w p. collect_pages ''failed to list GCS objects'' prefix (oc_pages c w (prefix @ p))),
      st_delete = (\<lambda>w p. wrap_err ''failed to delete from GCS'' (oc_delete c w (prefix @ p))),
      st_exists = (\<lambda>w p. gcs_exists c w (prefix @ p))\<rparr>"

text \<open>The constructors: \<open>load\<close> and \<open>connect\<close> give a client for the bucket, or the SDK's error.\<close>

definition new_s3_storage ::
  "(string \<Rightarrow> string \<Rightarrow> ('o, 'x) object_client result) \<Rightarrow> string \<Rightarrow> string \<Rightarrow> string \<Rightarrow> ('o, 'x) storage_ops result" where
  "new_s3_storage load bucket prefix region =
     rbind (wrap_err ''failed to load AWS config'' (load region bucket)) (\<lambda>c. Inr (s3_ops c prefix))"

definition new_gcs_storage ::
  "(string \<Rightarrow> ('o, 'x) object_client result) \<Rightarrow> string \<Rightarrow> string \<Rightarrow> ('o, 'x) storage_ops result" where
  "new_gcs_storage connect bucket prefix =
     rbind (wrap_err ''failed to create GCS client'' (connect bucket)) (\<lambda>c. Inr (gcs_ops c prefix))"

section \<open>Path facts\<close>

lemma split_on_nonempty [simp]: "split_on c s \<noteq> []"
  by (induction s) (auto split: list.splits)

lemma split_on_no_sep: "c \<notin> set s \<Longrightarrow> split_on c s = [s]"
  by (induction s) auto

lemma clean_from_plain: "plain p \<Longrightarrow> clean_from base p = base @ [p]"
  by (auto simp: clean_from_def split_on_no_sep plain_def clean_step_def has_prefix_def)

lemma rel_comps_append [simp]: "rel_comps bs (bs @ ts) = ts"
  by (induction bs) (cases ts; auto)+

lemma rel_comps_cases: "(\<exists>rest. ts = bs @ rest \<and> rel_comps bs ts = rest) \<or> (\<exists>rest. rel_comps bs ts = ''..'' # rest)"
proof (induction bs arbitrary: ts)
  case (Cons b bs)
  then show ?case by (cases ts) auto
qed simp

lemma join_prefix: "\<exists>t. join_strings sep (c # cs) = c @ t"
  by (cases cs) auto

lemma full_path_confined:
  assumes "full_path ls path = Inr fp"
  shows "\<exists>rest. fp = base_dir ls @ rest"
proof -
  have fp: "fp = clean_from (base_dir ls) path" and no: "\<not> has_prefix (rel_text (base_dir ls) fp) ''..''"
    using assms by (auto simp: full_path_def Let_def split: if_splits)
  show ?thesis
  proof (rule ccontr)
    assume "\<nexists>rest. fp = base_dir ls @ rest"
    with rel_comps_cases [of fp "base_dir ls"] obtain rest where "rel_comps (base_dir ls) fp = ''..'' # rest"
      by blast
    then have "rel_text (base_dir ls) fp = join_strings ''/'' (''..'' # rest)" by (simp add: rel_text_def)
    then show False using no join_prefix [of "''/''" "''..''" rest] by (metis has_prefix_append)
  qed
qed

lemma full_path_plain: "plain p \<Longrightarrow> full_path ls p = Inr (base_dir ls @ [p])"
  by (simp add: full_path_def clean_from_plain rel_text_def Let_def plain_def)

lemma full_path_same_base: "full_path ls [] = Inr (base_dir ls)"
  by (simp add: full_path_def clean_from_def clean_step_def rel_text_def Let_def has_prefix_def
      rel_comps_append [of _ "[]", simplified])

lemma prefixes_length: "d \<in> set (prefixes_of xs) \<Longrightarrow> length d \<le> length xs"
  by (induction xs arbitrary: d) auto

lemma prefixes_no_snoc [simp]: "xs @ [x] \<notin> set (prefixes_of xs)"
  using prefixes_length [of "xs @ [x]" xs] by auto

section \<open>The implementations meet the interface\<close>

lemma local_put_Inr:
  "local_put ls f path x = Inr f' \<longleftrightarrow>
     (\<exists>fp f1. full_path ls path = Inr fp \<and> mkdir_all (butlast fp) f = Inr f1 \<and> fp \<notin> set (fs_dirs f1) \<and>
        fs_device f1 fp x = Written \<and> f' = f1\<lparr>fs_files := map_set fp x (fs_files f1)\<rparr>)"
proof (cases "full_path ls path")
  case (Inr fp)
  show ?thesis
  proof (cases "mkdir_all (butlast fp) f")
    case (Inr f1)
    with \<open>full_path ls path = Inr fp\<close> show ?thesis
      by (cases "fs_device f1 fp x") (auto simp: local_put_def local_write_def Let_def)
  qed (simp add: Inr local_put_def local_write_def)
qed (simp add: local_put_def local_write_def)

lemma local_blob_store: "blob_store (local_ops ls)"
  by unfold_locales
    (auto simp: local_ops_def local_put_Inr local_get_def full_path_plain mkdir_all_def rbind_Inr_iff
      under_file_def list_ex_iff split: sum.splits if_splits)

interpretation local_store: blob_store "local_ops ls" for ls
  by (rule local_blob_store)

definition object_laws :: "('o, 'x) object_client \<Rightarrow> bool" where
  "object_laws c \<longleftrightarrow>
     (\<forall>w k x w'. oc_put c w k x = Inr w' \<longrightarrow>
        oc_get c w' k = Inr x \<and> (\<forall>k'. k' \<noteq> k \<longrightarrow> oc_get c w' k' = oc_get c w k'))"

lemma s3_blob_store: "object_laws c \<Longrightarrow> blob_store (s3_ops c prefix)"
  by unfold_locales (auto simp: s3_ops_def object_laws_def wrap_err_def split: sum.splits)

lemma gcs_blob_store: "object_laws c \<Longrightarrow> blob_store (gcs_ops c prefix)"
  by unfold_locales (auto simp: gcs_ops_def gcs_put_def object_laws_def wrap_err_def split: sum.splits option.splits)

end
