(* ===== verification/Storage_Props.thy ===== *)
theory Storage_Props
  imports Storage
begin

text \<open>
  What the local backend promises: no path leaves the base directory, and the five operations
  refine a map from names to contents; and where its listing differs from that of the object stores.
\<close>

section \<open>Confinement\<close>

text \<open>
  The part of the file system that an operation may look at: what lies under the base directory, and the
  directories above it.
\<close>

definition near :: "local_storage \<Rightarrow> string list \<Rightarrow> bool" where
  "near ls p \<longleftrightarrow> has_prefix p (base_dir ls) \<or> has_prefix (base_dir ls) p"

definition inside :: "local_storage \<Rightarrow> 'x fs \<Rightarrow> 'x fs" where
  "inside ls f = f\<lparr>fs_files := filter (\<lambda>(p, x). near ls p) (fs_files f), fs_dirs := filter (near ls) (fs_dirs f)\<rparr>"

text \<open>No file outside the base directory has been created, changed or removed.\<close>

definition untouched :: "local_storage \<Rightarrow> 'x fs \<Rightarrow> 'x fs \<Rightarrow> bool" where
  "untouched ls f f' \<longleftrightarrow>
     (\<forall>p. \<not> has_prefix p (base_dir ls) \<longrightarrow> map_of (fs_files f') p = map_of (fs_files f) p)"

lemma map_of_near: "near ls p \<Longrightarrow> map_of (filter (\<lambda>(p, x). near ls p) m) p = map_of m p"
  by (induction m) auto

lemma prefixes_prefix: "d \<in> set (prefixes_of xs) \<Longrightarrow> has_prefix xs d"
  by (induction xs arbitrary: d) (auto simp: has_prefix_def)

lemma near_parents:
  assumes "d \<in> set (prefixes_of (butlast (base_dir ls @ rest)))"
  shows "near ls d"
proof -
  have "has_prefix (butlast (base_dir ls @ rest)) d" using assms by (rule prefixes_prefix)
  then obtain u where u: "butlast (base_dir ls @ rest) = d @ u" by (auto simp: has_prefix_iff)
  have "has_prefix (base_dir ls @ rest) d"
  proof (cases "base_dir ls @ rest = []")
    case True
    with u show ?thesis by (simp add: has_prefix_iff)
  next
    case False
    then have "base_dir ls @ rest = d @ u @ [last (base_dir ls @ rest)]"
      using append_butlast_last_id [OF False] unfolding u by simp
    then show ?thesis unfolding has_prefix_iff by blast
  qed
  then obtain t where "base_dir ls @ rest = d @ t" by (auto simp: has_prefix_iff)
  then show ?thesis by (auto simp: near_def has_prefix_iff append_eq_append_conv2)
qed

lemma inside_same:
  assumes "full_path ls path = Inr fp"
  shows "map_of (fs_files (inside ls f)) fp = map_of (fs_files f) fp"
    and "fp \<in> set (fs_dirs (inside ls f)) \<longleftrightarrow> fp \<in> set (fs_dirs f)"
    and "under_file (inside ls f) fp = under_file f fp"
    and "filter (\<lambda>p. has_prefix p fp) (sort (map fst (fs_files (inside ls f)))) =
      filter (\<lambda>p. has_prefix p fp) (sort (map fst (fs_files f)))"
proof -
  obtain rest where fp: "fp = base_dir ls @ rest" using full_path_confined [OF assms] by blast
  then have "near ls fp" by (simp add: near_def)
  then show "map_of (fs_files (inside ls f)) fp = map_of (fs_files f) fp"
    and "fp \<in> set (fs_dirs (inside ls f)) \<longleftrightarrow> fp \<in> set (fs_dirs f)"
    by (simp_all add: inside_def map_of_near)
  show "under_file (inside ls f) fp = under_file f fp"
    unfolding under_file_def list_ex_iff fp using near_parents by (auto simp: inside_def map_of_near)
  have "has_prefix p fp \<Longrightarrow> near ls p" for p by (auto simp: fp near_def has_prefix_iff)
  then have "filter (\<lambda>p. has_prefix p fp) (map fst (filter (\<lambda>(p, x). near ls p) m)) =
      filter (\<lambda>p. has_prefix p fp) (map fst m)" for m :: "(string list \<times> 'a) list"
    by (induction m) auto
  then show "filter (\<lambda>p. has_prefix p fp) (sort (map fst (fs_files (inside ls f)))) =
      filter (\<lambda>p. has_prefix p fp) (sort (map fst (fs_files f)))"
    by (simp add: inside_def filter_sort)
qed

lemma outside_refused:
  "\<not> has_prefix (clean_from (base_dir ls) path) (base_dir ls) \<Longrightarrow> \<exists>e. full_path ls path = Inl e"
  using full_path_confined [of ls path] by (cases "full_path ls path") (auto simp: full_path_def Let_def split: if_splits)

lemma local_write_untouched: "local_write ls f path x = (err, f') \<Longrightarrow> untouched ls f f'"
proof (cases "full_path ls path")
  case (Inr fp)
  assume "local_write ls f path x = (err, f')"
  moreover have "has_prefix fp (base_dir ls)" using full_path_confined [OF Inr] by auto
  ultimately show ?thesis using Inr
    by (auto simp: local_write_def untouched_def mkdir_all_def Let_def split: sum.splits if_splits)
qed (simp add: local_write_def untouched_def)

lemma local_delete_untouched: "local_delete ls f path = Inr f' \<Longrightarrow> untouched ls f f'"
proof (cases "full_path ls path")
  case (Inr fp)
  assume "local_delete ls f path = Inr f'"
  moreover have "has_prefix fp (base_dir ls)" using full_path_confined [OF Inr] by auto
  ultimately show ?thesis using Inr by (auto simp: local_delete_def untouched_def split: if_splits)
qed (simp add: local_delete_def)

text \<open>C34: confinement, whatever path a caller gives: all five operations refuse one that leads out of the
  base directory; \<open>Get\<close>, \<open>List\<close> and \<open>Exists\<close> answer as if there were no files outside it; and \<open>Put\<close> and
  \<open>Delete\<close>, failed ones included, change no file outside it.\<close>

theorem local_storage_confined:
  "(\<not> has_prefix (clean_from (base_dir ls) path) (base_dir ls) \<longrightarrow>
      (\<exists>e. local_put ls f path x = Inl e \<and> local_get ls f path = Inl e \<and> local_list ls f path = Inl e \<and>
         local_delete ls f path = Inl e \<and> local_exists ls f path = Inl e)) \<and>
   local_get ls (inside ls f) path = local_get ls f path \<and>
   local_list ls (inside ls f) path = local_list ls f path \<and>
   local_exists ls (inside ls f) path = local_exists ls f path \<and>
   (\<forall>err f'. local_write ls f path x = (err, f') \<longrightarrow> untouched ls f f') \<and>
   (\<forall>f'. local_delete ls f path = Inr f' \<longrightarrow> untouched ls f f')"
proof (intro conjI impI allI)
  assume "\<not> has_prefix (clean_from (base_dir ls) path) (base_dir ls)"
  then obtain e where "full_path ls path = Inl e" using outside_refused by blast
  then show "\<exists>e. local_put ls f path x = Inl e \<and> local_get ls f path = Inl e \<and> local_list ls f path = Inl e \<and>
      local_delete ls f path = Inl e \<and> local_exists ls f path = Inl e"
    by (simp add: local_put_def local_write_def local_get_def local_list_def local_delete_def local_exists_def)
next
  show "local_get ls (inside ls f) path = local_get ls f path"
    by (cases "full_path ls path") (simp_all add: local_get_def inside_same)
  show "local_list ls (inside ls f) path = local_list ls f path"
    by (cases "full_path ls path") (simp_all add: local_list_def inside_same)
  show "local_exists ls (inside ls f) path = local_exists ls f path"
    by (cases "full_path ls path") (simp_all add: local_exists_def inside_same)
  show "untouched ls f f'" if "local_write ls f path x = (err, f')" for err f'
    using that by (rule local_write_untouched)
  show "untouched ls f f'" if "local_delete ls f path = Inr f'" for f'
    using that by (rule local_delete_untouched)
qed

definition etc_fs :: "string fs" where
  "etc_fs = \<lparr>fs_files = [([''etc''], ''root'')], fs_dirs = [], fs_device = reliable\<rparr>"

lemma sample_put:
  "local_write \<lparr>base_dir = [''data'']\<rparr> etc_fs ''a/../b'' ''new'' =
     (None, etc_fs\<lparr>fs_files := [([''etc''], ''root''), ([''data'', ''b''], ''new'')], fs_dirs := [[], [''data'']]\<rparr>)"
  by (simp add: local_write_def full_path_def clean_from_def clean_step_def rel_text_def etc_fs_def reliable_def
      has_prefix_def mkdir_all_def Let_def)

lemma climbing: "\<not> has_prefix (clean_from [''data''] ''../etc'') [''data'']"
  by (simp add: clean_from_def clean_step_def has_prefix_def)

theorem local_storage_confined_witness:
  "(\<exists>f'. local_write \<lparr>base_dir = [''data'']\<rparr> etc_fs ''a/../b'' ''new'' = (None, f') \<and>
      map_of (fs_files f') [''etc''] = Some ''root'') \<and>
   (\<exists>e. local_get \<lparr>base_dir = [''data'']\<rparr> etc_fs ''../etc'' = Inl e)"
proof -
  let ?ls = "\<lparr>base_dir = [''data'']\<rparr>"
  have "untouched ?ls etc_fs (etc_fs\<lparr>fs_files := [([''etc''], ''root''), ([''data'', ''b''], ''new'')], fs_dirs := [[], [''data'']]\<rparr>)"
    using local_storage_confined [of ?ls "''a/../b''" etc_fs "''new''"] sample_put by blast
  then have "map_of (fs_files (etc_fs\<lparr>fs_files := [([''etc''], ''root''), ([''data'', ''b''], ''new'')], fs_dirs := [[], [''data'']]\<rparr>)) [''etc'']
      = Some ''root''" by (simp add: untouched_def etc_fs_def has_prefix_def)
  moreover have "\<not> has_prefix (clean_from (base_dir ?ls) ''../etc'') (base_dir ?ls)" using climbing by simp
  then have "\<exists>e. local_get ?ls etc_fs ''../etc'' = Inl e"
    using local_storage_confined [of ?ls "''../etc''" etc_fs "''new''"] by blast
  ultimately show ?thesis using sample_put by blast
qed

section \<open>Refinement of a map from names\<close>

text \<open>The abstraction: what is stored under each plain name.\<close>

definition stored :: "local_storage \<Rightarrow> 'x fs \<Rightarrow> string \<Rightarrow> 'x option" where
  "stored ls f p = map_of (fs_files f) (base_dir ls @ [p])"

text \<open>No directory sits where a plain name would be stored.\<close>

definition flat :: "local_storage \<Rightarrow> 'x fs \<Rightarrow> bool" where
  "flat ls f \<longleftrightarrow> (\<forall>p. plain p \<longrightarrow> base_dir ls @ [p] \<notin> set (fs_dirs f)) \<and>
     (\<forall>d \<in> set (prefixes_of (base_dir ls)). map_of (fs_files f) d = None)"

lemma exists_plain: "flat ls f \<Longrightarrow> plain p \<Longrightarrow> local_exists ls f p = Inr (stored ls f p \<noteq> None)"
  by (auto simp: local_exists_def full_path_plain stored_def under_file_def flat_def list_ex_iff)

lemma get_plain:
  "flat ls f \<Longrightarrow> plain p \<Longrightarrow> local_get ls f p = (case stored ls f p of
      Some y \<Rightarrow> Inr y | None \<Rightarrow> Inl (ErrMsg (''file not found: '' @ p)))"
  by (auto simp: local_get_def full_path_plain stored_def under_file_def flat_def list_ex_iff split: option.splits)

lemma put_plain:
  assumes "flat ls f" and "plain p" and "out = fs_device f (base_dir ls @ [p]) x"
  shows "\<exists>f'. local_write ls f p x = (put_error out, f') \<and> flat ls f' \<and>
    (\<forall>q. stored ls f' q = ((stored ls f)(p \<mapsto> left_behind x out)) q)"
proof -
  let ?fp = "base_dir ls @ [p]"
  let ?f = "f\<lparr>fs_dirs := prefixes_of (base_dir ls) @ fs_dirs f, fs_files := map_set ?fp (left_behind x out) (fs_files f)\<rparr>"
  have free: "?fp \<notin> set (fs_dirs f)" "\<not> list_ex (\<lambda>d. map_of (fs_files f) d \<noteq> None) (prefixes_of (base_dir ls))"
    using assms(1,2) by (auto simp: flat_def list_ex_iff)
  then have "local_write ls f p x = (put_error out, ?f)"
    by (simp add: local_write_def full_path_plain [OF assms(2)] mkdir_all_def assms(3) Let_def)
  moreover have "flat ls ?f" using assms(1,2) prefixes_length by (fastforce simp: flat_def)
  ultimately show ?thesis by (simp add: stored_def)
qed

lemma put_success:
  assumes "flat ls f" and "plain p" and "local_put ls f p x = Inr f'"
  shows "flat ls f' \<and> (\<forall>q. stored ls f' q = ((stored ls f)(p \<mapsto> x)) q)"
proof -
  obtain f1 where "local_write ls f p x = (put_error (fs_device f (base_dir ls @ [p]) x), f1)" "flat ls f1"
    "\<forall>q. stored ls f1 q = ((stored ls f)(p \<mapsto> left_behind x (fs_device f (base_dir ls @ [p]) x))) q"
    using put_plain [OF assms(1,2) refl] by blast
  with assms(3) show ?thesis
    by (cases "fs_device f (base_dir ls @ [p]) x") (auto simp: local_put_def)
qed

lemma put_reliable: "flat ls f \<Longrightarrow> plain p \<Longrightarrow> fs_device f = reliable \<Longrightarrow> \<exists>f'. local_put ls f p x = Inr f'"
  using put_plain [of ls f p Written x] by (auto simp: reliable_def local_put_def)

lemma delete_plain:
  assumes "flat ls f" and "plain p"
  shows "\<exists>f'. local_delete ls f p = Inr f' \<and> flat ls f' \<and> (\<forall>q. stored ls f' q = ((stored ls f)(p := None)) q)"
proof -
  let ?f = "f\<lparr>fs_files := map_del (base_dir ls @ [p]) (fs_files f)\<rparr>"
  have gone: "map_del k m = m" if "map_of m k = None" for k and m :: "(string list \<times> 'a) list"
    using that by (induction m) (auto simp: map_del_def split: if_splits)
  have "local_delete ls f p = Inr ?f" using assms gone
    by (auto simp: local_delete_def full_path_plain under_file_def flat_def list_ex_iff)
  moreover have "flat ls ?f" using assms(1) by (simp add: flat_def)
  ultimately show ?thesis by (simp add: stored_def)
qed

text \<open>C33: on plain names (all the names backups use) the local backend refines a finite map, errors
  included: \<open>Put\<close> updates the key with what the device has taken of the content, all of it if nothing failed,
  and returns the error of the copy, of \<open>Sync\<close> or of \<open>Close\<close>; \<open>Get\<close> is lookup, \<open>Exists\<close> is membership, \<open>Delete\<close>
  removes the key (also a missing one); no operation changes another key, and every one keeps the
  directory flat.\<close>

theorem local_storage_refines_map:
  assumes "flat ls f" and "plain p" and "out = fs_device f (base_dir ls @ [p]) x"
  shows "\<exists>f1 f2. local_write ls f p x = (put_error out, f1) \<and> flat ls f1 \<and>
      (\<forall>q. plain q \<longrightarrow> stored ls f1 q = ((stored ls f)(p \<mapsto> left_behind x out)) q) \<and>
    local_put ls f p x = (case put_error out of None \<Rightarrow> Inr f1 | Some e \<Rightarrow> Inl e) \<and>
    local_delete ls f p = Inr f2 \<and> flat ls f2 \<and>
      (\<forall>q. plain q \<longrightarrow> stored ls f2 q = ((stored ls f)(p := None)) q) \<and>
    local_get ls f p = (case stored ls f p of
        Some y \<Rightarrow> Inr y | None \<Rightarrow> Inl (ErrMsg (''file not found: '' @ p))) \<and>
    local_exists ls f p = Inr (stored ls f p \<noteq> None)"
proof -
  from put_plain [OF assms] obtain f1 where f1: "local_write ls f p x = (put_error out, f1)" "flat ls f1"
    "\<forall>q. stored ls f1 q = ((stored ls f)(p \<mapsto> left_behind x out)) q" by blast
  then have "local_put ls f p x = (case put_error out of None \<Rightarrow> Inr f1 | Some e \<Rightarrow> Inl e)"
    by (simp add: local_put_def split: option.splits)
  moreover from delete_plain [OF assms(1,2)] obtain f2 where "local_delete ls f p = Inr f2" "flat ls f2"
    "\<forall>q. stored ls f2 q = ((stored ls f)(p := None)) q" by blast
  ultimately show ?thesis using f1 get_plain [OF assms(1,2)] exists_plain [OF assms(1,2)] by blast
qed

text \<open>A full disk: the copy of the manifest stops half-way, and the truncated file stays.\<close>

definition full_disk :: "string fs" where
  "full_disk = \<lparr>fs_files = [], fs_dirs = [], fs_device = (\<lambda>fp x. CopyFails (take 1 x) (ErrMsg ''no space left''))\<rparr>"

theorem local_storage_refines_map_witness:
  "\<exists>f1. local_write \<lparr>base_dir = [''data'']\<rparr> full_disk ''manifest.json'' ''{}'' =
       (Some (Wrapf ''failed to write file'' (ErrMsg ''no space left'')), f1) \<and>
     stored \<lparr>base_dir = [''data'']\<rparr> f1 ''manifest.json'' = Some ''{''"
proof -
  have flat: "flat \<lparr>base_dir = [''data'']\<rparr> full_disk" by (simp add: flat_def full_disk_def)
  have p: "plain ''manifest.json''" by (simp add: plain_def has_prefix_def)
  have "CopyFails ''{'' (ErrMsg ''no space left'') = fs_device full_disk (base_dir \<lparr>base_dir = [''data'']\<rparr> @ [''manifest.json'']) ''{}''"
    by (simp add: full_disk_def)
  from local_storage_refines_map [OF flat p this] obtain f1 where
    "local_write \<lparr>base_dir = [''data'']\<rparr> full_disk ''manifest.json'' ''{}'' =
       (put_error (CopyFails ''{'' (ErrMsg ''no space left'')), f1)"
    "\<forall>q. plain q \<longrightarrow> stored \<lparr>base_dir = [''data'']\<rparr> f1 q =
       ((stored \<lparr>base_dir = [''data'']\<rparr> full_disk)(''manifest.json'' \<mapsto> left_behind ''{}'' (CopyFails ''{'' (ErrMsg ''no space left'')))) q"
    by blast
  with p show ?thesis by simp
qed

text \<open>The backends do not list alike: for the prefix \<open>chunk\<close> the local backend finds nothing
  (it treats the prefix as a directory) where S3 and GCS, with the same object, find it.\<close>

theorem list_prefix_differs:
  "local_list \<lparr>base_dir = [''data'']\<rparr> \<lparr>fs_files = [([''data'', ''chunk-0000''], x)], fs_dirs = [[''data'']], fs_device = reliable\<rparr> ''chunk'' = Inr [] \<and>
   collect_pages ''failed to list S3 objects'' ''data/'' [Inr [''data/chunk-0000'']] = Inr [''chunk-0000'']"
  by (simp add: local_list_def under_file_def full_path_def clean_from_def clean_step_def rel_text_def
      has_prefix_def trim_prefix_def Let_def)

end
