(* ===== verification/Serializer.thy ===== *)
theory Serializer
  imports Fmt
begin

text \<open>
  The \<open>Serializer\<close> interface of \<open>internal/backup/serializer.go\<close> and its two implementations,
  \<open>ndjson_serializer.go\<close> and \<open>parquet_serializer.go\<close> with the type mapping of
  \<open>parquet_types.go\<close>. A serializer writes to a stream; a symbol of the stream is a line of JSON,
  kept as its document, or a byte of a binary format. The Parquet file writer and reader of the
  Arrow library are the parameter \<open>pq_ops\<close> with the law \<open>pq_laws\<close>.
\<close>

section \<open>The interface\<close>

datatype sym = JLine json | PByte "8 word"

record 'z serializer_ops =
  so_open :: "'z \<Rightarrow> (sym list \<times> 'z) result"
  so_serialize :: "'z \<Rightarrow> go_record \<Rightarrow> (sym list \<times> 'z) result"
  so_close :: "'z \<Rightarrow> (sym list \<times> 'z) result"

fun serialize_all :: "'z serializer_ops \<Rightarrow> 'z \<Rightarrow> go_record list \<Rightarrow> (sym list \<times> 'z) result" where
  "serialize_all ops z [] = Inr ([], z)"
| "serialize_all ops z (r # rs) =
     rbind (so_serialize ops z r) (\<lambda>(out, z').
     rbind (serialize_all ops z' rs) (\<lambda>(out', z''). Inr (out @ out', z'')))"

lemma serialize_all_snoc:
  "serialize_all ops z (rs @ [r]) =
     rbind (serialize_all ops z rs) (\<lambda>(out, z').
     rbind (so_serialize ops z' r) (\<lambda>(out', z''). Inr (out @ out', z'')))"
proof (induction rs arbitrary: z)
  case Nil
  show ?case by (cases "so_serialize ops z r") (auto split: prod.splits)
next
  case (Cons a rs)
  show ?case
  proof (cases "so_serialize ops z a")
    case (Inr p)
    obtain o1 z1 where p: "p = (o1, z1)" by (cases p)
    show ?thesis
    proof (cases "serialize_all ops z1 rs")
      case rs: (Inr q)
      obtain o2 z2 where q: "q = (o2, z2)" by (cases q)
      show ?thesis
        by (cases "so_serialize ops z2 r") (auto simp: Inr p rs q Cons.IH)
    qed (simp add: Inr p Cons.IH)
  qed simp
qed

text \<open>
  The contract. Between an \<open>Open\<close> of an idle serializer and the \<open>Close\<close> that makes it idle again,
  the stream receives a rendering of exactly the records serialized, in order.
\<close>

locale chunk_serializer =
  fixes ops :: "'z serializer_ops"
    and idle :: "'z \<Rightarrow> bool"
    and renders :: "go_record list \<Rightarrow> sym list \<Rightarrow> bool"
  assumes session: "idle z \<Longrightarrow> so_open ops z = Inr (o1, z1) \<Longrightarrow> serialize_all ops z1 rs = Inr (o2, z2) \<Longrightarrow>
    so_close ops z2 = Inr (o3, z3) \<Longrightarrow> idle z3 \<and> renders rs (o1 @ o2 @ o3)"

section \<open>NDJSON\<close>

text \<open>The state is whether \<open>enc\<close> is bound.\<close>

definition nd_open :: "bool \<Rightarrow> (sym list \<times> bool) result" where
  "nd_open z = Inr ([], True)"

definition nd_serialize :: "bool \<Rightarrow> go_record \<Rightarrow> (sym list \<times> bool) result" where
  "nd_serialize z rc =
     (if \<not> z then Inl (ErrMsg ''NDJSONSerializer: Open must be called before Serialize'')
      else rbind (to_json (VMap (rec_data rc))) (\<lambda>j. Inr ([JLine j], True)))"

definition nd_close :: "bool \<Rightarrow> (sym list \<times> bool) result" where
  "nd_close z = Inr ([], False)"

definition ndjson_ops :: "bool serializer_ops" where
  "ndjson_ops = \<lparr>so_open = nd_open, so_serialize = nd_serialize, so_close = nd_close\<rparr>"

definition nd_renders :: "go_record list \<Rightarrow> sym list \<Rightarrow> bool" where
  "nd_renders rs out \<longleftrightarrow> list_all2 (\<lambda>rc s. \<exists>j. to_json (VMap (rec_data rc)) = Inr j \<and> s = JLine j) rs out"

lemma nd_serialize_all:
  "serialize_all ndjson_ops True rs = Inr (out, z) \<Longrightarrow> nd_renders rs out \<and> z"
proof (induction rs arbitrary: out)
  case (Cons r rs)
  then obtain j out' where "to_json (VMap (rec_data r)) = Inr j" "out = JLine j # out'"
    "serialize_all ndjson_ops True rs = Inr (out', z)"
    by (fastforce simp: ndjson_ops_def nd_serialize_def rbind_Inr_iff)
  with Cons.IH show ?case by (simp add: nd_renders_def)
qed (simp add: nd_renders_def)

interpretation nd: chunk_serializer ndjson_ops "\<lambda>z. True" nd_renders
  by unfold_locales (auto simp: ndjson_ops_def nd_open_def nd_close_def dest: nd_serialize_all [unfolded ndjson_ops_def])

section \<open>Arrow types\<close>

datatype arrow_type = AInt64 | AString | AFloat64 | ABool | ATimestamp

datatype cell =
    CNull
  | CInt "64 word"
  | CStr string
  | CFloat rat
  | CBool bool
  | CTime "64 word"

definition get_arrow_type :: "string \<Rightarrow> arrow_type" where
  "get_arrow_type t =
     (if t \<in> {''int64'', ''integer'', ''bigint''} then AInt64
      else if t \<in> {''string'', ''text'', ''varchar''} then AString
      else if t \<in> {''float64'', ''double''} then AFloat64
      else if t \<in> {''bool'', ''boolean''} then ABool
      else if t \<in> {''timestamp'', ''datetime'', ''timestamptz''} then ATimestamp
      else AString)"

type_synonym arrow_field = "string \<times> arrow_type \<times> bool"

definition convert_to_arrow_schema :: "column list \<Rightarrow> arrow_field list" where
  "convert_to_arrow_schema cols =
     map (\<lambda>c. (col_name c, get_arrow_type (col_type c), nullable c)) cols"

definition append_value :: "arrow_type \<Rightarrow> gval \<Rightarrow> cell result" where
  "append_value t val =
     (case t of
        AInt64 \<Rightarrow>
          (case val of
             VInt64 v \<Rightarrow> Inr (CInt v)
           | VInt v \<Rightarrow> Inr (CInt v)
           | VInt32 v \<Rightarrow> Inr (CInt (word_of_int (sint v)))
           | VFloat64 x \<Rightarrow> Inr (CInt (word_of_int (trunc_rat x)))
           | _ \<Rightarrow> Inl (ErrMsg (''cannot coerce '' @ type_name val @ '' to int64'')))
      | AString \<Rightarrow>
          (case val of
             VString s \<Rightarrow> Inr (CStr s)
           | _ \<Rightarrow> Inr (CStr (sprint_v val)))
      | AFloat64 \<Rightarrow>
          (case val of
             VFloat64 x \<Rightarrow> Inr (CFloat x)
           | VFloat32 x \<Rightarrow> Inr (CFloat x)
           | VInt64 v \<Rightarrow> Inr (CFloat (f64_round (of_int (sint v))))
           | _ \<Rightarrow> Inl (ErrMsg (''cannot coerce '' @ type_name val @ '' to float64'')))
      | ABool \<Rightarrow>
          (case val of
             VBool b \<Rightarrow> Inr (CBool b)
           | _ \<Rightarrow> Inl (ErrMsg (''expected bool, got '' @ type_name val)))
      | ATimestamp \<Rightarrow>
          (case val of
             VTime t \<Rightarrow> Inr (CTime (word_of_int (t div 1000)))
           | VInt64 v \<Rightarrow> Inr (CTime v)
           | _ \<Rightarrow> Inl (ErrMsg (''cannot coerce '' @ type_name val @ '' to timestamp''))))"

text \<open>\<open>getVal\<close> of \<open>restore.go\<close>: a timestamp in microseconds becomes a time.\<close>

fun get_val :: "cell \<Rightarrow> gval" where
  "get_val CNull = VNil"
| "get_val (CInt v) = VInt64 v"
| "get_val (CStr s) = VString s"
| "get_val (CFloat x) = VFloat64 x"
| "get_val (CBool b) = VBool b"
| "get_val (CTime us) = VTime (sint us * 1000)"

section \<open>Parquet\<close>

text \<open>
  A reader can fail at three points before the first row; afterwards it delivers rows and ends
  with or without an error.
\<close>

datatype pq_stage = PqFile | PqArrow | PqRecords

record 'q pq_ops =
  pq_new :: "arrow_field list \<Rightarrow> (8 word list \<times> 'q) result"
  pq_write :: "'q \<Rightarrow> cell list list \<Rightarrow> (8 word list \<times> 'q) result"
  pq_finish :: "'q \<Rightarrow> 8 word list result"
  pq_read :: "sym list \<Rightarrow> pq_stage \<times> goerr + string list \<times> cell list list \<times> goerr option"

record 'q parquet_serializer =
  ps_columns :: "column list"
  ps_batch_size :: int
  ps_writer :: "'q option"
  ps_rows :: "go_record list"

definition new_parquet_serializer :: "column list \<Rightarrow> int \<Rightarrow> 'q parquet_serializer" where
  "new_parquet_serializer cols bs =
     \<lparr>ps_columns = cols, ps_batch_size = (if bs \<le> 0 then 1000 else bs), ps_writer = None, ps_rows = []\<rparr>"

definition make_cell :: "column \<Rightarrow> go_record \<Rightarrow> cell result" where
  "make_cell c rc =
     (case map_get (rec_data rc) (col_name c) of
        VNil \<Rightarrow> Inr CNull
      | v \<Rightarrow> append_value (get_arrow_type (col_type c)) v)"

fun collect :: "('a \<Rightarrow> 'b result) \<Rightarrow> 'a list \<Rightarrow> 'b list result" where
  "collect f [] = Inr []"
| "collect f (x # xs) = rbind (f x) (\<lambda>y. rbind (collect f xs) (\<lambda>ys. Inr (y # ys)))"

text \<open>The record batch is built column by column; its rows are read across the columns.\<close>

definition build_column :: "go_record list \<Rightarrow> column \<Rightarrow> cell list result" where
  "build_column rs c =
     (case collect (make_cell c) rs of
        Inl e \<Rightarrow> Inl (Wrapf (''column '' @ quote (col_name c)) e)
      | Inr cells \<Rightarrow> Inr cells)"

definition rows_of :: "nat \<Rightarrow> cell list list \<Rightarrow> cell list list" where
  "rows_of n cols = map (\<lambda>i. map (\<lambda>col. col ! i) cols) [0..<n]"

definition ps_flush :: "'q pq_ops \<Rightarrow> 'q parquet_serializer \<Rightarrow> (sym list \<times> 'q parquet_serializer) result" where
  "ps_flush pq z =
     (if ps_rows z = [] then Inr ([], z)
      else case ps_writer z of
        None \<Rightarrow> Inl (ErrMsg ''nil writer'')
      | Some q \<Rightarrow>
          rbind (collect (build_column (ps_rows z)) (ps_columns z)) (\<lambda>cols.
            case pq_write pq q (rows_of (length (ps_rows z)) cols) of
              Inl e \<Rightarrow> Inl (Wrapf ''failed to write Arrow record'' e)
            | Inr (out, q') \<Rightarrow> Inr (map PByte out, z\<lparr>ps_writer := Some q', ps_rows := []\<rparr>)))"

definition ps_open :: "'q pq_ops \<Rightarrow> 'q parquet_serializer \<Rightarrow> (sym list \<times> 'q parquet_serializer) result" where
  "ps_open pq z =
     (if ps_writer z \<noteq> None then Inl (ErrMsg ''ParquetSerializer: Open called more than once'')
      else case pq_new pq (convert_to_arrow_schema (ps_columns z)) of
        Inl e \<Rightarrow> Inl (Wrapf ''failed to create Parquet file writer'' e)
      | Inr (out, q) \<Rightarrow> Inr (map PByte out, z\<lparr>ps_writer := Some q\<rparr>))"

definition ps_serialize ::
  "'q pq_ops \<Rightarrow> 'q parquet_serializer \<Rightarrow> go_record \<Rightarrow> (sym list \<times> 'q parquet_serializer) result" where
  "ps_serialize pq z rc =
     (if ps_writer z = None then Inl (ErrMsg ''ParquetSerializer: Open must be called before Serialize'')
      else let z' = z\<lparr>ps_rows := ps_rows z @ [rc]\<rparr> in
        if ps_batch_size z \<le> int (length (ps_rows z')) then ps_flush pq z' else Inr ([], z'))"

definition ps_close :: "'q pq_ops \<Rightarrow> 'q parquet_serializer \<Rightarrow> (sym list \<times> 'q parquet_serializer) result" where
  "ps_close pq z =
     (if ps_writer z = None then Inr ([], z)
      else rbind (ps_flush pq z) (\<lambda>(out, z').
        case pq_finish pq (the (ps_writer z')) of
          Inl e \<Rightarrow> Inl (Wrapf ''failed to close Parquet writer'' e)
        | Inr out' \<Rightarrow> Inr (out @ map PByte out', z'\<lparr>ps_writer := None\<rparr>)))"

definition parquet_ops :: "'q pq_ops \<Rightarrow> 'q parquet_serializer serializer_ops" where
  "parquet_ops pq = \<lparr>so_open = ps_open pq, so_serialize = ps_serialize pq, so_close = ps_close pq\<rparr>"

end
