(* ===== verification/Parquet_Props.thy ===== *)
theory Parquet_Props
  imports Serializer
begin

text \<open>
  The Parquet serializer meets the serializer contract: what it writes reads back as the table of
  the records, row by row, for any file writer that satisfies \<open>pq_laws\<close>. Also here: which values
  survive the trip through a typed column.
\<close>

section \<open>Tables\<close>

lemma collect_Inr: "collect f xs = Inr ys \<longleftrightarrow> list_all2 (\<lambda>x y. f x = Inr y) xs ys"
proof (induction xs arbitrary: ys)
  case Nil
  then show ?case by auto
next
  case (Cons x xs)
  then show ?case by (cases ys) (auto simp: rbind_Inr_iff)
qed

definition row_of :: "column list \<Rightarrow> go_record \<Rightarrow> cell list result" where
  "row_of cols rc = collect (\<lambda>c. make_cell c rc) cols"

fun cell_fits :: "arrow_type \<Rightarrow> cell \<Rightarrow> bool" where
  "cell_fits t CNull = True"
| "cell_fits t (CInt v) = (t = AInt64)"
| "cell_fits t (CStr s) = (t = AString)"
| "cell_fits t (CFloat x) = (t = AFloat64)"
| "cell_fits t (CBool b) = (t = ABool)"
| "cell_fits t (CTime us) = (t = ATimestamp)"

definition conforms :: "arrow_field list \<Rightarrow> cell list \<Rightarrow> bool" where
  "conforms fs row \<longleftrightarrow> list_all2 (\<lambda>(n, t, nullable) c. cell_fits t c \<and> (c = CNull \<longrightarrow> nullable)) fs row"

lemma append_value_fits: "append_value t v = Inr c \<Longrightarrow> cell_fits t c \<and> c \<noteq> CNull"
  by (auto simp: append_value_def split: arrow_type.splits gval.splits)

lemma make_cell_fits:
  "make_cell c rc = Inr cell \<Longrightarrow> cell_fits (get_arrow_type (col_type c)) cell \<and>
     (cell = CNull \<longleftrightarrow> map_get (rec_data rc) (col_name c) = VNil)"
  using append_value_fits by (fastforce simp: make_cell_def split: gval.splits)

definition sample_columns :: "column list" where
  "sample_columns =
     [\<lparr>col_name = ''id'', col_type = ''int64'', nullable = False, primary_key = True\<rparr>,
      \<lparr>col_name = ''note'', col_type = ''text'', nullable = True, primary_key = False\<rparr>]"

definition sample_record :: go_record where
  "sample_record = \<lparr>rec_id = ''7'', rec_data = [(''id'', VInt64 7)], rec_meta = zero_metadata\<rparr>"

text \<open>The table built column by column, read row by row.\<close>

lemma build_rows:
  assumes "collect (build_column rs) cols = Inr columns'"
  shows "list_all2 (\<lambda>rc row. row_of cols rc = Inr row) rs (rows_of (length rs) columns')"
proof (unfold list_all2_conv_all_nth, intro conjI allI impI)
  show "length rs = length (rows_of (length rs) columns')" by (simp add: rows_of_def)
  have len: "length columns' = length cols"
    using assms by (auto simp: collect_Inr dest: list_all2_lengthD)
  fix i
  assume i: "i < length rs"
  have cell: "make_cell (cols ! k) (rs ! i) = Inr (columns' ! k ! i)" if k: "k < length cols" for k
  proof -
    have "build_column rs (cols ! k) = Inr (columns' ! k)"
      using assms k by (auto simp: collect_Inr list_all2_conv_all_nth)
    then have "collect (make_cell (cols ! k)) rs = Inr (columns' ! k)"
      by (simp add: build_column_def split: sum.splits)
    then show ?thesis using i by (simp add: collect_Inr list_all2_conv_all_nth)
  qed
  have "rows_of (length rs) columns' ! i = map (\<lambda>col. col ! i) columns'"
    using i by (simp add: rows_of_def)
  then show "row_of cols (rs ! i) = Inr (rows_of (length rs) columns' ! i)"
    using cell len by (simp add: row_of_def collect_Inr list_all2_conv_all_nth)
qed

section \<open>The session\<close>

fun pq_write_all :: "'q pq_ops \<Rightarrow> 'q \<Rightarrow> cell list list list \<Rightarrow> (8 word list \<times> 'q) result" where
  "pq_write_all pq q [] = Inr ([], q)"
| "pq_write_all pq q (b # bs) =
     rbind (pq_write pq q b) (\<lambda>(out, q').
     rbind (pq_write_all pq q' bs) (\<lambda>(out', q''). Inr (out @ out', q'')))"

text \<open>What the backup relies on of the Parquet library: a finished file reads back as its columns'
  names and the rows of its record batches, when the rows conform to the schema.\<close>

definition pq_laws :: "'q pq_ops \<Rightarrow> bool" where
  "pq_laws pq \<longleftrightarrow>
     (\<forall>fs o0 q0 bs o1 q1 o2.
        pq_new pq fs = Inr (o0, q0) \<longrightarrow> pq_write_all pq q0 bs = Inr (o1, q1) \<longrightarrow>
        pq_finish pq q1 = Inr o2 \<longrightarrow> (\<forall>row \<in> set (concat bs). conforms fs row) \<longrightarrow>
        pq_read pq (map PByte (o0 @ o1 @ o2)) = Inr (map fst fs, concat bs, None))"

lemma pq_write_all_append:
  "pq_write_all pq q bs = Inr (o1, q1) \<Longrightarrow> pq_write_all pq q1 bs' = Inr (o2, q2) \<Longrightarrow>
   pq_write_all pq q (bs @ bs') = Inr (o1 @ o2, q2)"
proof (induction bs arbitrary: q o1)
  case (Cons b bs)
  then obtain o0 q0 o1' where "pq_write pq q b = Inr (o0, q0)" "pq_write_all pq q0 bs = Inr (o1', q1)"
    "o1 = o0 @ o1'"
    by (auto simp: rbind_Inr_iff)
  with Cons show ?case by simp
qed simp

text \<open>\<open>progress_to z0 rs z out\<close>: from a state with an open writer and no buffered rows, the
  serializer has come to \<open>z\<close> having written \<open>out\<close>, the row groups of all but the buffered records
  of \<open>rs\<close>.\<close>

definition progress_to ::
  "'q pq_ops \<Rightarrow> 'q parquet_serializer \<Rightarrow> go_record list \<Rightarrow> 'q parquet_serializer \<Rightarrow> sym list \<Rightarrow> bool" where
  "progress_to pq z0 rs z out \<longleftrightarrow>
     (\<exists>q0 groups o1 q1 rows. ps_writer z0 = Some q0 \<and> pq_write_all pq q0 groups = Inr (o1, q1) \<and>
        ps_writer z = Some q1 \<and> ps_columns z = ps_columns z0 \<and> out = map PByte o1 \<and>
        concat groups = rows \<and>
        (\<exists>written. rs = written @ ps_rows z \<and>
           list_all2 (\<lambda>rc row. row_of (ps_columns z0) rc = Inr row) written rows))"

lemma progress_start: "ps_writer z = Some q \<Longrightarrow> ps_rows z = [] \<Longrightarrow> progress_to pq z [] z []"
  unfolding progress_to_def by (intro exI [of _ q] exI [of _ "[]"]) auto

lemma progress_flush:
  assumes "progress_to pq z0 rs z out" and "ps_flush pq z = Inr (out', z')"
  shows "progress_to pq z0 rs z' (out @ out') \<and> ps_rows z' = []"
proof (cases "ps_rows z")
  case Nil
  with assms show ?thesis by (simp add: ps_flush_def)
next
  case (Cons r rs')
  from assms(1) obtain q0 groups o1 q1 written where p: "ps_writer z0 = Some q0"
    "pq_write_all pq q0 groups = Inr (o1, q1)" "ps_writer z = Some q1" "ps_columns z = ps_columns z0"
    "out = map PByte o1" "rs = written @ ps_rows z"
    "list_all2 (\<lambda>rc row. row_of (ps_columns z0) rc = Inr row) written (concat groups)"
    by (auto simp: progress_to_def)
  from assms(2) Cons p(3) obtain cs where cs: "collect (build_column (ps_rows z)) (ps_columns z) = Inr cs"
    "(case pq_write pq q1 (rows_of (length (ps_rows z)) cs) of
        Inl e \<Rightarrow> Inl (Wrapf ''failed to write Arrow record'' e)
      | Inr (out, q') \<Rightarrow> Inr (map PByte out, z\<lparr>ps_writer := Some q', ps_rows := []\<rparr>)) = Inr (out', z')"
    by (auto simp: ps_flush_def rbind_Inr_iff)
  then obtain o2 q2 where c: "collect (build_column (ps_rows z)) (ps_columns z) = Inr cs"
    "pq_write pq q1 (rows_of (length (ps_rows z)) cs) = Inr (o2, q2)"
    "out' = map PByte o2" "z' = z\<lparr>ps_writer := Some q2, ps_rows := []\<rparr>"
    by (cases "pq_write pq q1 (rows_of (length (ps_rows z)) cs)") auto
  let ?rows = "rows_of (length (ps_rows z)) cs"
  have "pq_write_all pq q0 (groups @ [?rows]) = Inr (o1 @ o2, q2)"
    using p(2) c(2) by (intro pq_write_all_append) auto
  moreover have "list_all2 (\<lambda>rc row. row_of (ps_columns z0) rc = Inr row) rs (concat (groups @ [?rows]))"
    using build_rows [OF c(1)] p by (auto intro: list_all2_appendI)
  ultimately show ?thesis using p c unfolding progress_to_def
    by (intro conjI exI [of _ q0] exI [of _ "groups @ [?rows]"] exI [of _ "o1 @ o2"] exI [of _ q2]
        exI [of _ "concat (groups @ [?rows])"] exI [of _ rs]) auto
qed

lemma progress_serialize:
  assumes "progress_to pq z0 rs z out" and "ps_serialize pq z r = Inr (out', z')"
  shows "progress_to pq z0 (rs @ [r]) z' (out @ out')"
proof -
  let ?z = "z\<lparr>ps_rows := ps_rows z @ [r]\<rparr>"
  have add: "progress_to pq z0 (rs @ [r]) ?z out" using assms(1) by (auto simp: progress_to_def)
  from assms(2) have "out' = [] \<and> z' = ?z \<or> ps_flush pq ?z = Inr (out', z')"
    by (auto simp: ps_serialize_def Let_def split: if_splits)
  then show ?thesis using add progress_flush [OF add] by auto
qed

lemma progress_all:
  "progress_to pq z0 rs z out \<Longrightarrow> serialize_all (parquet_ops pq) z rs' = Inr (out', z') \<Longrightarrow>
   progress_to pq z0 (rs @ rs') z' (out @ out')"
proof (induction rs' arbitrary: rs z out out')
  case (Cons r rs')
  then obtain o1 z1 o2 where s: "ps_serialize pq z r = Inr (o1, z1)"
    "serialize_all (parquet_ops pq) z1 rs' = Inr (o2, z')" "out' = o1 @ o2"
    by (auto simp: parquet_ops_def rbind_Inr_iff)
  from Cons.IH [OF progress_serialize [OF Cons.prems(1) s(1)] s(2)] s(3) show ?case by simp
qed simp

definition pq_idle :: "column list \<Rightarrow> 'q parquet_serializer \<Rightarrow> bool" where
  "pq_idle cols z \<longleftrightarrow> ps_writer z = None \<and> ps_rows z = [] \<and> ps_columns z = cols"

definition pq_renders :: "'q pq_ops \<Rightarrow> column list \<Rightarrow> go_record list \<Rightarrow> sym list \<Rightarrow> bool" where
  "pq_renders pq cols rs out \<longleftrightarrow>
     (\<exists>bs rows. out = map PByte bs \<and> list_all2 (\<lambda>rc row. row_of cols rc = Inr row) rs rows \<and>
        ((\<forall>row \<in> set rows. conforms (convert_to_arrow_schema cols) row) \<longrightarrow>
           pq_read pq out = Inr (map col_name cols, rows, None)))"

lemma parquet_chunk_serializer:
  assumes "pq_laws pq"
  shows "chunk_serializer (parquet_ops pq) (pq_idle cols) (pq_renders pq cols)"
proof
  fix z o1 z1 rs o2 z2 o3 z3
  assume idle: "pq_idle cols z" and opened: "so_open (parquet_ops pq) z = Inr (o1, z1)"
    and all: "serialize_all (parquet_ops pq) z1 rs = Inr (o2, z2)"
    and closed: "so_close (parquet_ops pq) z2 = Inr (o3, z3)"
  from opened idle obtain b0 q0 where op: "pq_new pq (convert_to_arrow_schema cols) = Inr (b0, q0)"
    "o1 = map PByte b0" "z1 = z\<lparr>ps_writer := Some q0\<rparr>"
    by (auto simp: parquet_ops_def ps_open_def pq_idle_def split: sum.splits prod.splits if_splits)
  have "progress_to pq z1 [] z1 []" using op idle by (intro progress_start) (auto simp: pq_idle_def)
  from progress_all [OF this all] have prog: "progress_to pq z1 rs z2 o2" by simp
  then have "ps_writer z2 \<noteq> None" by (auto simp: progress_to_def)
  with closed obtain o4 z4 where fl: "ps_flush pq z2 = Inr (o4, z4)"
    "(case pq_finish pq (the (ps_writer z4)) of
        Inl e \<Rightarrow> Inl (Wrapf ''failed to close Parquet writer'' e)
      | Inr out' \<Rightarrow> Inr (o4 @ map PByte out', z4\<lparr>ps_writer := None\<rparr>)) = Inr (o3, z3)"
    by (auto simp: parquet_ops_def ps_close_def rbind_Inr_iff split: prod.splits)
  then obtain b5 where cl: "ps_flush pq z2 = Inr (o4, z4)"
    "pq_finish pq (the (ps_writer z4)) = Inr b5" "o3 = o4 @ map PByte b5" "z3 = z4\<lparr>ps_writer := None\<rparr>"
    by (cases "pq_finish pq (the (ps_writer z4))") auto
  from progress_flush [OF prog cl(1)] have fl: "progress_to pq z1 rs z4 (o2 @ o4)" "ps_rows z4 = []" by auto
  then obtain groups b1 q1 where g: "pq_write_all pq q0 groups = Inr (b1, q1)" "ps_writer z4 = Some q1"
    "ps_columns z4 = cols" "o2 @ o4 = map PByte b1"
    "list_all2 (\<lambda>rc row. row_of cols rc = Inr row) rs (concat groups)"
    using op idle by (auto simp: progress_to_def pq_idle_def)
  have "o1 @ o2 @ o3 = map PByte (b0 @ b1 @ b5)" using op(2) cl(3) g(4) by (simp flip: append_assoc)
  moreover have "map fst (convert_to_arrow_schema cols) = map col_name cols"
    by (simp add: convert_to_arrow_schema_def)
  ultimately have "pq_renders pq cols rs (o1 @ o2 @ o3)"
    unfolding pq_renders_def using assms op(1) g cl(2) unfolding pq_laws_def
    by (intro exI [of _ "b0 @ b1 @ b5"] exI [of _ "concat groups"]) auto
  moreover have "pq_idle cols z3" using fl(2) cl(4) g(3) by (simp add: pq_idle_def)
  ultimately show "pq_idle cols z3 \<and> pq_renders pq cols rs (o1 @ o2 @ o3)" by simp
qed

section \<open>Values through a typed column\<close>

text \<open>The values a column of each Arrow type returns as they were.\<close>

fun faithful :: "arrow_type \<Rightarrow> gval \<Rightarrow> bool" where
  "faithful AInt64 (VInt64 v) = True"
| "faithful AString (VString s) = True"
| "faithful AFloat64 (VFloat64 x) = True"
| "faithful ABool (VBool b) = True"
| "faithful ATimestamp (VTime t) = (t mod 1000 = 0 \<and> - (2 ^ 63) \<le> t div 1000 \<and> t div 1000 < 2 ^ 63)"
| "faithful _ _ = False"

lemma faithful_get_val: "faithful t v \<Longrightarrow> append_value t v = Inr c \<Longrightarrow> get_val c = v"
  by (cases t; cases v) (auto simp: append_value_def sint_sbintrunc' signed_take_bit_int_eq_self_iff)

text \<open>Backup and restore of a value: a value comes back unchanged from a Parquet column exactly
  when it has the column's own Go type (and, for a time, microsecond precision); any other value is
  refused or comes back changed: an \<open>int\<close> as \<open>int64\<close>, a fractional number truncated in an integer
  column, everything in a text column as its \<open>%v\<close> text.\<close>

theorem parquet_value_roundtrip:
  "faithful t v \<longleftrightarrow> (\<exists>c. append_value t v = Inr c \<and> get_val c = v)"
proof (cases "t = ATimestamp \<and> (\<exists>i. v = VTime i)")
  case True
  then obtain i where i: "t = ATimestamp" "v = VTime i" by blast
  let ?d = "i div 1000"
  have range: "sint (word_of_int ?d :: 64 word) = ?d \<longleftrightarrow> - (2 ^ 63) \<le> ?d \<and> ?d < 2 ^ 63"
    by (simp add: sint_sbintrunc' signed_take_bit_int_eq_self_iff)
  have "sint (word_of_int ?d :: 64 word) * 1000 = i \<longleftrightarrow> i mod 1000 = 0 \<and> sint (word_of_int ?d :: 64 word) = ?d"
    by (metis div_mult_mod_eq mod_mult_self2_is_0 add.right_neutral mult.commute
        nonzero_mult_div_cancel_right zero_neq_numeral)
  then show ?thesis using range i by (auto simp: append_value_def)
next
  case False
  then show ?thesis
    by (cases t; cases v) (auto simp: append_value_def)
qed

section \<open>The batch that is written\<close>

text \<open>The values of the Go type that goes with the name of a column's type; a time in whole microseconds.\<close>

fun native :: "string \<Rightarrow> gval \<Rightarrow> bool" where
  "native ty (VInt64 w) = (ty \<in> {''int64'', ''integer'', ''bigint''})"
| "native ty (VString s) = (ty \<in> {''string'', ''text'', ''varchar''})"
| "native ty (VFloat64 x) = (ty \<in> {''float64'', ''double''})"
| "native ty (VBool b) = (ty \<in> {''bool'', ''boolean''})"
| "native ty (VTime t) = (ty \<in> {''timestamp'', ''datetime'', ''timestamptz''} \<and>
     t mod 1000 = 0 \<and> - (2 ^ 63) \<le> t div 1000 \<and> t div 1000 < 2 ^ 63)"
| "native ty _ = False"

lemma arrow_type_names:
  "ty \<in> {''int64'', ''integer'', ''bigint''} \<Longrightarrow> get_arrow_type ty = AInt64"
  "ty \<in> {''string'', ''text'', ''varchar''} \<Longrightarrow> get_arrow_type ty = AString"
  "ty \<in> {''float64'', ''double''} \<Longrightarrow> get_arrow_type ty = AFloat64"
  "ty \<in> {''bool'', ''boolean''} \<Longrightarrow> get_arrow_type ty = ABool"
  "ty \<in> {''timestamp'', ''datetime'', ''timestamptz''} \<Longrightarrow> get_arrow_type ty = ATimestamp"
  unfolding get_arrow_type_def by (elim insertE emptyE; simp)+

lemma native_faithful: "native ty v \<Longrightarrow> faithful (get_arrow_type ty) v"
  by (cases v) (simp_all only: native.simps arrow_type_names faithful.simps simp_thms)

text \<open>
  A row of the batch for a record: in every column a cell of its Arrow type, null exactly where the record
  has no value, and reading back as the value that a column of this name of a type is for.
\<close>

definition typed_row :: "column list \<Rightarrow> go_record \<Rightarrow> cell list \<Rightarrow> bool" where
  "typed_row cols rc row \<longleftrightarrow>
     list_all2 (\<lambda>c cell. let v = map_get (rec_data rc) (col_name c)
       in cell_fits (get_arrow_type (col_type c)) cell \<and> (cell = CNull \<longleftrightarrow> v = VNil) \<and>
          (native (col_type c) v \<longrightarrow> get_val cell = v)) cols row"

lemma make_cell_native:
  assumes "native (col_type c) (map_get (rec_data rc) (col_name c))" and "make_cell c rc = Inr cell"
  shows "get_val cell = map_get (rec_data rc) (col_name c)"
proof -
  have "append_value (get_arrow_type (col_type c)) (map_get (rec_data rc) (col_name c)) = Inr cell"
    using assms by (cases "map_get (rec_data rc) (col_name c)") (auto simp: make_cell_def)
  with faithful_get_val [OF native_faithful [OF assms(1)]] show ?thesis .
qed

lemma row_of_typed: "row_of cols rc = Inr row \<Longrightarrow> typed_row cols rc row"
proof -
  assume "row_of cols rc = Inr row"
  then have "list_all2 (\<lambda>c cell. make_cell c rc = Inr cell) cols row" by (simp add: row_of_def collect_Inr)
  then show ?thesis unfolding typed_row_def
  proof (rule list_all2_mono)
    fix c cell assume m: "make_cell c rc = Inr cell"
    show "let v = map_get (rec_data rc) (col_name c)
        in cell_fits (get_arrow_type (col_type c)) cell \<and> (cell = CNull \<longleftrightarrow> v = VNil) \<and>
          (native (col_type c) v \<longrightarrow> get_val cell = v)"
      unfolding Let_def using make_cell_fits [OF m] make_cell_native [OF _ m] by blast
  qed
qed

lemma typed_row_conforms:
  assumes "typed_row cols rc row" and "\<forall>c \<in> set cols. \<not> nullable c \<longrightarrow> map_get (rec_data rc) (col_name c) \<noteq> VNil"
  shows "conforms (convert_to_arrow_schema cols) row"
  using assms unfolding conforms_def convert_to_arrow_schema_def typed_row_def list_all2_map1 Let_def
  by (auto simp: list_all2_conv_all_nth)

text \<open>C32: what \<open>flush\<close> hands to the Parquet library, for any number of buffered records and any columns: one row
  for each record, in order although the batch is built column by column, every row typed by the columns,
  with every value that is native to its column's type as it was; and every row conforms to the schema that \<open>Open\<close> has announced if no required column is nil. The
  buffer is empty afterwards.\<close>

theorem flushed_batch_typed:
  assumes "ps_flush pq z = Inr (out, z')" and "ps_rows z \<noteq> []" and "ps_writer z = Some q"
  shows "\<exists>rows out' q'. pq_write pq q rows = Inr (out', q') \<and> out = map PByte out' \<and>
    z' = z\<lparr>ps_writer := Some q', ps_rows := []\<rparr> \<and>
    list_all2 (typed_row (ps_columns z)) (ps_rows z) rows \<and>
    ((\<forall>rc \<in> set (ps_rows z). \<forall>c \<in> set (ps_columns z). \<not> nullable c \<longrightarrow> map_get (rec_data rc) (col_name c) \<noteq> VNil) \<longrightarrow>
       (\<forall>row \<in> set rows. conforms (convert_to_arrow_schema (ps_columns z)) row))"
proof -
  obtain columns' where cols: "collect (build_column (ps_rows z)) (ps_columns z) = Inr columns'"
    using assms by (auto simp: ps_flush_def rbind_Inr_iff)
  then obtain out' q' where c: "collect (build_column (ps_rows z)) (ps_columns z) = Inr columns'"
      "pq_write pq q (rows_of (length (ps_rows z)) columns') = Inr (out', q')"
      "out = map PByte out'" "z' = z\<lparr>ps_writer := Some q', ps_rows := []\<rparr>"
    using assms by (cases "pq_write pq q (rows_of (length (ps_rows z)) columns')") (auto simp: ps_flush_def)
  have rows: "list_all2 (typed_row (ps_columns z)) (ps_rows z) (rows_of (length (ps_rows z)) columns')"
    using build_rows [OF c(1)] row_of_typed by (auto elim!: list_all2_mono)
  have "\<forall>row \<in> set (rows_of (length (ps_rows z)) columns'). conforms (convert_to_arrow_schema (ps_columns z)) row"
    if "\<forall>rc \<in> set (ps_rows z). \<forall>c \<in> set (ps_columns z). \<not> nullable c \<longrightarrow> map_get (rec_data rc) (col_name c) \<noteq> VNil"
    using rows that typed_row_conforms unfolding list_all2_conv_all_nth by (metis in_set_conv_nth)
  with c rows show ?thesis by blast
qed

definition silent_parquet :: "unit pq_ops" where
  "silent_parquet =
     \<lparr>pq_new = (\<lambda>fs. Inr ([], ())), pq_write = (\<lambda>q rows. Inr (replicate (length rows) 0, ())),
      pq_finish = (\<lambda>q. Inr []), pq_read = (\<lambda>data. Inl (PqFile, ErrMsg ''not kept''))\<rparr>"

theorem flushed_batch_typed_witness:
  "\<exists>out z' rows. ps_flush silent_parquet \<lparr>ps_columns = sample_columns, ps_batch_size = 10, ps_writer = Some (),
       ps_rows = [sample_record, sample_record]\<rparr> = Inr (out, z') \<and> ps_rows z' = [] \<and>
     list_all2 (typed_row sample_columns) [sample_record, sample_record] rows \<and>
     (\<forall>row \<in> set rows. conforms (convert_to_arrow_schema sample_columns) row)"
proof -
  let ?z = "\<lparr>ps_columns = sample_columns, ps_batch_size = 10, ps_writer = Some (), ps_rows = [sample_record, sample_record]\<rparr>"
  have "\<exists>out z'. ps_flush silent_parquet ?z = Inr (out, z')"
    by (simp add: ps_flush_def silent_parquet_def sample_columns_def sample_record_def build_column_def make_cell_def
        map_get_def get_arrow_type_def append_value_def)
  then obtain out z' where fl: "ps_flush silent_parquet ?z = Inr (out, z')" by blast
  have "\<forall>rc \<in> set (ps_rows ?z). \<forall>c \<in> set (ps_columns ?z). \<not> nullable c \<longrightarrow> map_get (rec_data rc) (col_name c) \<noteq> VNil"
    by (simp add: sample_columns_def sample_record_def map_get_def)
  with flushed_batch_typed [OF fl] fl show ?thesis by auto
qed

end
