(* ===== verification/Config.thy ===== *)
theory Config
  imports Json
begin

text \<open>
  \<open>internal/config/config.go\<close>: the configuration, and the JSON that \<open>encoding/json\<close> makes of it (the
  structs have YAML tags only, so the keys are the field names). An empty slice or map is nil.
\<close>

text \<open>\<open>param\<close> is a lookup in \<open>Params\<close>.\<close>

record db_config =
  db_type :: string
  db_host :: string
  db_hosts :: "string list"
  db_port :: int
  db_user :: string
  db_password :: string
  db_database :: string
  db_keyspace :: string
  db_tables :: "string list"
  db_params :: "(string \<times> string) list"

definition param :: "db_config \<Rightarrow> string \<Rightarrow> string" where
  "param cfg k = (case map_of (db_params cfg) k of None \<Rightarrow> [] | Some v \<Rightarrow> v)"

record migration_config =
  mc_mapping_file :: string
  mc_conflict :: string
  mc_verify_after :: bool
  mc_sample_pct :: rat
  mc_masking :: "masking_config list"

record storage_config =
  so_type :: string
  so_bucket :: string
  so_prefix :: string
  so_region :: string

record retention_config =
  keep_last :: int
  keep_daily :: int
  keep_weekly :: int
  keep_monthly :: int

record backup_config =
  bc_format :: string
  bc_compression :: string
  bc_chunk_mb :: "64 word"
  bc_storage :: storage_config
  bc_retention :: retention_config

record checkpoint_config =
  cc_path :: string
  cc_flush_every :: int

record telemetry_config =
  tc_log_level :: string
  tc_log_format :: string
  tc_metrics_addr :: string
  tc_tracing :: string

record config =
  cf_operation :: string
  cf_source :: db_config
  cf_target :: db_config
  cf_concurrency :: concurrency_config
  cf_migration :: migration_config
  cf_backup :: backup_config
  cf_checkpoint :: checkpoint_config
  cf_telemetry :: telemetry_config

section \<open>As JSON\<close>

definition j_int :: "int \<Rightarrow> json" where "j_int i = JNum (LInt i)"

definition j_strings :: "string list \<Rightarrow> json" where
  "j_strings xs = (if xs = [] then JNull else JArr (map JStr xs))"

definition db_json :: "db_config \<Rightarrow> json" where
  "db_json c =
     JObj [(''Type'', JStr (db_type c)), (''Host'', JStr (db_host c)), (''Hosts'', j_strings (db_hosts c)),
           (''Port'', j_int (db_port c)), (''User'', JStr (db_user c)), (''Password'', JStr (db_password c)),
           (''Database'', JStr (db_database c)), (''Keyspace'', JStr (db_keyspace c)),
           (''Tables'', j_strings (db_tables c)),
           (''Params'', if db_params c = [] then JNull
                        else JObj (sort_key fst (map (\<lambda>(k, v). (k, JStr v)) (db_params c))))]"

definition concurrency_json :: "concurrency_config \<Rightarrow> json" where
  "concurrency_json c =
     JObj [(''NumReaders'', j_int (num_readers c)), (''NumTransformers'', j_int (num_transformers c)),
           (''NumWriters'', j_int (num_writers c)), (''BatchSize'', j_int (batch_size c)),
           (''BatchTimeout'', j_int (batch_timeout c)), (''RateLimitRPS'', j_int (rate_limit_rps c)),
           (''FlushEveryNBatches'', j_int (flush_every_n_batches c))]"

definition migration_json :: "migration_config \<Rightarrow> json" where
  "migration_json c =
     JObj [(''SchemaMappingFile'', JStr (mc_mapping_file c)), (''ConflictStrategy'', JStr (mc_conflict c)),
           (''VerifyAfter'', JBool (mc_verify_after c)), (''VerifySamplePct'', JNum (float_lit 53 (mc_sample_pct c))),
           (''Masking'', if mc_masking c = [] then JNull
              else JArr (map (\<lambda>m. JObj [(''Column'', JStr (mask_column m)), (''Strategy'', JStr (mask_strategy m))])
                         (mc_masking c)))]"

definition backup_json :: "backup_config \<Rightarrow> json" where
  "backup_json c =
     (let s = bc_storage c; r = bc_retention c in
      JObj [(''Format'', JStr (bc_format c)), (''Compression'', JStr (bc_compression c)),
            (''ChunkSizeMB'', j_int (sint (bc_chunk_mb c))),
            (''Storage'', JObj [(''Type'', JStr (so_type s)), (''Bucket'', JStr (so_bucket s)),
               (''Prefix'', JStr (so_prefix s)), (''Region'', JStr (so_region s))]),
            (''Retention'', JObj [(''KeepLast'', j_int (keep_last r)), (''KeepDaily'', j_int (keep_daily r)),
               (''KeepWeekly'', j_int (keep_weekly r)), (''KeepMonthly'', j_int (keep_monthly r))])])"

definition config_json :: "config \<Rightarrow> json" where
  "config_json c =
     JObj [(''Operation'', JStr (cf_operation c)), (''Source'', db_json (cf_source c)),
           (''Target'', db_json (cf_target c)), (''Concurrency'', concurrency_json (cf_concurrency c)),
           (''Migration'', migration_json (cf_migration c)), (''Backup'', backup_json (cf_backup c)),
           (''Checkpoint'', JObj [(''Path'', JStr (cc_path (cf_checkpoint c))),
              (''FlushEveryNBatches'', j_int (cc_flush_every (cf_checkpoint c)))]),
           (''Telemetry'', JObj [(''LogLevel'', JStr (tc_log_level (cf_telemetry c))),
              (''LogFormat'', JStr (tc_log_format (cf_telemetry c))),
              (''MetricsAddr'', JStr (tc_metrics_addr (cf_telemetry c))),
              (''TracingEndpoint'', JStr (tc_tracing (cf_telemetry c)))])]"

end
