(* ===== verification/Adapter.thy ===== *)
theory Adapter
  imports Fmt Config
begin

text \<open>
  \<open>internal/adapter/adapter.go\<close>, the interfaces of the database adapters, and the machinery their
  models share. A target's operations return an error and leave the database in some state, also
  when they fail. A source's \<open>ReadPartition\<close> is what it sends, what it returns and whether it closes
  the channel. \<open>ctx i\<close> tells, for the \<open>i\<close>th row, whether \<open>ctx.Err()\<close> is set before it and whether the
  \<open>select\<close> that sends it takes \<open>ctx.Done()\<close>.
\<close>

section \<open>Targets\<close>

record 't target_ops =
  ta_apply :: "'t \<Rightarrow> db_schema \<Rightarrow> goerr option \<times> 't"
  ta_write :: "'t \<Rightarrow> go_record list \<Rightarrow> int \<times> goerr option \<times> 't"

text \<open>Writing batches one after the other, whatever they return.\<close>

fun write_all :: "'t target_ops \<Rightarrow> 't \<Rightarrow> go_record list list \<Rightarrow> 't" where
  "write_all ta t [] = t"
| "write_all ta t (b # bs) = write_all ta (snd (snd (ta_write ta t b))) bs"

text \<open>The batches \<open>bs\<close> were written one after the other, each acknowledged.\<close>

fun acked :: "'t target_ops \<Rightarrow> 't \<Rightarrow> go_record list list \<Rightarrow> 't \<Rightarrow> bool" where
  "acked ta t [] t' = (t' = t)"
| "acked ta t (b # bs) t' =
     (case ta_write ta t b of (n, None, t1) \<Rightarrow> acked ta t1 bs t' | (n, Some e, t1) \<Rightarrow> False)"

lemma acked_append: "acked ta t bs t1 \<Longrightarrow> acked ta t1 cs t' \<Longrightarrow> acked ta t (bs @ cs) t'"
  by (induction bs arbitrary: t) (auto split: prod.splits option.splits)

text \<open>A target that accepts every batch in full.\<close>

definition accepting :: "'t target_ops \<Rightarrow> bool" where
  "accepting ta \<longleftrightarrow> (\<forall>t b. \<exists>t'. ta_write ta t b = (int (length b), None, t'))"

lemma write_all_append [simp]: "write_all ta t (bs @ cs) = write_all ta (write_all ta t bs) cs"
  by (induction bs arbitrary: t) auto

lemma acceptingE:
  assumes "accepting ta"
  obtains t' where "ta_write ta t b = (int (length b), None, t')"
  using assms by (auto simp: accepting_def)

section \<open>Sources\<close>

record partition_read =
  pr_records :: "go_record list"
  pr_error :: "goerr option"
  pr_closes :: bool

record source_ops =
  sa_type :: string
  sa_partitions :: "string \<Rightarrow> int \<Rightarrow> partition list result"
  sa_read :: "(nat \<Rightarrow> bool \<times> bool) \<Rightarrow> partition \<Rightarrow> partition_read"
  sa_schema :: "string \<Rightarrow> db_schema result"

type_synonym ctx = "nat \<Rightarrow> bool \<times> bool"

definition background :: ctx where
  "background i = (False, False)"

text \<open>
  The loop over the rows of a cursor: check the context, decode the row, send it. \<open>end_err\<close> is the
  cursor's own error after its last row.
\<close>

fun stream :: "ctx \<Rightarrow> ('r \<Rightarrow> go_record result) \<Rightarrow> goerr option \<Rightarrow> nat \<Rightarrow> 'r list \<Rightarrow> go_record list \<times> goerr option" where
  "stream c f end_err i [] = ([], end_err)"
| "stream c f end_err i (r # rs) =
     (if fst (c i) then ([], Some (Sentinel ContextCanceled))
      else case f r of
             Inl e \<Rightarrow> ([], Some e)
           | Inr rc \<Rightarrow>
               if snd (c i) then ([], Some (Sentinel ContextCanceled))
               else let (out, e) = stream c f end_err (Suc i) rs in (rc # out, e))"

definition closed_read :: "go_record list \<times> goerr option \<Rightarrow> partition_read" where
  "closed_read r = \<lparr>pr_records = fst r, pr_error = snd r, pr_closes = True\<rparr>"

lemma stream_background:
  "stream background (\<lambda>r. Inr (g r)) end_err i rs = (map g rs, end_err)"
  by (induction rs arbitrary: i) (simp_all add: background_def)

text \<open>Whatever happens, only decoded rows are sent, in order.\<close>

lemma stream_prefix:
  "\<exists>k \<le> length rs. list_all2 (\<lambda>r rc. f r = Inr rc) (take k rs) (fst (stream c f end_err i rs))"
proof (induction rs arbitrary: i)
  case (Cons r rs)
  from Cons [of "Suc i"] obtain k where k: "k \<le> length rs"
    "list_all2 (\<lambda>r rc. f r = Inr rc) (take k rs) (fst (stream c f end_err (Suc i) rs))" by blast
  show ?case
  proof (cases "fst (c i) \<or> snd (c i) \<or> (\<exists>e. f r = Inl e)")
    case True
    then have "fst (stream c f end_err i (r # rs)) = []" by (auto split: sum.splits)
    then show ?thesis by (intro exI [of _ 0]) simp
  next
    case False
    then obtain rc where "f r = Inr rc" by (cases "f r") auto
    with False k show ?thesis
      by (intro exI [of _ "Suc k"]) (simp add: case_prod_unfold Let_def)
  qed
qed simp

section \<open>Range partitioning\<close>

text \<open>
  What a source promises when it splits a table: every key of its domain lies in exactly one
  partition. Reading each partition then yields every row with such a key exactly once.
\<close>

definition in_one :: "('p \<Rightarrow> 'k \<Rightarrow> bool) \<Rightarrow> 'p list \<Rightarrow> 'k \<Rightarrow> bool" where
  "in_one holds ps k \<longleftrightarrow> length (filter (\<lambda>p. holds p k) ps) = 1"

locale range_partitioning =
  fixes holds :: "'p \<Rightarrow> 'k \<Rightarrow> bool"
    and parts :: "'a \<Rightarrow> 'p list"
    and keys :: "'a \<Rightarrow> 'k set"
  assumes exactly_one: "k \<in> keys x \<Longrightarrow> in_one holds (parts x) k"
begin

lemma reads_each_row_once:
  assumes "\<forall>r \<in> set rows. key r \<in> keys x"
  shows "mset (concat (map (\<lambda>p. filter (\<lambda>r. holds p (key r)) rows) (parts x))) = mset rows"
  using assms
proof (induction rows)
  case (Cons r rows)
  let ?read = "\<lambda>rs p. filter (\<lambda>r. holds p (key r)) rs"
  have "mset (concat (map (?read (r # rows)) ps)) =
      replicate_mset (length (filter (\<lambda>p. holds p (key r)) ps)) r + mset (concat (map (?read rows) ps))" for ps
    by (induction ps) auto
  moreover have "length (filter (\<lambda>p. holds p (key r)) (parts x)) = 1"
    using Cons.prems exactly_one by (simp add: in_one_def)
  ultimately show ?case using Cons by simp
qed simp

end

lemma in_oneI:
  assumes "i < length ps" and "holds (ps ! i) k" and "\<And>j. j < length ps \<Longrightarrow> holds (ps ! j) k \<Longrightarrow> j = i"
  shows "in_one holds ps k"
proof -
  have "{j. j < length ps \<and> holds (ps ! j) k} = {i}"
  proof (intro equalityI subsetI)
    fix j assume "j \<in> {j. j < length ps \<and> holds (ps ! j) k}"
    with assms(3) show "j \<in> {i}" by blast
  next
    fix j assume "j \<in> {i}"
    with assms(1,2) show "j \<in> {j. j < length ps \<and> holds (ps ! j) k}" by blast
  qed
  then show ?thesis by (simp add: in_one_def length_filter_conv_card)
qed

text \<open>Ranges of 64-bit keys, the upper bound excluded.\<close>

definition range_holds :: "partition \<Rightarrow> int \<Rightarrow> bool" where
  "range_holds p k \<longleftrightarrow>
     (case (part_start p, part_end p) of
        (VInt64 a, VInt64 b) \<Rightarrow> sint a \<le> k \<and> k < sint b
      | _ \<Rightarrow> False)"

lemma sint_word_of_int_eq:
  "- (2 ^ 63) \<le> i \<Longrightarrow> i < 2 ^ 63 \<Longrightarrow> sint (word_of_int i :: 64 word) = i"
  by (simp add: sint_sbintrunc' signed_take_bit_int_eq_self_iff)

lemma sint_range: "- (2 ^ 63) \<le> sint (w :: 64 word) \<and> sint w < 2 ^ 63"
  using sint_ge [of w] sint_lt [of w] by simp

end
