(* ===== verification/Backup.thy ===== *)
theory Backup
  imports Storage Serializer Sha256 Adapter
begin

text \<open>
  \<open>internal/backup/engine.go\<close>, \<open>manifest.go\<close> and \<open>compressor.go\<close>: a table is read partition by
  partition into chunks, each serialized, compressed, hashed and stored, and a manifest lists
  them. The zstd encoder is a parameter that takes stream symbols and shows the bytes it has put
  into the buffer so far. A stored object is the bytes of a chunk or a manifest (the JSON text of
  the manifest is kept as its value).
\<close>

section \<open>Data\<close>

record chunk =
  ck_index :: nat
  ck_file :: string
  ck_row_count :: int
  ck_sha256 :: string

record manifest =
  mf_version :: int
  mf_operation_id :: string
  mf_source_type :: string
  mf_source_db :: string
  mf_source_table :: string
  mf_created_at :: int
  mf_row_count :: int
  mf_chunk_size :: int
  mf_chunks :: "chunk list"
  mf_schema :: db_schema

datatype blob = BData "8 word list" | BManifest manifest

record 'c zstd_ops =
  zs_new :: "'c result"
  zs_write :: "'c \<Rightarrow> sym list \<Rightarrow> 'c result"
  zs_close :: "'c \<Rightarrow> 'c result"
  zs_buffer :: "'c \<Rightarrow> 8 word list"
  zs_decode :: "8 word list \<Rightarrow> sym list result"

record ('z, 'c, 's) engine =
  en_ser :: "'z serializer_ops"
  en_zstd :: "'c zstd_ops"
  en_storage :: "('s, blob) storage_ops"
  en_num_readers :: int

definition new_engine ::
  "('s, blob) storage_ops \<Rightarrow> 'z serializer_ops \<Rightarrow> 'c zstd_ops \<Rightarrow> int \<Rightarrow> ('z, 'c, 's) engine" where
  "new_engine st ser zs n =
     \<lparr>en_ser = ser, en_zstd = zs, en_storage = st, en_num_readers = (if n \<le> 0 then 16 else n)\<rparr>"

section \<open>The chunk manager\<close>

text \<open>With the serializer and the storage behind the engine's pointers.\<close>

record ('z, 'c, 's) chunk_manager =
  cm_max_size :: int
  cm_index :: nat
  cm_total :: int
  cm_chunks :: "chunk list"
  cm_comp :: "'c option"
  cm_file :: string
  cm_rows :: int
  cm_ser :: 'z
  cm_storage :: 's

definition new_chunk_manager :: "int \<Rightarrow> 'z \<Rightarrow> 's \<Rightarrow> ('z, 'c, 's) chunk_manager" where
  "new_chunk_manager max_size z s =
     \<lparr>cm_max_size = max_size, cm_index = 0, cm_total = 0, cm_chunks = [], cm_comp = None,
      cm_file = [], cm_rows = 0, cm_ser = z, cm_storage = s\<rparr>"

definition chunk_name :: "nat \<Rightarrow> string" where
  "chunk_name i = ''chunk-'' @ pad4 i @ ''.parquet.zst''"

text \<open>The serializer writes through the compressor.\<close>

definition emit :: "'c zstd_ops \<Rightarrow> 'c \<Rightarrow> sym list \<Rightarrow> 'c result" where
  "emit zs c out = (if out = [] then Inr c else zs_write zs c out)"

definition for_chunk :: "string \<Rightarrow> nat \<Rightarrow> string" where
  "for_chunk what i = what @ '' '' @ show_nat i"

definition open_chunk ::
  "('z, 'c, 's) engine \<Rightarrow> ('z, 'c, 's) chunk_manager \<Rightarrow> ('z, 'c, 's) chunk_manager result" where
  "open_chunk en cm =
     rbind (wrap_err (for_chunk ''failed to create compressor for chunk'' (cm_index cm))
              (wrap_err ''failed to create zstd writer'' (zs_new (en_zstd en)))) (\<lambda>c.
     rbind (wrap_err (for_chunk ''failed to open serializer for chunk'' (cm_index cm))
              (rbind (so_open (en_ser en) (cm_ser cm)) (\<lambda>(out, z).
               rbind (emit (en_zstd en) c out) (\<lambda>c'. Inr (c', z)))))
       (\<lambda>(c', z). Inr (cm\<lparr>cm_file := chunk_name (cm_index cm), cm_comp := Some c', cm_ser := z\<rparr>)))"

definition flush_chunk ::
  "('z, 'c, 's) engine \<Rightarrow> ('z, 'c, 's) chunk_manager \<Rightarrow> ('z, 'c, 's) chunk_manager result" where
  "flush_chunk en cm =
     (case cm_comp cm of
        None \<Rightarrow> Inl (ErrMsg ''no open chunk'')
      | Some c \<Rightarrow>
          rbind (wrap_err (for_chunk ''failed to close serializer for chunk'' (cm_index cm))
                   (rbind (so_close (en_ser en) (cm_ser cm)) (\<lambda>(out, z).
                    rbind (emit (en_zstd en) c out) (\<lambda>c'. Inr (c', z))))) (\<lambda>(c', z).
          rbind (wrap_err (for_chunk ''failed to close compressor for chunk'' (cm_index cm))
                   (zs_close (en_zstd en) c')) (\<lambda>c''.
          let data = zs_buffer (en_zstd en) c''; checksum = sha256_hex data in
          rbind (wrap_err (for_chunk ''failed to upload chunk'' (cm_index cm))
                   (st_put (en_storage en) (cm_storage cm) (cm_file cm) (BData data))) (\<lambda>s.
          Inr (cm\<lparr>cm_chunks := cm_chunks cm @
                    [\<lparr>ck_index = cm_index cm, ck_file = cm_file cm, ck_row_count = cm_rows cm,
                      ck_sha256 = checksum\<rparr>],
                  cm_index := cm_index cm + 1, cm_comp := Some c'', cm_ser := z, cm_storage := s\<rparr>)))))"

definition add_record ::
  "('z, 'c, 's) engine \<Rightarrow> ('z, 'c, 's) chunk_manager \<Rightarrow> go_record \<Rightarrow> ('z, 'c, 's) chunk_manager result" where
  "add_record en cm rc =
     (case cm_comp cm of
        None \<Rightarrow> Inl (ErrMsg ''no open chunk'')
      | Some c \<Rightarrow>
          rbind (so_serialize (en_ser en) (cm_ser cm) rc) (\<lambda>(out, z).
          rbind (emit (en_zstd en) c out) (\<lambda>c'.
          let cm1 = cm\<lparr>cm_comp := Some c', cm_ser := z, cm_rows := cm_rows cm + 1,
                       cm_total := cm_total cm + 1\<rparr> in
          if cm_max_size cm \<le> int (length (zs_buffer (en_zstd en) c'))
          then rbind (flush_chunk en cm1) (\<lambda>cm2. open_chunk en (cm2\<lparr>cm_rows := 0\<rparr>))
          else Inr cm1)))"

text \<open>Errors of the two \<open>Close\<close> calls on an empty last chunk are discarded; nothing is stored.\<close>

definition flush_final_chunk ::
  "('z, 'c, 's) engine \<Rightarrow> ('z, 'c, 's) chunk_manager \<Rightarrow> ('z, 'c, 's) chunk_manager result" where
  "flush_final_chunk en cm =
     (if 0 < cm_rows cm then flush_chunk en cm
      else case so_close (en_ser en) (cm_ser cm) of
             Inl _ \<Rightarrow> Inr cm
           | Inr (out, z) \<Rightarrow> Inr (cm\<lparr>cm_ser := z\<rparr>))"

section \<open>The engine\<close>

fun add_records ::
  "('z, 'c, 's) engine \<Rightarrow> ('z, 'c, 's) chunk_manager \<Rightarrow> go_record list \<Rightarrow> ('z, 'c, 's) chunk_manager result" where
  "add_records en cm [] = Inr cm"
| "add_records en cm (r # rs) = rbind (add_record en cm r) (\<lambda>cm'. add_records en cm' rs)"

text \<open>
  One partition, from what the source sends, whether it closes the channel, and what
  \<open>ReadPartition\<close> returns. The result is \<^const>\<open>None\<close> when the loop waits for ever.
\<close>

definition backup_partition ::
  "('z, 'c, 's) engine \<Rightarrow> ('z, 'c, 's) chunk_manager \<Rightarrow> partition \<Rightarrow> partition_read
   \<Rightarrow> ('z, 'c, 's) chunk_manager result option" where
  "backup_partition en cm p pr =
     (case add_records en cm (pr_records pr) of
        Inl e \<Rightarrow> Some (Inl (Wrapf (''serialize error in partition '' @ part_id p) e))
      | Inr cm' \<Rightarrow>
          if \<not> pr_closes pr then None
          else case pr_error pr of
                 Some e \<Rightarrow> Some (Inl (Wrapf (''read error in partition '' @ part_id p) e))
               | None \<Rightarrow> Some (Inr cm'))"

fun backup_partitions ::
  "('z, 'c, 's) engine \<Rightarrow> (partition \<Rightarrow> partition_read) \<Rightarrow> ('z, 'c, 's) chunk_manager \<Rightarrow> partition list
   \<Rightarrow> ('z, 'c, 's) chunk_manager result option" where
  "backup_partitions en src cm [] = Some (Inr cm)"
| "backup_partitions en src cm (p # ps) =
     (case backup_partition en cm p (src p) of
        None \<Rightarrow> None
      | Some (Inl e) \<Rightarrow> Some (Inl e)
      | Some (Inr cm') \<Rightarrow> backup_partitions en src cm' ps)"

definition save_manifest ::
  "('z, 'c, 's) engine \<Rightarrow> 's \<Rightarrow> manifest \<Rightarrow> 's result" where
  "save_manifest en s m =
     wrap_err ''failed to write manifest'' (st_put (en_storage en) s ''manifest.json'' (BManifest m))"

record source_info =
  si_type :: string
  si_schema :: "db_schema result"
  si_partitions :: "int \<Rightarrow> partition list result"
  si_read :: "partition \<Rightarrow> partition_read"

text \<open>A source adapter and a table, as \<open>Backup\<close> uses them.\<close>

definition info_of :: "source_ops \<Rightarrow> string \<Rightarrow> source_info" where
  "info_of src table =
     \<lparr>si_type = sa_type src, si_schema = sa_schema src table, si_partitions = sa_partitions src table,
      si_read = sa_read src background\<rparr>"

definition effective_size :: "int \<Rightarrow> int" where
  "effective_size n = (if n \<le> 0 then 512 * 1024 * 1024 else n)"

definition backup ::
  "('z, 'c, 's) engine \<Rightarrow> int \<Rightarrow> string \<Rightarrow> source_info \<Rightarrow> string \<Rightarrow> int \<Rightarrow> 'z \<Rightarrow> 's
   \<Rightarrow> (manifest \<times> 's) result option" where
  "backup en now op_id src table chunk_size z s =
     (let size = effective_size chunk_size in
      case wrap_err (''failed to get schema for table '' @ quote table) (si_schema src) of
        Inl e \<Rightarrow> Some (Inl e)
      | Inr sch \<Rightarrow>
      case wrap_err (''failed to get partitions for table '' @ quote table)
             (si_partitions src (en_num_readers en)) of
        Inl e \<Rightarrow> Some (Inl e)
      | Inr ps \<Rightarrow>
      case open_chunk en (new_chunk_manager size z s) of
        Inl e \<Rightarrow> Some (Inl e)
      | Inr cm \<Rightarrow>
      case backup_partitions en (si_read src) cm ps of
        None \<Rightarrow> None
      | Some (Inl e) \<Rightarrow> Some (Inl e)
      | Some (Inr cm') \<Rightarrow>
      case flush_final_chunk en cm' of
        Inl e \<Rightarrow> Some (Inl e)
      | Inr cm'' \<Rightarrow>
          (let m = \<lparr>mf_version = 1, mf_operation_id = op_id, mf_source_type = si_type src,
                    mf_source_db = [], mf_source_table = table, mf_created_at = now,
                    mf_row_count = cm_total cm'', mf_chunk_size = size,
                    mf_chunks = cm_chunks cm'', mf_schema = sch\<rparr>
           in Some (rbind (save_manifest en (cm_storage cm'') m) (\<lambda>s'. Inr (m, s')))))"

end
