(* ===== verification/Restore.thy ===== *)
theory Restore
  imports Backup
begin

text \<open>
  \<open>internal/backup/restore.go\<close>: a manifest is read, the schema applied, and every chunk fetched,
  decompressed, checked against its checksum and written to the target in batches of at most
  1000 records. Every function returns the error and the target's state at that point.
\<close>

record ('c, 'q, 's, 't) restore_engine =
  re_storage :: "('s, blob) storage_ops"
  re_target :: "'t target_ops"
  re_zstd :: "'c zstd_ops"
  re_parquet :: "'q pq_ops"

definition new_restore_engine ::
  "('s, blob) storage_ops \<Rightarrow> 't target_ops \<Rightarrow> 'c zstd_ops \<Rightarrow> 'q pq_ops \<Rightarrow> ('c, 'q, 's, 't) restore_engine" where
  "new_restore_engine st ta zs pq = \<lparr>re_storage = st, re_target = ta, re_zstd = zs, re_parquet = pq\<rparr>"

definition batch_capacity :: nat where
  "batch_capacity = 1000"

section \<open>Batches\<close>

text \<open>
  A record joins the batch; a full batch is written. The result is the error, if any, the new batch,
  the total and the target.
\<close>

definition push_record ::
  "'t target_ops \<Rightarrow> go_record \<Rightarrow> go_record list \<Rightarrow> int \<Rightarrow> 't \<Rightarrow> goerr option \<times> go_record list \<times> int \<times> 't" where
  "push_record ta rc batch tot t =
     (let b = batch @ [rc] in
      if batch_capacity \<le> length b
      then case ta_write ta t b of
             (n, Some e, t') \<Rightarrow> (Some (Wrapf ''failed to write batch'' e), b, tot, t')
           | (n, None, t') \<Rightarrow> (None, [], tot + n, t')
      else (None, b, tot, t))"

definition finish_batches ::
  "'t target_ops \<Rightarrow> goerr option \<Rightarrow> go_record list \<Rightarrow> int \<Rightarrow> 't \<Rightarrow> int \<times> goerr option \<times> 't" where
  "finish_batches ta end_err batch tot t =
     (if batch = [] then (tot, end_err, t)
      else case ta_write ta t batch of
             (n, Some e, t') \<Rightarrow> (tot, Some (Wrapf ''failed to write final batch'' e), t')
           | (n, None, t') \<Rightarrow> (tot + n, end_err, t'))"

section \<open>NDJSON chunks\<close>

definition json_row :: "sym \<Rightarrow> go_map result" where
  "json_row s =
     (case s of
        JLine j \<Rightarrow> object_of_json False j
      | PByte b \<Rightarrow> Inl (ErrMsg ''invalid character''))"

definition bare_record :: "go_map \<Rightarrow> go_record" where
  "bare_record m = \<lparr>rec_id = [], rec_data = m, rec_meta = zero_metadata\<rparr>"

fun restore_json_chunk ::
  "'t target_ops \<Rightarrow> sym list \<Rightarrow> go_record list \<Rightarrow> int \<Rightarrow> 't \<Rightarrow> int \<times> goerr option \<times> 't" where
  "restore_json_chunk ta [] batch tot t = finish_batches ta None batch tot t"
| "restore_json_chunk ta (s # ss) batch tot t =
     (case json_row s of
        Inl e \<Rightarrow> (tot, Some (Wrapf ''failed to decode record'' e), t)
      | Inr row \<Rightarrow>
          case push_record ta (bare_record row) batch tot t of
            (Some e, batch', tot', t') \<Rightarrow> (tot', Some e, t')
          | (None, batch', tot', t') \<Rightarrow> restore_json_chunk ta ss batch' tot' t')"

section \<open>Parquet chunks\<close>

definition row_data :: "string list \<Rightarrow> cell list \<Rightarrow> go_map" where
  "row_data names row = foldl (\<lambda>m (n, c). map_set n (get_val c) m) [] (zip names row)"

fun restore_rows ::
  "'t target_ops \<Rightarrow> string list \<Rightarrow> goerr option \<Rightarrow> cell list list \<Rightarrow> go_record list \<Rightarrow> int \<Rightarrow> 't
   \<Rightarrow> int \<times> goerr option \<times> 't" where
  "restore_rows ta names end_err [] batch tot t = finish_batches ta end_err batch tot t"
| "restore_rows ta names end_err (row # rows) batch tot t =
     (case push_record ta (bare_record (row_data names row)) batch tot t of
        (Some e, batch', tot', t') \<Rightarrow> (tot', Some e, t')
      | (None, batch', tot', t') \<Rightarrow> restore_rows ta names end_err rows batch' tot' t')"

definition stage_text :: "pq_stage \<Rightarrow> string" where
  "stage_text st =
     (case st of
        PqFile \<Rightarrow> ''failed to create parquet reader''
      | PqArrow \<Rightarrow> ''failed to create pqarrow reader''
      | PqRecords \<Rightarrow> ''failed to get record reader'')"

definition restore_parquet_chunk ::
  "'t target_ops \<Rightarrow> 'q pq_ops \<Rightarrow> sym list \<Rightarrow> 't \<Rightarrow> int \<times> goerr option \<times> 't" where
  "restore_parquet_chunk ta pq data t =
     (case pq_read pq data of
        Inl (stage, e) \<Rightarrow> (0, Some (Wrapf (stage_text stage) e), t)
      | Inr (names, rows, end_err) \<Rightarrow> restore_rows ta names end_err rows [] 0 t)"

section \<open>The engine\<close>

definition is_parquet :: "string \<Rightarrow> sym list \<Rightarrow> bool" where
  "is_parquet file data \<longleftrightarrow>
     contains_sub file ''.parquet'' \<or> has_prefix data (map PByte (bytes_of ''PAR1''))"

definition checksum_text :: "chunk \<Rightarrow> string \<Rightarrow> string" where
  "checksum_text ck actual =
     ''checksum mismatch for chunk '' @ show_nat (ck_index ck) @ '': expected '' @ ck_sha256 ck @
     '', got '' @ actual"

definition restore_chunk ::
  "('c, 'q, 's, 't) restore_engine \<Rightarrow> 's \<Rightarrow> chunk \<Rightarrow> 't \<Rightarrow> int \<times> goerr option \<times> 't" where
  "restore_chunk en s ck t =
     (case st_get (re_storage en) s (ck_file ck) of
        Inl e \<Rightarrow> (0, Some (Wrapf ''failed to get chunk file'' e), t)
      | Inr (BManifest m) \<Rightarrow> (0, Some (Wrapf ''failed to read chunk data'' (ErrMsg ''invalid input: magic number mismatch'')), t)
      | Inr (BData bs) \<Rightarrow>
          case zs_decode (re_zstd en) bs of
            Inl e \<Rightarrow> (0, Some (Wrapf ''failed to read chunk data'' e), t)
          | Inr data \<Rightarrow>
              if sha256_hex bs \<noteq> ck_sha256 ck
              then (0, Some (ErrMsg (checksum_text ck (sha256_hex bs))), t)
              else if is_parquet (ck_file ck) data
              then restore_parquet_chunk (re_target en) (re_parquet en) data t
              else restore_json_chunk (re_target en) data [] 0 t)"

definition chunk_failed :: "chunk \<Rightarrow> string" where
  "chunk_failed ck = ''failed to restore chunk '' @ show_nat (ck_index ck) @ '' ('' @ ck_file ck @ '')''"

fun restore_chunks ::
  "('c, 'q, 's, 't) restore_engine \<Rightarrow> 's \<Rightarrow> chunk list \<Rightarrow> 't \<Rightarrow> goerr option \<times> 't" where
  "restore_chunks en s [] t = (None, t)"
| "restore_chunks en s (ck # cks) t =
     (case restore_chunk en s ck t of
        (n, Some e, t') \<Rightarrow> (Some (Wrapf (chunk_failed ck) e), t')
      | (n, None, t') \<Rightarrow> restore_chunks en s cks t')"

definition restore ::
  "('c, 'q, 's, 't) restore_engine \<Rightarrow> 's \<Rightarrow> string \<Rightarrow> 't \<Rightarrow> goerr option \<times> 't" where
  "restore en s path t =
     (case st_get (re_storage en) s path of
        Inl e \<Rightarrow> (Some (Wrapf (''failed to get manifest '' @ quote path) e), t)
      | Inr (BData bs) \<Rightarrow> (Some (Wrapf ''failed to decode manifest'' (ErrMsg ''invalid character'')), t)
      | Inr (BManifest m) \<Rightarrow>
          case ta_apply (re_target en) t (mf_schema m) of
            (Some e, t') \<Rightarrow> (Some (Wrapf ''failed to apply schema'' e), t')
          | (None, t') \<Rightarrow> restore_chunks en s (mf_chunks m) t')"

end
