(* ===== verification/Backup_Props.thy ===== *)
theory Backup_Props
  imports Backup Parquet_Props Storage_Props
begin

text \<open>
  What a finished backup guarantees: the manifest accounts for every record of every partition,
  in order, and each chunk it lists is stored under its own name with the listed checksum and
  decodes to a rendering of its records. The proof follows the chunk manager with a ghost: the
  records of the chunks already stored, and those of the open chunk.
\<close>

section \<open>Chunk names\<close>

lemma show_nat_digits: "c \<in> set (show_nat n) \<Longrightarrow> \<exists>d < 10. c = digit_char d"
proof (induction n rule: show_nat.induct)
  case (1 n)
  show ?case
  proof (cases "n < 10")
    case True
    with 1(2) show ?thesis by (subst (asm) show_nat.simps) auto
  next
    case False
    have "c \<in> set (show_nat (n div 10)) \<or> c = digit_char (n mod 10)"
      using 1(2) False by (subst (asm) show_nat.simps) auto
    then show ?thesis
    proof
      assume "c \<in> set (show_nat (n div 10))"
      then show ?thesis by (rule 1(1) [OF False])
    next
      assume "c = digit_char (n mod 10)"
      then show ?thesis by (intro exI [of _ "n mod 10"]) simp
    qed
  qed
qed

lemma digit_char_not_slash: "d < 10 \<Longrightarrow> digit_char d \<noteq> CHR ''/''"
  by (auto simp: digit_char_def dest!: arg_cong [where f = "of_char :: char \<Rightarrow> nat"])

lemma chunk_name_plain: "plain (chunk_name i)"
proof -
  have "CHR ''/'' \<notin> set (show_nat i)" using show_nat_digits digit_char_not_slash by metis
  then show ?thesis by (simp add: plain_def chunk_name_def pad4_def has_prefix_def)
qed

lemma chunk_name_inj [simp]: "chunk_name i = chunk_name j \<longleftrightarrow> i = j"
  by (simp add: chunk_name_def)

lemma chunk_name_not_manifest: "chunk_name i \<noteq> ''manifest.json''"
  by (simp add: chunk_name_def)

lemma manifest_plain: "plain ''manifest.json''"
  by (simp add: plain_def has_prefix_def)

section \<open>The compressor\<close>

fun emit_all :: "'c zstd_ops \<Rightarrow> 'c \<Rightarrow> sym list list \<Rightarrow> 'c result" where
  "emit_all zs c [] = Inr c"
| "emit_all zs c (out # outs) = rbind (emit zs c out) (\<lambda>c'. emit_all zs c' outs)"

text \<open>What the backup relies on of zstd: a closed stream decodes to what was written.\<close>

definition zstd_laws :: "'c zstd_ops \<Rightarrow> bool" where
  "zstd_laws zs \<longleftrightarrow>
     (\<forall>c0 outs c c'. zs_new zs = Inr c0 \<longrightarrow> emit_all zs c0 outs = Inr c \<longrightarrow> zs_close zs c = Inr c' \<longrightarrow>
        zs_decode zs (zs_buffer zs c') = Inr (concat outs))"

lemma emit_all_snoc: "emit_all zs c (outs @ [out]) = rbind (emit_all zs c outs) (\<lambda>c'. emit zs c' out)"
proof (induction outs arbitrary: c)
  case Nil
  then show ?case by (cases "emit zs c out") auto
next
  case (Cons o' outs)
  then show ?case by (cases "emit zs c o'") auto
qed

section \<open>The invariant of the chunk manager\<close>

definition open_session ::
  "('z, 'c, 's) engine \<Rightarrow> ('z \<Rightarrow> bool) \<Rightarrow> ('z, 'c, 's) chunk_manager \<Rightarrow> go_record list \<Rightarrow> bool" where
  "open_session en idle cm cur \<longleftrightarrow>
     (\<exists>c0 outs c z0 o1 z1 o2. zs_new (en_zstd en) = Inr c0 \<and> emit_all (en_zstd en) c0 outs = Inr c \<and>
        cm_comp cm = Some c \<and> concat outs = o1 @ o2 \<and> idle z0 \<and> so_open (en_ser en) z0 = Inr (o1, z1) \<and>
        serialize_all (en_ser en) z1 cur = Inr (o2, cm_ser cm))"

definition chunk_stored ::
  "('z, 'c, 's) engine \<Rightarrow> (go_record list \<Rightarrow> sym list \<Rightarrow> bool) \<Rightarrow> 's \<Rightarrow> nat \<Rightarrow> go_record list \<Rightarrow> chunk \<Rightarrow> bool" where
  "chunk_stored en renders s i rs ck \<longleftrightarrow>
     ck_index ck = i \<and> ck_file ck = chunk_name i \<and> ck_row_count ck = int (length rs) \<and> rs \<noteq> [] \<and>
     (\<exists>data stream. st_get (en_storage en) s (chunk_name i) = Inr (BData data) \<and>
        ck_sha256 ck = sha256_hex data \<and> zs_decode (en_zstd en) data = Inr stream \<and> renders rs stream)"

definition chunks_stored ::
  "('z, 'c, 's) engine \<Rightarrow> (go_record list \<Rightarrow> sym list \<Rightarrow> bool) \<Rightarrow> 's \<Rightarrow> go_record list list \<Rightarrow> chunk list \<Rightarrow> bool" where
  "chunks_stored en renders s rss cks \<longleftrightarrow> length rss = length cks \<and>
     (\<forall>i < length cks. chunk_stored en renders s i (rss ! i) (cks ! i))"

definition cm_inv ::
  "('z, 'c, 's) engine \<Rightarrow> ('z \<Rightarrow> bool) \<Rightarrow> (go_record list \<Rightarrow> sym list \<Rightarrow> bool) \<Rightarrow> ('z, 'c, 's) chunk_manager
   \<Rightarrow> go_record list list \<Rightarrow> go_record list \<Rightarrow> bool" where
  "cm_inv en idle renders cm rss cur \<longleftrightarrow>
     open_session en idle cm cur \<and> chunks_stored en renders (cm_storage cm) rss (cm_chunks cm) \<and>
     cm_index cm = length (cm_chunks cm) \<and> cm_file cm = chunk_name (cm_index cm) \<and>
     cm_rows cm = int (length cur) \<and> cm_total cm = int (length (concat rss) + length cur)"

lemma wrap_err_Inr [simp]: "wrap_err s r = Inr x \<longleftrightarrow> r = Inr x"
  by (cases r) (auto simp: wrap_err_def)

text \<open>A backup setting in which all the contracts hold.\<close>

definition contracts ::
  "('z, 'c, 's) engine \<Rightarrow> ('z \<Rightarrow> bool) \<Rightarrow> (go_record list \<Rightarrow> sym list \<Rightarrow> bool) \<Rightarrow> bool" where
  "contracts en idle renders \<longleftrightarrow>
     chunk_serializer (en_ser en) idle renders \<and> blob_store (en_storage en) \<and> zstd_laws (en_zstd en)"

lemma open_chunk_session:
  assumes "open_chunk en cm = Inr cm'" and "idle (cm_ser cm)"
  shows "open_session en idle cm' [] \<and> cm_file cm' = chunk_name (cm_index cm) \<and>
    cm_index cm' = cm_index cm \<and> cm_chunks cm' = cm_chunks cm \<and> cm_rows cm' = cm_rows cm \<and>
    cm_total cm' = cm_total cm \<and> cm_storage cm' = cm_storage cm"
proof -
  from assms(1) obtain c0 out z c where o': "zs_new (en_zstd en) = Inr c0"
    "so_open (en_ser en) (cm_ser cm) = Inr (out, z)" "emit (en_zstd en) c0 out = Inr c"
    "cm' = cm\<lparr>cm_file := chunk_name (cm_index cm), cm_comp := Some c, cm_ser := z\<rparr>"
    by (auto simp: open_chunk_def rbind_Inr_iff)
  then have "open_session en idle cm' []"
    unfolding open_session_def using assms(2)
    by (intro exI [of _ c0] exI [of _ "[out]"] exI [of _ c] exI [of _ "cm_ser cm"] exI [of _ out]
        exI [of _ z] exI [of _ "[]"]) simp
  with o'(4) show ?thesis by simp
qed

lemma chunks_stored_put:
  assumes "blob_store (en_storage en)" and "chunks_stored en renders s rss cks"
    and "plain p" and "\<forall>i < length cks. p \<noteq> chunk_name i"
    and "st_put (en_storage en) s p x = Inr s'"
  shows "chunks_stored en renders s' rss cks"
  using assms blob_store.put_frame [OF assms(1,3) chunk_name_plain _ assms(5)]
  unfolding chunks_stored_def chunk_stored_def by metis

lemma flush_chunk_stores:
  assumes con: "contracts en idle renders" and inv: "cm_inv en idle renders cm rss cur" and "cur \<noteq> []"
    and flush: "flush_chunk en cm = Inr cm'"
  shows "idle (cm_ser cm') \<and> chunks_stored en renders (cm_storage cm') (rss @ [cur]) (cm_chunks cm') \<and>
    cm_index cm' = length (cm_chunks cm') \<and> cm_total cm' = cm_total cm"
proof -
  have ser: "chunk_serializer (en_ser en) idle renders" and bs: "blob_store (en_storage en)"
    and zl: "zstd_laws (en_zstd en)" using con by (simp_all add: contracts_def)
  from inv obtain c0 outs c z0 o1 z1 o2 where s: "zs_new (en_zstd en) = Inr c0"
    "emit_all (en_zstd en) c0 outs = Inr c" "cm_comp cm = Some c" "concat outs = o1 @ o2" "idle z0"
    "so_open (en_ser en) z0 = Inr (o1, z1)" "serialize_all (en_ser en) z1 cur = Inr (o2, cm_ser cm)"
    by (auto simp: cm_inv_def open_session_def)
  from flush s(3) obtain o3 z c1 c2 s' where f: "so_close (en_ser en) (cm_ser cm) = Inr (o3, z)"
    "emit (en_zstd en) c o3 = Inr c1" "zs_close (en_zstd en) c1 = Inr c2"
    and put: "st_put (en_storage en) (cm_storage cm) (cm_file cm) (BData (zs_buffer (en_zstd en) c2)) = Inr s'"
    and cm': "cm' = cm\<lparr>cm_chunks := cm_chunks cm @
        [\<lparr>ck_index = cm_index cm, ck_file = cm_file cm, ck_row_count = cm_rows cm,
          ck_sha256 = sha256_hex (zs_buffer (en_zstd en) c2)\<rparr>],
        cm_index := cm_index cm + 1, cm_comp := Some c2, cm_ser := z, cm_storage := s'\<rparr>"
    by (auto simp: flush_chunk_def rbind_Inr_iff Let_def)
  let ?data = "zs_buffer (en_zstd en) c2"
  have idx: "cm_index cm = length (cm_chunks cm)" "cm_file cm = chunk_name (cm_index cm)"
    "cm_rows cm = int (length cur)" and old: "chunks_stored en renders (cm_storage cm) rss (cm_chunks cm)"
    using inv by (auto simp: cm_inv_def)
  have rend: "idle z \<and> renders cur (o1 @ o2 @ o3)"
    by (rule chunk_serializer.session [OF ser s(5-7) f(1)])
  have "emit_all (en_zstd en) c0 (outs @ [o3]) = Inr c1" using s(2) f(2) by (simp add: emit_all_snoc)
  then have decode: "zs_decode (en_zstd en) ?data = Inr (o1 @ o2 @ o3)"
    using zl s(1,4) f(3) unfolding zstd_laws_def by fastforce
  have keep: "chunks_stored en renders s' rss (cm_chunks cm)"
    using chunks_stored_put [OF bs old chunk_name_plain _ put [unfolded idx(2)]] idx(1) by simp
  have get: "st_get (en_storage en) s' (chunk_name (cm_index cm)) = Inr (BData ?data)"
    using blob_store.put_get [OF bs chunk_name_plain put [unfolded idx(2)]] .
  have "chunk_stored en renders s' (length (cm_chunks cm)) cur
      \<lparr>ck_index = cm_index cm, ck_file = cm_file cm, ck_row_count = cm_rows cm, ck_sha256 = sha256_hex ?data\<rparr>"
    using get decode rend idx \<open>cur \<noteq> []\<close> unfolding chunk_stored_def by auto
  then have "chunks_stored en renders s' (rss @ [cur]) (cm_chunks cm')"
    using keep cm' by (auto simp: chunks_stored_def nth_append less_Suc_eq)
  with rend cm' idx(1) show ?thesis by simp
qed

lemma add_record_inv:
  assumes con: "contracts en idle renders" and inv: "cm_inv en idle renders cm rss cur"
    and add: "add_record en cm r = Inr cm'"
  shows "\<exists>rss' cur'. cm_inv en idle renders cm' rss' cur' \<and> concat rss' @ cur' = concat rss @ cur @ [r]"
proof -
  from inv obtain c0 outs c z0 o1 z1 o2 where s: "zs_new (en_zstd en) = Inr c0"
    "emit_all (en_zstd en) c0 outs = Inr c" "cm_comp cm = Some c" "concat outs = o1 @ o2" "idle z0"
    "so_open (en_ser en) z0 = Inr (o1, z1)" "serialize_all (en_ser en) z1 cur = Inr (o2, cm_ser cm)"
    by (auto simp: cm_inv_def open_session_def)
  from add s(3) obtain o3 z c1 where a: "so_serialize (en_ser en) (cm_ser cm) r = Inr (o3, z)"
    "emit (en_zstd en) c o3 = Inr c1"
    by (auto simp: add_record_def rbind_Inr_iff)
  define cm1 where "cm1 = cm\<lparr>cm_comp := Some c1, cm_ser := z, cm_rows := cm_rows cm + 1, cm_total := cm_total cm + 1\<rparr>"
  have "open_session en idle cm1 (cur @ [r])"
    unfolding open_session_def
  proof (intro exI conjI)
    show "zs_new (en_zstd en) = Inr c0" by (rule s)
    show "emit_all (en_zstd en) c0 (outs @ [o3]) = Inr c1" using s(2) a(2) by (simp add: emit_all_snoc)
    show "concat (outs @ [o3]) = o1 @ (o2 @ o3)" using s(4) by simp
    show "serialize_all (en_ser en) z1 (cur @ [r]) = Inr (o2 @ o3, cm_ser cm1)"
      using s(7) a(1) by (simp add: serialize_all_snoc cm1_def)
  qed (use s in \<open>simp_all add: cm1_def\<close>)
  then have inv1: "cm_inv en idle renders cm1 rss (cur @ [r])"
    using inv by (simp add: cm_inv_def cm1_def)
  from add s(3) a have cases: "cm' = cm1 \<or> rbind (flush_chunk en cm1) (\<lambda>cm2. open_chunk en (cm2\<lparr>cm_rows := 0\<rparr>)) = Inr cm'"
    by (auto simp: add_record_def Let_def cm1_def split: if_splits)
  then show ?thesis
  proof
    assume "cm' = cm1"
    with inv1 show ?thesis by (intro exI [of _ rss] exI [of _ "cur @ [r]"]) simp
  next
    assume "rbind (flush_chunk en cm1) (\<lambda>cm2. open_chunk en (cm2\<lparr>cm_rows := 0\<rparr>)) = Inr cm'"
    then obtain cm2 where f: "flush_chunk en cm1 = Inr cm2" "open_chunk en (cm2\<lparr>cm_rows := 0\<rparr>) = Inr cm'"
      by (auto simp: rbind_Inr_iff)
    from flush_chunk_stores [OF con inv1 _ f(1)] have st: "idle (cm_ser cm2)"
      "chunks_stored en renders (cm_storage cm2) (rss @ [cur @ [r]]) (cm_chunks cm2)"
      "cm_index cm2 = length (cm_chunks cm2)" "cm_total cm2 = cm_total cm1" by auto
    have "cm_total cm1 = int (length (concat rss) + length (cur @ [r]))" using inv1 by (simp add: cm_inv_def)
    then have "cm_inv en idle renders cm' (rss @ [cur @ [r]]) []"
      using open_chunk_session [OF f(2)] st by (simp add: cm_inv_def)
    then show ?thesis by (intro exI [of _ "rss @ [cur @ [r]]"] exI [of _ "[]"]) simp
  qed
qed

lemma add_records_inv:
  assumes "contracts en idle renders"
  shows "cm_inv en idle renders cm rss cur \<Longrightarrow> add_records en cm rs = Inr cm' \<Longrightarrow>
    \<exists>rss' cur'. cm_inv en idle renders cm' rss' cur' \<and> concat rss' @ cur' = concat rss @ cur @ rs"
proof (induction rs arbitrary: cm rss cur)
  case Nil
  then show ?case by auto
next
  case (Cons r rs)
  then obtain cm1 where a: "add_record en cm r = Inr cm1" "add_records en cm1 rs = Inr cm'"
    by (auto simp: rbind_Inr_iff)
  from add_record_inv [OF assms Cons.prems(1) a(1)] obtain rss1 cur1 where
    "cm_inv en idle renders cm1 rss1 cur1" "concat rss1 @ cur1 = concat rss @ cur @ [r]" by blast
  with Cons.IH [OF _ a(2)] show ?case by fastforce
qed

lemma backup_partitions_inv:
  assumes "contracts en idle renders"
  shows "cm_inv en idle renders cm rss cur \<Longrightarrow> backup_partitions en src cm ps = Some (Inr cm') \<Longrightarrow>
    \<exists>rss' cur'. cm_inv en idle renders cm' rss' cur' \<and>
      concat rss' @ cur' = concat rss @ cur @ concat (map (\<lambda>p. pr_records (src p)) ps)"
proof (induction ps arbitrary: cm rss cur)
  case Nil
  then show ?case by auto
next
  case (Cons p ps)
  then obtain cm1 where a: "add_records en cm (pr_records (src p)) = Inr cm1"
    "backup_partitions en src cm1 ps = Some (Inr cm')"
    by (auto simp: backup_partition_def split: sum.splits option.splits if_splits)
  from add_records_inv [OF assms Cons.prems(1) a(1)] obtain rss1 cur1 where
    "cm_inv en idle renders cm1 rss1 cur1" "concat rss1 @ cur1 = concat rss @ cur @ pr_records (src p)"
    by blast
  with Cons.IH [OF _ a(2)] show ?case by fastforce
qed

text \<open>The manifest of a finished backup, for any serializer, compressor and storage in order.\<close>

lemma backup_accounts:
  assumes con: "contracts en idle renders" and "idle z"
    and "backup en now op_id src table sz z s = Some (Inr (m, s'))"
  shows "\<exists>ps rss. si_partitions src (en_num_readers en) = Inr ps \<and>
    concat rss = concat (map (\<lambda>p. pr_records (si_read src p)) ps) \<and>
    chunks_stored en renders s' rss (mf_chunks m) \<and>
    mf_row_count m = int (length (concat rss)) \<and>
    st_get (en_storage en) s' ''manifest.json'' = Inr (BManifest m)"
proof -
  have bs: "blob_store (en_storage en)" using con by (simp add: contracts_def)
  let ?cm0 = "new_chunk_manager (effective_size sz) z s"
  from assms(3) obtain ps sch cm cm1 cm2 where b: "si_partitions src (en_num_readers en) = Inr ps"
    "open_chunk en ?cm0 = Inr cm" "backup_partitions en (si_read src) cm ps = Some (Inr cm1)"
    "flush_final_chunk en cm1 = Inr cm2" "save_manifest en (cm_storage cm2) m = Inr s'"
    "mf_chunks m = cm_chunks cm2" "mf_row_count m = cm_total cm2"
    by (auto simp: backup_def Let_def rbind_Inr_iff split: sum.splits option.splits)
  have "cm_inv en idle renders cm [] []"
    using open_chunk_session [OF b(2), of idle] assms(2)
    by (simp add: cm_inv_def new_chunk_manager_def chunks_stored_def)
  from backup_partitions_inv [OF con this b(3)] obtain rss cur where
    inv: "cm_inv en idle renders cm1 rss cur"
    and recs: "concat rss @ cur = concat (map (\<lambda>p. pr_records (si_read src p)) ps)" by auto
  have "\<exists>rss'. concat rss' = concat rss @ cur \<and> chunks_stored en renders (cm_storage cm2) rss' (cm_chunks cm2) \<and>
      cm_total cm2 = int (length (concat rss'))"
  proof (cases "cur = []")
    case True
    then have "cm_storage cm2 = cm_storage cm1 \<and> cm_chunks cm2 = cm_chunks cm1 \<and> cm_total cm2 = cm_total cm1"
      using b(4) inv by (auto simp: flush_final_chunk_def cm_inv_def split: sum.splits)
    with inv True show ?thesis by (intro exI [of _ rss]) (simp add: cm_inv_def)
  next
    case False
    then have "flush_chunk en cm1 = Inr cm2" using b(4) inv by (simp add: flush_final_chunk_def cm_inv_def)
    from flush_chunk_stores [OF con inv False this] inv show ?thesis
      by (intro exI [of _ "rss @ [cur]"]) (simp add: cm_inv_def)
  qed
  then obtain rss' where r: "concat rss' = concat rss @ cur"
    "chunks_stored en renders (cm_storage cm2) rss' (cm_chunks cm2)" "cm_total cm2 = int (length (concat rss'))"
    by blast
  have put: "st_put (en_storage en) (cm_storage cm2) ''manifest.json'' (BManifest m) = Inr s'"
    using b(5) by (simp add: save_manifest_def)
  have "chunks_stored en renders s' rss' (cm_chunks cm2)"
    using chunk_name_not_manifest by (intro chunks_stored_put [OF bs r(2) manifest_plain _ put]) metis
  moreover have "st_get (en_storage en) s' ''manifest.json'' = Inr (BManifest m)"
    by (rule blob_store.put_get [OF bs manifest_plain put])
  ultimately show ?thesis using b r recs by (intro exI [of _ ps] exI [of _ rss']) simp
qed

end
