(* ===== verification/Restore_Props.thy ===== *)
theory Restore_Props
  imports Restore Backup_Props
begin

text \<open>
  What a restore does with what a backup left: every record comes back, in order, in batches of at
  most 1000; a chunk whose bytes do not match its checksum writes nothing; and a backup made with
  the NDJSON serializer does not restore at all.
\<close>

section \<open>Batching\<close>

text \<open>Both chunk readers feed records to the same batching.\<close>

fun feed :: "'t target_ops \<Rightarrow> goerr option \<Rightarrow> go_record list \<Rightarrow> go_record list \<Rightarrow> int \<Rightarrow> 't \<Rightarrow> int \<times> goerr option \<times> 't" where
  "feed ta end_err [] batch tot t = finish_batches ta end_err batch tot t"
| "feed ta end_err (rc # rcs) batch tot t =
     (case push_record ta rc batch tot t of
        (Some e, batch', tot', t') \<Rightarrow> (tot', Some e, t')
      | (None, batch', tot', t') \<Rightarrow> feed ta end_err rcs batch' tot' t')"

lemma restore_rows_feed:
  "restore_rows ta names end_err rows batch tot t =
     feed ta end_err (map (\<lambda>row. bare_record (row_data names row)) rows) batch tot t"
  by (induction rows arbitrary: batch tot t) (auto split: prod.splits option.splits)

lemma restore_json_feed:
  "list_all2 (\<lambda>s row. json_row s = Inr row) ss rows \<Longrightarrow>
   restore_json_chunk ta ss batch tot t = feed ta None (map bare_record rows) batch tot t"
  by (induction arbitrary: batch tot t rule: list_all2_induct) (auto split: prod.splits option.splits)

definition batches_ok :: "go_record list list \<Rightarrow> bool" where
  "batches_ok bs \<longleftrightarrow> (\<forall>b \<in> set bs. b \<noteq> [] \<and> length b \<le> batch_capacity)"

lemma feed_accepting:
  assumes "accepting ta"
  shows "length batch < batch_capacity \<Longrightarrow>
    \<exists>bs. feed ta end_err rcs batch tot t = (tot + int (length batch + length rcs), end_err, write_all ta t bs) \<and>
      concat bs = batch @ rcs \<and> batches_ok bs"
proof (induction rcs arbitrary: batch tot t)
  case Nil
  obtain t' where t': "ta_write ta t batch = (int (length batch), None, t')"
    using assms by (rule acceptingE)
  with Nil show ?case
    by (intro exI [of _ "if batch = [] then [] else [batch]"]) (simp add: finish_batches_def batches_ok_def)
next
  case (Cons rc rcs)
  show ?case
  proof (cases "batch_capacity \<le> length (batch @ [rc])")
    case True
    obtain t' where t': "ta_write ta t (batch @ [rc]) = (int (length (batch @ [rc])), None, t')"
      using assms by (rule acceptingE)
    from Cons.IH [of "[]" "tot + int (length (batch @ [rc]))" t'] obtain bs where
      "feed ta end_err rcs [] (tot + int (length (batch @ [rc]))) t' =
         (tot + int (length (batch @ [rc])) + int (length rcs), end_err, write_all ta t' bs)"
      "concat bs = rcs" "batches_ok bs"
      by (auto simp: batch_capacity_def)
    with t' True Cons.prems show ?thesis
      by (intro exI [of _ "(batch @ [rc]) # bs"]) (simp add: push_record_def batches_ok_def)
  next
    case False
    from Cons.IH [of "batch @ [rc]" tot t] False obtain bs where
      "feed ta end_err rcs (batch @ [rc]) tot t =
         (tot + int (length (batch @ [rc]) + length rcs), end_err, write_all ta t bs)"
      "concat bs = (batch @ [rc]) @ rcs" "batches_ok bs" by auto
    with False show ?thesis by (intro exI [of _ bs]) (simp add: push_record_def)
  qed
qed

text \<open>Whatever the target: if the reader of a chunk returns nil, all its batches were acknowledged.\<close>

lemma feed_acked:
  "length batch < batch_capacity \<Longrightarrow> feed ta None rcs batch tot t = (n, None, t') \<Longrightarrow>
    \<exists>bs. acked ta t bs t' \<and> concat bs = batch @ rcs \<and> batches_ok bs"
proof (induction rcs arbitrary: batch tot t)
  case Nil
  then show ?case
    by (intro exI [of _ "if batch = [] then [] else [batch]"]; cases "batch = []")
      (auto simp: finish_batches_def batches_ok_def split: prod.splits option.splits)
next
  case (Cons rc rcs)
  show ?case
  proof (cases "batch_capacity \<le> length (batch @ [rc])")
    case True
    with Cons.prems(2) obtain m t1 where t1: "ta_write ta t (batch @ [rc]) = (m, None, t1)"
      "feed ta None rcs [] (tot + m) t1 = (n, None, t')"
      by (auto simp: push_record_def Let_def split: prod.splits option.splits)
    from Cons.IH [OF _ t1(2)] obtain bs where "acked ta t1 bs t'" "concat bs = rcs" "batches_ok bs"
      by (auto simp: batch_capacity_def)
    with t1(1) True Cons.prems(1) show ?thesis
      by (intro exI [of _ "(batch @ [rc]) # bs"]) (simp add: batches_ok_def)
  next
    case False
    with Cons.prems(2) have "feed ta None rcs (batch @ [rc]) tot t = (n, None, t')"
      by (simp add: push_record_def)
    from Cons.IH [OF _ this] False obtain bs where
      "acked ta t bs t'" "concat bs = (batch @ [rc]) @ rcs" "batches_ok bs" by auto
    then show ?thesis by (intro exI [of _ bs]) simp
  qed
qed

section \<open>Rows and records\<close>

lemma row_data_keys:
  "length names = length row \<Longrightarrow> distinct names \<Longrightarrow>
   row_data names row = zip names (map get_val row)"
proof -
  have gen: "foldl (\<lambda>m (n, c). map_set n (get_val c) m) m (zip names row) = m @ zip names (map get_val row)"
    if "length names = length row" "distinct names" "set names \<inter> fst ` set m = {}" for m
    using that
  proof (induction names row arbitrary: m rule: list_induct2)
    case (Cons n names c row)
    have "map_set n (get_val c) m = m @ [(n, get_val c)]"
      using Cons.prems by (induction m) auto
    then show ?case using Cons by auto
  qed simp
  assume "length names = length row" "distinct names"
  with gen [of "[]"] show ?thesis by (simp add: row_data_def)
qed

text \<open>The values a typed column gives back unchanged: the null value and \<^const>\<open>faithful\<close> ones.\<close>

definition keeps_value :: "column \<Rightarrow> gval \<Rightarrow> bool" where
  "keeps_value c v \<longleftrightarrow> v = VNil \<or> faithful (get_arrow_type (col_type c)) v"

definition came_back :: "column list \<Rightarrow> go_record \<Rightarrow> go_record \<Rightarrow> bool" where
  "came_back cols rc out \<longleftrightarrow>
     rec_id out = [] \<and> rec_meta out = zero_metadata \<and> map fst (rec_data out) = map col_name cols \<and>
     (\<forall>c \<in> set cols. keeps_value c (map_get (rec_data rc) (col_name c)) \<longrightarrow>
        map_get (rec_data out) (col_name c) = map_get (rec_data rc) (col_name c))"

definition has_required :: "column list \<Rightarrow> go_record \<Rightarrow> bool" where
  "has_required cols rc \<longleftrightarrow>
     (\<forall>c \<in> set cols. \<not> nullable c \<longrightarrow> map_get (rec_data rc) (col_name c) \<noteq> VNil)"

lemma make_cell_keeps:
  "make_cell c rc = Inr cell \<Longrightarrow> keeps_value c (map_get (rec_data rc) (col_name c)) \<Longrightarrow>
   get_val cell = map_get (rec_data rc) (col_name c)"
  using faithful_get_val by (fastforce simp: make_cell_def keeps_value_def split: gval.splits)

lemma row_comes_back:
  assumes "row_of cols rc = Inr row" and "distinct (map col_name cols)"
  shows "came_back cols rc (bare_record (row_data (map col_name cols) row))"
proof -
  have cells: "list_all2 (\<lambda>c cell. make_cell c rc = Inr cell) cols row"
    using assms(1) by (simp add: row_of_def collect_Inr)
  then have len: "length cols = length row" by (rule list_all2_lengthD)
  then have data: "row_data (map col_name cols) row = zip (map col_name cols) (map get_val row)"
    using assms(2) by (simp add: row_data_keys)
  have "map_get (row_data (map col_name cols) row) (col_name c) = map_get (rec_data rc) (col_name c)"
    if c: "c \<in> set cols" and keep: "keeps_value c (map_get (rec_data rc) (col_name c))" for c
  proof -
    from c obtain i where i: "i < length cols" "c = cols ! i" by (auto simp: in_set_conv_nth)
    have "map_of (zip (map col_name cols) (map get_val row)) (col_name c) = Some (get_val (row ! i))"
      using assms(2) len i map_of_zip_nth [of "map col_name cols" "map get_val row" i] by simp
    moreover have "get_val (row ! i) = map_get (rec_data rc) (col_name c)"
      using make_cell_keeps keep list_all2_nthD [OF cells i(1)] i(2) by metis
    ultimately show ?thesis by (simp add: data map_get_def)
  qed
  with len data show ?thesis by (simp add: came_back_def bare_record_def)
qed

lemma list_all2_mono_set:
  "list_all2 P xs ys \<Longrightarrow> (\<And>x y. x \<in> set xs \<Longrightarrow> P x y \<Longrightarrow> Q x y) \<Longrightarrow> list_all2 Q xs ys"
  by (auto simp: list_all2_conv_all_nth)

lemma row_conforms:
  assumes "row_of cols rc = Inr row" and "has_required cols rc"
  shows "conforms (convert_to_arrow_schema cols) row"
proof -
  have cells: "list_all2 (\<lambda>c cell. make_cell c rc = Inr cell) cols row"
    using assms(1) by (simp add: row_of_def collect_Inr)
  have "cell_fits (get_arrow_type (col_type c)) cell \<and> (cell = CNull \<longrightarrow> nullable c)"
    if "c \<in> set cols" and "make_cell c rc = Inr cell" for c cell
    using assms(2) that(1) make_cell_fits [OF that(2)] by (auto simp: has_required_def)
  then have "list_all2 (\<lambda>c cell. cell_fits (get_arrow_type (col_type c)) cell \<and> (cell = CNull \<longrightarrow> nullable c)) cols row"
    by (rule list_all2_mono_set [OF cells])
  then have "list_all2 (\<lambda>c. (\<lambda>(n, t, nl) cell. cell_fits t cell \<and> (cell = CNull \<longrightarrow> nl))
      (col_name c, get_arrow_type (col_type c), nullable c)) cols row"
    by (simp only: prod.case)
  then show ?thesis unfolding conforms_def convert_to_arrow_schema_def list_all2_map1 .
qed

section \<open>Restoring stored chunks\<close>

lemma chunk_name_is_parquet: "is_parquet (chunk_name i) data"
proof -
  have "chunk_name i = (''chunk-'' @ pad4 i) @ ''.parquet'' @ ''.zst''" by (simp add: chunk_name_def)
  then have "contains_sub (chunk_name i) ''.parquet''" by (simp only: contains_sub_append)
  then show ?thesis unfolding is_parquet_def ..
qed

definition reads_back ::
  "('z, 'c, 's) engine \<Rightarrow> ('c, 'q, 's, 't) restore_engine \<Rightarrow> bool" where
  "reads_back en re \<longleftrightarrow> re_storage re = en_storage en \<and> re_zstd re = en_zstd en"

lemma restore_chunk_parquet:
  assumes same: "reads_back en re" and stored: "chunk_stored en renders s i rcs ck"
    and read: "\<And>stream. renders rcs stream \<Longrightarrow> pq_read (re_parquet re) stream = Inr (names, rows, None)"
  shows "restore_chunk re s ck t = restore_rows (re_target re) names None rows [] 0 t"
proof -
  from stored obtain data stream where "ck_file ck = chunk_name i"
    "st_get (en_storage en) s (chunk_name i) = Inr (BData data)" "ck_sha256 ck = sha256_hex data"
    "zs_decode (en_zstd en) data = Inr stream" "renders rcs stream"
    by (auto simp: chunk_stored_def)
  with same read show ?thesis
    by (simp add: restore_chunk_def reads_back_def chunk_name_is_parquet restore_parquet_chunk_def)
qed

lemma restore_chunk_feed:
  assumes same: "reads_back en re" and "distinct (map col_name cols)"
    and stored: "chunk_stored en (pq_renders (re_parquet re) cols) s i rcs ck"
    and "\<forall>rc \<in> set rcs. has_required cols rc"
  obtains outs where "\<And>t. restore_chunk re s ck t = feed (re_target re) None outs [] 0 t"
    and "list_all2 (came_back cols) rcs outs"
proof -
  from stored obtain stream where "pq_renders (re_parquet re) cols rcs stream"
    by (auto simp: chunk_stored_def)
  then obtain rows where rows: "list_all2 (\<lambda>rc row. row_of cols rc = Inr row) rcs rows"
    by (auto simp: pq_renders_def)
  let ?outs = "map (\<lambda>row. bare_record (row_data (map col_name cols) row)) rows"
  have "pq_read (re_parquet re) stream = Inr (map col_name cols, rows, None)"
    if "pq_renders (re_parquet re) cols rcs stream" for stream
  proof -
    from that obtain rows' where r: "list_all2 (\<lambda>rc row. row_of cols rc = Inr row) rcs rows'"
      "(\<forall>row \<in> set rows'. conforms (convert_to_arrow_schema cols) row) \<longrightarrow>
         pq_read (re_parquet re) stream = Inr (map col_name cols, rows', None)"
      by (auto simp: pq_renders_def)
    have "rows' = rows" using r(1) rows by (auto simp: list_all2_conv_all_nth intro: nth_equalityI)
    moreover have "\<forall>row \<in> set rows'. conforms (convert_to_arrow_schema cols) row"
      using r(1) assms(4) row_conforms unfolding list_all2_conv_all_nth set_conv_nth by fastforce
    ultimately show ?thesis using r(2) by blast
  qed
  from restore_chunk_parquet [OF same stored this]
  have "restore_chunk re s ck t = feed (re_target re) None ?outs [] 0 t" for t by (simp add: restore_rows_feed)
  moreover have "list_all2 (came_back cols) rcs ?outs"
    using rows row_comes_back assms(2) by (auto simp: list_all2_map2 elim!: list_all2_mono)
  ultimately show ?thesis by (rule that)
qed

lemma restore_chunk_stored:
  assumes same: "reads_back en re" and "accepting (re_target re)" and "distinct (map col_name cols)"
    and stored: "chunk_stored en (pq_renders (re_parquet re) cols) s i rcs ck"
    and "\<forall>rc \<in> set rcs. has_required cols rc"
  shows "\<exists>n bs. restore_chunk re s ck t = (n, None, write_all (re_target re) t bs) \<and> batches_ok bs \<and>
    list_all2 (came_back cols) rcs (concat bs)"
proof -
  obtain outs where outs: "restore_chunk re s ck t = feed (re_target re) None outs [] 0 t"
    "list_all2 (came_back cols) rcs outs"
    using restore_chunk_feed [OF same assms(3) stored assms(5)] by metis
  obtain bs where "feed (re_target re) None outs [] 0 t = (int (length outs), None, write_all (re_target re) t bs)"
    "concat bs = outs" "batches_ok bs"
    using feed_accepting [OF assms(2), of "[]" None outs 0 t] by (auto simp: batch_capacity_def)
  with outs show ?thesis by auto
qed

lemma restore_chunks_stored:
  assumes same: "reads_back en re" and acc: "accepting (re_target re)" and "distinct (map col_name cols)"
  shows "length rss = length cks \<Longrightarrow>
    (\<forall>i < length cks. chunk_stored en (pq_renders (re_parquet re) cols) s (k + i) (rss ! i) (cks ! i)) \<Longrightarrow>
    (\<forall>rc \<in> set (concat rss). has_required cols rc) \<Longrightarrow>
    \<exists>bs. restore_chunks re s cks t = (None, write_all (re_target re) t bs) \<and> batches_ok bs \<and>
      list_all2 (came_back cols) (concat rss) (concat bs)"
proof (induction rss cks arbitrary: k t rule: list_induct2)
  case Nil
  show ?case by (intro exI [of _ "[]"]) (simp add: batches_ok_def)
next
  case (Cons rs rss ck cks)
  have "chunk_stored en (pq_renders (re_parquet re) cols) s k rs ck" using Cons.prems(1) by force
  moreover have "\<forall>rc \<in> set rs. has_required cols rc" using Cons.prems(2) by simp
  ultimately obtain n bs where b: "restore_chunk re s ck t = (n, None, write_all (re_target re) t bs)"
    "batches_ok bs" "list_all2 (came_back cols) rs (concat bs)"
    using restore_chunk_stored [OF same acc assms(3)] by metis
  have "\<forall>i < length cks. chunk_stored en (pq_renders (re_parquet re) cols) s (Suc k + i) (rss ! i) (cks ! i)"
    using Cons.prems(1) by force
  with Cons.IH [of "Suc k" "write_all (re_target re) t bs"] Cons.prems(2) obtain bs' where
    "restore_chunks re s cks (write_all (re_target re) t bs) =
       (None, write_all (re_target re) (write_all (re_target re) t bs) bs')"
    "batches_ok bs'" "list_all2 (came_back cols) (concat rss) (concat bs')" by auto
  with b show ?case
    by (intro exI [of _ "bs @ bs'"]) (auto simp: batches_ok_def intro: list_all2_appendI)
qed

text \<open>The same for a target that may refuse batches, if the restore of the chunks returns nil.\<close>

lemma restore_chunks_acked:
  assumes same: "reads_back en re" and "distinct (map col_name cols)"
  shows "length rss = length cks \<Longrightarrow>
    (\<forall>i < length cks. chunk_stored en (pq_renders (re_parquet re) cols) s (k + i) (rss ! i) (cks ! i)) \<Longrightarrow>
    (\<forall>rc \<in> set (concat rss). has_required cols rc) \<Longrightarrow> restore_chunks re s cks t = (None, t') \<Longrightarrow>
    \<exists>bs. acked (re_target re) t bs t' \<and> batches_ok bs \<and> list_all2 (came_back cols) (concat rss) (concat bs)"
proof (induction rss cks arbitrary: k t rule: list_induct2)
  case Nil
  then show ?case by (intro exI [of _ "[]"]) (simp add: batches_ok_def)
next
  case (Cons rs rss ck cks)
  have "chunk_stored en (pq_renders (re_parquet re) cols) s k rs ck" using Cons.prems(1) by force
  moreover have "\<forall>rc \<in> set rs. has_required cols rc" using Cons.prems(2) by simp
  ultimately obtain outs where outs: "restore_chunk re s ck t = feed (re_target re) None outs [] 0 t"
    "list_all2 (came_back cols) rs outs"
    using restore_chunk_feed [OF same assms(2)] by metis
  obtain n t1 where one: "restore_chunk re s ck t = (n, None, t1)" "restore_chunks re s cks t1 = (None, t')"
    using Cons.prems(3) by (auto split: prod.splits option.splits)
  obtain bs where bs: "acked (re_target re) t bs t1" "concat bs = outs" "batches_ok bs"
    using feed_acked [OF _ one(1) [unfolded outs(1)]] by (auto simp: batch_capacity_def)
  have "\<forall>i < length cks. chunk_stored en (pq_renders (re_parquet re) cols) s (Suc k + i) (rss ! i) (cks ! i)"
    using Cons.prems(1) by force
  with Cons.IH [of "Suc k" t1] Cons.prems(2) one(2) obtain bs' where
    "acked (re_target re) t1 bs' t'" "batches_ok bs'" "list_all2 (came_back cols) (concat rss) (concat bs')" by auto
  with bs outs(2) show ?case
    by (intro exI [of _ "bs @ bs'"]) (auto simp: batches_ok_def intro: acked_append list_all2_appendI)
qed

section \<open>Concrete libraries\<close>

text \<open>
  A compressor that stores every symbol in two bytes (of the JSON lines only \<open>{}\<close>), and a file
  format for tables of one boolean column: instances of the parameters, on which the laws hold.
\<close>

fun sym_code :: "sym \<Rightarrow> 8 word list option" where
  "sym_code (PByte b) = Some [0, b]"
| "sym_code (JLine (JObj [])) = Some [1, 0]"
| "sym_code (JLine _) = None"

fun syms_code :: "sym list \<Rightarrow> 8 word list option" where
  "syms_code [] = Some []"
| "syms_code (s # ss) =
     (case (sym_code s, syms_code ss) of (Some a, Some b) \<Rightarrow> Some (a @ b) | _ \<Rightarrow> None)"

fun syms_decode :: "8 word list \<Rightarrow> sym list" where
  "syms_decode (a # b # bs) = (if a = 0 then PByte b else JLine (JObj [])) # syms_decode bs"
| "syms_decode _ = []"

definition tiny_zstd :: "8 word list zstd_ops" where
  "tiny_zstd =
     \<lparr>zs_new = Inr [],
      zs_write = (\<lambda>c out. case syms_code out of None \<Rightarrow> Inl (ErrMsg ''unsupported'') | Some b \<Rightarrow> Inr (c @ b)),
      zs_close = Inr, zs_buffer = (\<lambda>c. c), zs_decode = (\<lambda>bs. Inr (syms_decode bs))\<rparr>"

lemma syms_decode_append: "even (length a) \<Longrightarrow> syms_decode (a @ b) = syms_decode a @ syms_decode b"
  by (induction a rule: syms_decode.induct) auto

lemma sym_code_decode: "sym_code s = Some a \<Longrightarrow> syms_decode a = [s] \<and> length a = 2"
  by (cases s rule: sym_code.cases) auto

lemma syms_code_decode: "syms_code ss = Some a \<Longrightarrow> syms_decode a = ss \<and> even (length a)"
proof (induction ss arbitrary: a)
  case (Cons s ss)
  then obtain x y where "sym_code s = Some x" "syms_code ss = Some y" "a = x @ y"
    by (auto split: option.splits)
  with Cons.IH sym_code_decode [of s x] show ?case by (simp add: syms_decode_append)
qed simp

lemma tiny_emit_all:
  "emit_all tiny_zstd c0 outs = Inr c \<Longrightarrow> even (length c0) \<Longrightarrow>
   syms_decode c = syms_decode c0 @ concat outs"
proof (induction outs arbitrary: c0)
  case (Cons out outs)
  then obtain c1 where c1: "emit tiny_zstd c0 out = Inr c1" "emit_all tiny_zstd c1 outs = Inr c"
    by (auto simp: rbind_Inr_iff)
  from c1(1) obtain b where b: "syms_code out = Some b" "c1 = c0 @ b"
    by (cases "out = []") (auto simp: emit_def tiny_zstd_def split: option.splits)
  from syms_code_decode [OF b(1)] Cons.IH [OF c1(2)] Cons.prems(2) b(2) show ?case
    by (simp add: syms_decode_append)
qed simp

lemma tiny_zstd_laws: "zstd_laws tiny_zstd"
  unfolding zstd_laws_def
proof (intro allI impI)
  fix c0 outs c c'
  assume "zs_new tiny_zstd = Inr c0" and all: "emit_all tiny_zstd c0 outs = Inr c"
    and "zs_close tiny_zstd c = Inr c'"
  then have "c0 = []" "c' = c" by (simp_all add: tiny_zstd_def)
  with tiny_emit_all [OF all] show "zs_decode tiny_zstd (zs_buffer tiny_zstd c') = Inr (concat outs)"
    by (simp add: tiny_zstd_def)
qed

fun flag_code :: "cell list \<Rightarrow> 8 word list result" where
  "flag_code [CBool b] = Inr [if b then 1 else 0]"
| "flag_code _ = Inl (ErrMsg ''unsupported'')"

definition tiny_magic :: "8 word list" where
  "tiny_magic = bytes_of ''PAR1''"

definition tiny_parquet :: "unit pq_ops" where
  "tiny_parquet =
     \<lparr>pq_new = (\<lambda>fs. if map fst fs = [''ok''] then Inr (tiny_magic, ()) else Inl (ErrMsg ''unsupported'')),
      pq_write = (\<lambda>q rows. rbind (collect flag_code rows) (\<lambda>bs. Inr (concat bs, ()))),
      pq_finish = (\<lambda>q. Inr []),
      pq_read = (\<lambda>data.
        if has_prefix data (map PByte tiny_magic)
        then Inr ([''ok''], map (\<lambda>s. [CBool (s = PByte 1)]) (drop 4 data), None)
        else Inl (PqFile, ErrMsg ''invalid magic number''))\<rparr>"

lemma flag_rows:
  "collect flag_code rows = Inr bs \<Longrightarrow> map (\<lambda>b. [CBool (PByte b = PByte 1)]) (concat bs) = rows"
proof (induction rows arbitrary: bs)
  case (Cons row rows)
  then obtain x xs where x: "flag_code row = Inr x" "collect flag_code rows = Inr xs" "bs = x # xs"
    by (auto simp: rbind_Inr_iff)
  from x(1) have "map (\<lambda>b. [CBool (PByte b = PByte 1)]) x = [row]"
    by (cases row rule: flag_code.cases) (auto split: if_splits)
  with x Cons.IH show ?case by simp
qed simp

lemma tiny_write_all:
  "pq_write_all tiny_parquet q bs = Inr (o1, q1) \<Longrightarrow>
   map (\<lambda>b. [CBool (PByte b = PByte 1)]) o1 = concat bs"
proof (induction bs arbitrary: q o1)
  case (Cons b bs)
  then obtain ob o2 where w: "collect flag_code b = Inr ob" "pq_write_all tiny_parquet () bs = Inr (o2, q1)"
    "o1 = concat ob @ o2"
    by (auto simp: rbind_Inr_iff tiny_parquet_def)
  with Cons.IH flag_rows [OF w(1)] show ?case by (simp del: sym.inject)
qed simp

lemma tiny_parquet_laws: "pq_laws tiny_parquet"
  unfolding pq_laws_def
proof (intro allI impI)
  fix fs o0 q0 bs o1 q1 o2
  assume new: "pq_new tiny_parquet fs = Inr (o0, q0)" and all: "pq_write_all tiny_parquet q0 bs = Inr (o1, q1)"
    and "pq_finish tiny_parquet q1 = Inr o2"
  then have "o0 = tiny_magic" "o2 = []" "map fst fs = [''ok'']"
    by (auto simp: tiny_parquet_def split: if_splits)
  then show "pq_read tiny_parquet (map PByte (o0 @ o1 @ o2)) = Inr (map fst fs, concat bs, None)"
    using tiny_write_all [OF all]
    by (simp add: tiny_parquet_def tiny_magic_def bytes_of_def has_prefix_def comp_def del: sym.inject)
qed

text \<open>A source of one partition, a target that logs its batches, and an empty local disk.\<close>

definition flag_columns :: "column list" where
  "flag_columns = [\<lparr>col_name = ''ok'', col_type = ''bool'', nullable = False, primary_key = False\<rparr>]"

definition flag_record :: go_record where
  "flag_record = \<lparr>rec_id = ''1'', rec_data = [(''ok'', VBool True)], rec_meta = zero_metadata\<rparr>"

definition source_of :: "go_record list \<Rightarrow> source_info" where
  "source_of rs =
     \<lparr>si_type = ''postgres'', si_schema = Inr \<lparr>schema_name = ''t'', columns = flag_columns\<rparr>,
      si_partitions = (\<lambda>n. Inr [\<lparr>part_id = ''p0'', part_table = ''t'', part_start = VNil, part_end = VNil\<rparr>]),
      si_read = (\<lambda>p. \<lparr>pr_records = rs, pr_error = None, pr_closes = True\<rparr>)\<rparr>"

definition log_target :: "go_record list list target_ops" where
  "log_target = \<lparr>ta_apply = (\<lambda>t s. (None, t)), ta_write = (\<lambda>t b. (int (length b), None, t @ [b]))\<rparr>"

definition disk :: "(blob fs, blob) storage_ops" where
  "disk = local_ops \<lparr>base_dir = [''b'']\<rparr>"

definition empty_disk :: "blob fs" where
  "empty_disk = \<lparr>fs_files = [], fs_dirs = [], fs_device = reliable\<rparr>"

lemma log_accepting: "accepting log_target"
  by (simp add: accepting_def log_target_def)

lemma disk_put:
  assumes "plain p"
  shows "st_put disk f p x = (case mkdir_all [''b''] f of
      Inl e \<Rightarrow> Inl (Wrapf ''failed to create parent directory'' e)
    | Inr f' \<Rightarrow>
        if [''b'', p] \<in> set (fs_dirs f') then Inl (Wrapf ''failed to create file'' (ErrMsg ''is a directory''))
        else if fs_device f' [''b'', p] x = Written then Inr (f'\<lparr>fs_files := map_set [''b'', p] x (fs_files f')\<rparr>)
        else Inl (the (put_error (fs_device f' [''b'', p] x))))"
proof (cases "mkdir_all [''b''] f")
  case (Inr f')
  then show ?thesis
    by (cases "fs_device f' [''b'', p] x")
      (simp_all add: disk_def local_ops_def local_put_def local_write_def full_path_plain [OF assms] Let_def)
qed (simp add: disk_def local_ops_def local_put_def local_write_def full_path_plain [OF assms])

lemma flag_stream: 
  "so_open (parquet_ops tiny_parquet) (new_parquet_serializer flag_columns 0) =
     Inr (map PByte tiny_magic, (new_parquet_serializer flag_columns 0)\<lparr>ps_writer := Some ()\<rparr>)"
  by (simp add: parquet_ops_def ps_open_def new_parquet_serializer_def tiny_parquet_def flag_columns_def
      convert_to_arrow_schema_def)

lemma flag_backup:
  "\<exists>m s'. backup (new_engine disk (parquet_ops tiny_parquet) tiny_zstd 1) 0 ''op'' (source_of [flag_record]) ''t'' 0
     (new_parquet_serializer flag_columns 0) empty_disk = Some (Inr (m, s'))"
  by (simp add: backup_def Let_def new_engine_def source_of_def effective_size_def wrap_err_def
     open_chunk_def new_chunk_manager_def flag_stream backup_partition_def add_record_def
     emit_def tiny_zstd_def tiny_magic_def bytes_of_def flush_final_chunk_def
     flush_chunk_def save_manifest_def parquet_ops_def ps_serialize_def ps_close_def ps_flush_def ps_open_def
     new_parquet_serializer_def flag_columns_def flag_record_def tiny_parquet_def convert_to_arrow_schema_def 
     build_column_def make_cell_def map_get_def get_arrow_type_def append_value_def rows_of_def
     disk_put [OF chunk_name_plain] disk_put [OF manifest_plain] empty_disk_def mkdir_all_def)

lemma archive_restores:
  assumes "pq_laws pq" and "zstd_laws zs" and "blob_store ops" and "accepting ta"
    and "distinct (map col_name cols)"
    and "\<forall>p. \<forall>rc \<in> set (pr_records (si_read src p)). has_required cols rc"
    and "backup (new_engine ops (parquet_ops pq) zs readers) now op_id src table sz
           (new_parquet_serializer cols rows_per_group) s = Some (Inr (m, s'))"
    and "ta_apply ta t (mf_schema m) = (None, t')"
  shows "\<exists>ps bs. si_partitions src (if readers \<le> 0 then 16 else readers) = Inr ps \<and>
    restore (new_restore_engine ops ta zs pq) s' ''manifest.json'' t = (None, write_all ta t' bs) \<and>
    batches_ok bs \<and>
    list_all2 (came_back cols) (concat (map (\<lambda>p. pr_records (si_read src p)) ps)) (concat bs)"
proof -
  let ?en = "new_engine ops (parquet_ops pq) zs readers"
    and ?re = "new_restore_engine ops ta zs pq"
  have con: "contracts ?en (pq_idle cols) (pq_renders pq cols)"
    using parquet_chunk_serializer [OF assms(1)] assms(2,3) by (simp add: contracts_def new_engine_def)
  have idle: "pq_idle cols (new_parquet_serializer cols rows_per_group)"
    by (simp add: pq_idle_def new_parquet_serializer_def)
  from backup_accounts [OF con idle assms(7)] obtain ps rss where
    ps: "si_partitions src (en_num_readers ?en) = Inr ps"
    and recs: "concat rss = concat (map (\<lambda>p. pr_records (si_read src p)) ps)"
    and stored: "chunks_stored ?en (pq_renders pq cols) s' rss (mf_chunks m)"
    and man: "st_get ops s' ''manifest.json'' = Inr (BManifest m)"
    by (auto simp: new_engine_def)
  have same: "reads_back ?en ?re" by (simp add: reads_back_def new_engine_def new_restore_engine_def)
  have fields: "re_target ?re = ta" "re_parquet ?re = pq" "re_storage ?re = ops"
    by (simp_all add: new_restore_engine_def)
  have req: "\<forall>rc \<in> set (concat rss). has_required cols rc" using assms(6) unfolding recs by auto
  have acc: "accepting (re_target ?re)" using assms(4) fields by simp
  have "\<exists>bs. restore_chunks ?re s' (mf_chunks m) t' = (None, write_all ta t' bs) \<and> batches_ok bs \<and>
      list_all2 (came_back cols) (concat rss) (concat bs)"
    using restore_chunks_stored [OF same acc assms(5), of rss "mf_chunks m" s' 0 t'] stored req
    by (simp add: chunks_stored_def fields)
  moreover have "restore ?re s' ''manifest.json'' t = restore_chunks ?re s' (mf_chunks m) t'"
    using man assms(8) by (simp add: restore_def fields)
  ultimately show ?thesis using ps unfolding recs by (auto simp: new_engine_def)
qed

text \<open>C19: backup and restore, end to end: a backup of any table with the Parquet serializer, once
  finished, restores completely from its manifest: nothing fails, the target receives exactly one
  record for each record of each partition, in order, in non-empty batches of at most 1000, and
  every column comes back unchanged whose value was nil or of the column's own Go type.\<close>

theorem backup_restore_roundtrip:
  assumes "pq_laws pq" and "zstd_laws zs" and "blob_store ops" and "accepting ta"
    and "distinct (map col_name cols)"
    and "\<forall>p. \<forall>rc \<in> set (pr_records (si_read src p)). has_required cols rc"
    and "backup (new_engine ops (parquet_ops pq) zs readers) now op_id src table sz
           (new_parquet_serializer cols rows_per_group) s = Some (Inr (m, s'))"
    and "ta_apply ta t (mf_schema m) = (None, t')"
  shows "\<exists>ps bs. si_partitions src (if readers \<le> 0 then 16 else readers) = Inr ps \<and>
    restore (new_restore_engine ops ta zs pq) s' ''manifest.json'' t = (None, write_all ta t' bs) \<and>
    batches_ok bs \<and>
    list_all2 (came_back cols) (concat (map (\<lambda>p. pr_records (si_read src p)) ps)) (concat bs)"
  using assms by (rule archive_restores)

theorem backup_restore_roundtrip_witness:
  "\<exists>m s' bs. backup (new_engine disk (parquet_ops tiny_parquet) tiny_zstd 1) 0 ''op'' (source_of [flag_record]) ''t'' 0
       (new_parquet_serializer flag_columns 0) empty_disk = Some (Inr (m, s')) \<and>
     restore (new_restore_engine disk log_target tiny_zstd tiny_parquet) s' ''manifest.json'' [] =
       (None, write_all log_target [] bs) \<and>
     list_all2 (came_back flag_columns) [flag_record] (concat bs)"
proof -
  obtain m s' where b: "backup (new_engine disk (parquet_ops tiny_parquet) tiny_zstd 1) 0 ''op''
      (source_of [flag_record]) ''t'' 0 (new_parquet_serializer flag_columns 0) empty_disk = Some (Inr (m, s'))"
    using flag_backup by blast
  have "blob_store disk" by (simp add: disk_def local_blob_store)
  moreover have "\<forall>p. \<forall>rc \<in> set (pr_records (si_read (source_of [flag_record]) p)). has_required flag_columns rc"
    by (simp add: source_of_def has_required_def flag_record_def flag_columns_def map_get_def)
  moreover have "distinct (map col_name flag_columns)" by (simp add: flag_columns_def)
  moreover have "ta_apply log_target [] (mf_schema m) = (None, [])" by (simp add: log_target_def)
  ultimately obtain ps bs where
    "si_partitions (source_of [flag_record]) 1 = Inr ps"
    "restore (new_restore_engine disk log_target tiny_zstd tiny_parquet) s' ''manifest.json'' [] =
       (None, write_all log_target [] bs)"
    "list_all2 (came_back flag_columns)
       (concat (map (\<lambda>p. pr_records (si_read (source_of [flag_record]) p)) ps)) (concat bs)"
    using backup_restore_roundtrip [OF tiny_parquet_laws tiny_zstd_laws _ log_accepting _ _ b] by fastforce
  with b show ?thesis by (auto simp: source_of_def)
qed

section \<open>What stands between\<close>

lemma restore_chunk_bad:
  assumes "st_get (re_storage re) s (ck_file ck) = Inr (BData bs)" and "sha256_hex bs \<noteq> ck_sha256 ck"
  shows "\<exists>e. \<forall>t. restore_chunk re s ck t = (0, Some e, t)"
  using assms by (cases "zs_decode (re_zstd re) bs") (auto simp: restore_chunk_def)

lemma restore_chunks_append:
  "restore_chunks re s (pre @ post) t =
     (case restore_chunks re s pre t of (Some e, t') \<Rightarrow> (Some e, t') | (None, t') \<Rightarrow> restore_chunks re s post t')"
  by (induction pre arbitrary: t) (auto split: prod.splits option.splits)

text \<open>C20: a chunk whose stored bytes do not have the checksum the manifest lists stops the restore
  with an error before any record of that chunk, or of a later one, is written: the target is left as
  restoring only the chunks before it leaves it.\<close>

theorem tampered_chunk_stops_restore:
  assumes "st_get (re_storage re) s path = Inr (BManifest m)" and "mf_chunks m = pre @ ck # post"
    and "ta_apply (re_target re) t (mf_schema m) = (None, t')"
    and "st_get (re_storage re) s (ck_file ck) = Inr (BData bs)" and "sha256_hex bs \<noteq> ck_sha256 ck"
  shows "fst (restore re s path t) \<noteq> None \<and> snd (restore re s path t) = snd (restore_chunks re s pre t')"
proof -
  have "restore re s path t = restore_chunks re s (pre @ ck # post) t'"
    using assms(1-3) by (simp add: restore_def)
  moreover obtain e where "\<forall>t1. restore_chunk re s ck t1 = (0, Some e, t1)"
    using restore_chunk_bad [OF assms(4,5)] by blast
  ultimately show ?thesis
    by (auto simp: restore_chunks_append split: prod.splits option.splits)
qed

definition tampered :: manifest where
  "tampered =
     \<lparr>mf_version = 1, mf_operation_id = ''op'', mf_source_type = ''postgres'', mf_source_db = [],
      mf_source_table = ''t'', mf_created_at = 0, mf_row_count = 1, mf_chunk_size = 1,
      mf_chunks = [\<lparr>ck_index = 0, ck_file = ''chunk-0000.parquet.zst'', ck_row_count = 1, ck_sha256 = ''00''\<rparr>],
      mf_schema = \<lparr>schema_name = ''t'', columns = []\<rparr>\<rparr>"

definition tampered_disk :: "blob fs" where
  "tampered_disk =
     \<lparr>fs_files = [([''b'', ''manifest.json''], BManifest tampered), ([''b'', ''chunk-0000.parquet.zst''], BData [0, 7])],
      fs_dirs = [[''b'']], fs_device = reliable\<rparr>"

theorem tampered_chunk_stops_restore_witness:
  "fst (restore (new_restore_engine disk log_target tiny_zstd tiny_parquet) tampered_disk ''manifest.json'' []) \<noteq> None \<and>
   snd (restore (new_restore_engine disk log_target tiny_zstd tiny_parquet) tampered_disk ''manifest.json'' []) = []"
proof -
  let ?re = "new_restore_engine disk log_target tiny_zstd tiny_parquet"
  have plain: "plain ''chunk-0000.parquet.zst''" by (simp add: plain_def has_prefix_def)
  have "st_get (re_storage ?re) tampered_disk ''manifest.json'' = Inr (BManifest tampered)"
    "st_get (re_storage ?re) tampered_disk ''chunk-0000.parquet.zst'' = Inr (BData [0, 7])"
    by (simp_all add: new_restore_engine_def disk_def local_ops_def local_get_def tampered_disk_def
        full_path_plain [OF manifest_plain] full_path_plain [OF plain])
  moreover have "sha256_hex [0, 7] \<noteq> ''00''"
  proof
    assume "sha256_hex [0, 7] = ''00''"
    with sha256_hex_length [of "[0, 7]"] show False by simp
  qed
  ultimately show ?thesis
    using tampered_chunk_stops_restore [of ?re tampered_disk "''manifest.json''" tampered "[]" _ "[]" "[]" "[]" "[0, 7]"]
    by (simp add: tampered_def new_restore_engine_def log_target_def)
qed

text \<open>The manifest of a finished NDJSON backup accounts for every record: its chunks hold, in
  order, all the records of all the partitions; each chunk is stored under its own name, has the
  listed row count and checksum, and decompresses to one JSON line for each of its records; the total
  is the number of records; and the manifest itself is stored.\<close>

theorem ndjson_backup_accounts:
  assumes "zstd_laws zs" and "blob_store ops"
    and "backup (new_engine ops ndjson_ops zs readers) now op_id src table sz opened s = Some (Inr (m, s'))"
  shows "\<exists>ps rss. si_partitions src (if readers \<le> 0 then 16 else readers) = Inr ps \<and>
    concat rss = concat (map (\<lambda>p. pr_records (si_read src p)) ps) \<and>
    chunks_stored (new_engine ops ndjson_ops zs readers) nd_renders s' rss (mf_chunks m) \<and>
    mf_row_count m = int (length (concat rss)) \<and>
    st_get ops s' ''manifest.json'' = Inr (BManifest m)"
proof -
  let ?en = "new_engine ops ndjson_ops zs readers"
  have con: "contracts ?en (\<lambda>z. True) nd_renders"
    using assms(1,2) nd.chunk_serializer_axioms by (simp add: contracts_def new_engine_def)
  from backup_accounts [OF con TrueI assms(3)] show ?thesis by (auto simp: new_engine_def)
qed

definition blank_record :: go_record where
  "blank_record = \<lparr>rec_id = ''1'', rec_data = [], rec_meta = zero_metadata\<rparr>"

lemma blank_backup:
  "\<exists>m s'. backup (new_engine disk ndjson_ops tiny_zstd 1) 0 ''op'' (source_of [blank_record]) ''t'' 0
     False empty_disk = Some (Inr (m, s')) \<and> mf_row_count m = 1"
  by (simp add: backup_def Let_def new_engine_def source_of_def effective_size_def wrap_err_def
     open_chunk_def new_chunk_manager_def backup_partition_def add_record_def
     emit_def tiny_zstd_def flush_final_chunk_def flush_chunk_def save_manifest_def
     ndjson_ops_def nd_open_def nd_serialize_def nd_close_def blank_record_def
     disk_put [OF chunk_name_plain] disk_put [OF manifest_plain] empty_disk_def mkdir_all_def)

theorem ndjson_backup_accounts_witness:
  "\<exists>m s' rss. backup (new_engine disk ndjson_ops tiny_zstd 1) 0 ''op'' (source_of [blank_record]) ''t'' 0
       False empty_disk = Some (Inr (m, s')) \<and>
     concat rss = [blank_record] \<and>
     chunks_stored (new_engine disk ndjson_ops tiny_zstd 1) nd_renders s' rss (mf_chunks m)"
proof -
  obtain m s' where b: "backup (new_engine disk ndjson_ops tiny_zstd 1) 0 ''op'' (source_of [blank_record]) ''t'' 0
     False empty_disk = Some (Inr (m, s'))" using blank_backup by blast
  have "blob_store disk" by (simp add: disk_def local_blob_store)
  from ndjson_backup_accounts [OF tiny_zstd_laws this b] b show ?thesis
    by (fastforce simp: source_of_def)
qed

text \<open>C23: a backup made with the NDJSON serializer cannot be restored: its chunks are named
  \<open>.parquet.zst\<close>, so the restore hands them to the Parquet reader, which refuses what does not
  start with the magic number; the schema is applied and not one record is written.\<close>

theorem ndjson_backup_unrestorable:
  assumes "zstd_laws zs" and "blob_store ops"
    and "\<And>data. \<not> has_prefix data (map PByte (bytes_of ''PAR1'')) \<Longrightarrow> \<exists>e. pq_read pq data = Inl (PqFile, e)"
    and "backup (new_engine ops ndjson_ops zs readers) now op_id src table sz opened s = Some (Inr (m, s'))"
    and "0 < mf_row_count m" and "ta_apply ta t (mf_schema m) = (None, t')"
  shows "\<exists>e. restore (new_restore_engine ops ta zs pq) s' ''manifest.json'' t = (Some e, t')"
proof -
  let ?en = "new_engine ops ndjson_ops zs readers" and ?re = "new_restore_engine ops ta zs pq"
  have con: "contracts ?en (\<lambda>z. True) nd_renders"
    using assms(1,2) nd.chunk_serializer_axioms by (simp add: contracts_def new_engine_def)
  from backup_accounts [OF con TrueI assms(4)] obtain rss where
    stored: "chunks_stored ?en nd_renders s' rss (mf_chunks m)"
    and total: "mf_row_count m = int (length (concat rss))"
    and man: "st_get ops s' ''manifest.json'' = Inr (BManifest m)"
    by (auto simp: new_engine_def)
  from stored total assms(5) obtain ck cks where cks: "mf_chunks m = ck # cks"
    by (cases "mf_chunks m") (auto simp: chunks_stored_def)
  with stored have ck: "chunk_stored ?en nd_renders s' 0 (rss ! 0) ck" by (force simp: chunks_stored_def)
  then obtain data stream where c: "ck_file ck = chunk_name 0" "rss ! 0 \<noteq> []"
    "st_get ops s' (chunk_name 0) = Inr (BData data)" "ck_sha256 ck = sha256_hex data"
    "zs_decode zs data = Inr stream" "nd_renders (rss ! 0) stream"
    by (auto simp: chunk_stored_def new_engine_def)
  from c(2,6) obtain j rest where "stream = JLine j # rest"
    by (cases "rss ! 0") (auto simp: nd_renders_def list_all2_Cons1)
  then have "\<not> has_prefix stream (map PByte (bytes_of ''PAR1''))"
    by (simp add: has_prefix_def bytes_of_def)
  with assms(3) obtain e where "pq_read pq stream = Inl (PqFile, e)" by blast
  then have "\<exists>e. restore_chunk ?re s' ck t' = (0, Some e, t')"
    using c by (simp add: restore_chunk_def new_restore_engine_def chunk_name_is_parquet restore_parquet_chunk_def)
  with man cks assms(6) show ?thesis by (auto simp: restore_def new_restore_engine_def)
qed

theorem ndjson_backup_unrestorable_witness:
  "\<exists>m s' e. backup (new_engine disk ndjson_ops tiny_zstd 1) 0 ''op'' (source_of [blank_record]) ''t'' 0
       False empty_disk = Some (Inr (m, s')) \<and>
     restore (new_restore_engine disk log_target tiny_zstd tiny_parquet) s' ''manifest.json'' [] = (Some e, [])"
proof -
  obtain m s' where b: "backup (new_engine disk ndjson_ops tiny_zstd 1) 0 ''op'' (source_of [blank_record]) ''t'' 0
     False empty_disk = Some (Inr (m, s'))" "mf_row_count m = 1" using blank_backup by blast
  have "blob_store disk" by (simp add: disk_def local_blob_store)
  moreover have "\<exists>e. pq_read tiny_parquet data = Inl (PqFile, e)"
    if "\<not> has_prefix data (map PByte (bytes_of ''PAR1''))" for data
    using that by (simp add: tiny_parquet_def tiny_magic_def)
  moreover have "ta_apply log_target [] (mf_schema m) = (None, [])" by (simp add: log_target_def)
  ultimately show ?thesis
    using ndjson_backup_unrestorable [OF tiny_zstd_laws _ _ b(1), of tiny_parquet log_target "[]" "[]"] b by fastforce
qed

end
