(* ===== verification/Postgres.thy ===== *)
theory Postgres
  imports Adapter "HOL-Library.Signed_Division"
begin

text \<open>
  \<open>internal/adapter/postgres\<close>: the reader's range partitioning and row streaming, the writer's bulk
  copy and table creation, the schema introspection and the adapter that joins them. The database
  and its driver are the parameter \<open>pg_client\<close>; an \<open>int64\<close> is a 64-bit word and wraps.
\<close>

section \<open>The driver\<close>

text \<open>
  \<open>pg_min_max\<close> is \<open>QueryRow(query).Scan(&min, &max)\<close>; \<open>pg_select\<close> a query with two arguments: the
  column names, each row or the error of \<open>rows.Values()\<close>, and the final \<open>rows.Err()\<close>; \<open>pg_columns\<close> and
  \<open>pg_keys\<close> the rows of the two catalog queries for a table and a schema.
\<close>

record 'd pg_client =
  pg_open :: "string \<Rightarrow> 'd result"
  pg_ping :: "'d \<Rightarrow> goerr option"
  pg_sanitize :: "string \<Rightarrow> string"
  pg_min_max :: "'d \<Rightarrow> string \<Rightarrow> (64 word option \<times> 64 word option) result"
  pg_select :: "'d \<Rightarrow> string \<Rightarrow> gval \<Rightarrow> gval \<Rightarrow> (string list \<times> (gval list) result list \<times> goerr option) result"
  pg_exec :: "'d \<Rightarrow> string \<Rightarrow> goerr option \<times> 'd"
  pg_copy :: "'d \<Rightarrow> string \<Rightarrow> string list \<Rightarrow> gval list list \<Rightarrow> int \<times> goerr option \<times> 'd"
  pg_columns :: "'d \<Rightarrow> string \<Rightarrow> string \<Rightarrow> ((string \<times> string \<times> string) result list \<times> goerr option) result"
  pg_keys :: "'d \<Rightarrow> string \<Rightarrow> string \<Rightarrow> (string result list \<times> goerr option) result"

section \<open>Reader\<close>

text \<open>Go's division of \<open>int64\<close> truncates towards zero.\<close>

definition go_div :: "64 word \<Rightarrow> 64 word \<Rightarrow> 64 word" where
  "go_div a b = word_of_int (sint a sdiv sint b)"

definition make_range :: "string \<Rightarrow> nat \<Rightarrow> 64 word \<Rightarrow> 64 word \<Rightarrow> partition" where
  "make_range table i lo hi =
     \<lparr>part_id = ''p'' @ show_nat i, part_table = table, part_start = VInt64 lo, part_end = VInt64 hi\<rparr>"

definition split_step :: "64 word \<Rightarrow> 64 word \<Rightarrow> nat \<Rightarrow> 64 word" where
  "split_step lo hi n = (let step = go_div (hi - lo) (of_nat n) in if step = 0 then 1 else step)"

definition split_range :: "string \<Rightarrow> 64 word \<Rightarrow> 64 word \<Rightarrow> int \<Rightarrow> partition list" where
  "split_range table lo hi n =
     (if sint hi \<le> sint lo then [make_range table 0 lo (hi + 1)]
      else let n' = nat (if n \<le> 0 then 1 else n); step = split_step lo hi n' in
        map (\<lambda>i. let start = lo + of_nat i * step in
                 make_range table i start (if i = n' - 1 then hi + 1 else start + step))
          [0..<n'])"

definition pg_partitions :: "'d pg_client \<Rightarrow> 'd \<Rightarrow> string \<Rightarrow> int \<Rightarrow> partition list result" where
  "pg_partitions cl d table n =
     (case pg_min_max cl d (''SELECT MIN(id), MAX(id) FROM '' @ pg_sanitize cl table) of
        Inl e \<Rightarrow> Inl (Wrapf (''failed to get min/max PK for table '' @ table) e)
      | Inr (Some lo, Some hi) \<Rightarrow> Inr (split_range table lo hi n)
      | Inr _ \<Rightarrow> Inr [])"

text \<open>One row, column by column: a column named \<open>id\<close> gives the identifier and the offset.\<close>

definition pg_assign :: "go_map \<times> string \<times> gval \<Rightarrow> string \<times> gval \<Rightarrow> go_map \<times> string \<times> gval" where
  "pg_assign acc cv =
     (case (acc, cv) of
        ((data, ident, off), (c, v)) \<Rightarrow>
          (map_set c v data, if c = ''id'' then (sprint_v v, v) else (ident, off)))"

definition pg_record :: "partition \<Rightarrow> string list \<Rightarrow> gval list \<Rightarrow> go_record" where
  "pg_record p cols vals =
     (let (data, ident, off) = foldl pg_assign ([], [], VNil) (zip cols vals);
          off' = (if off = VNil \<and> vals \<noteq> [] then hd vals else off)
      in \<lparr>rec_id = ident, rec_data = data,
          rec_meta = \<lparr>source_table = part_table p, source_db = [], partition_id = part_id p, offset = off'\<rparr>\<rparr>)"

definition pg_row :: "partition \<Rightarrow> string list \<Rightarrow> (gval list) result \<Rightarrow> go_record result" where
  "pg_row p cols r =
     (case r of
        Inl e \<Rightarrow> Inl (Wrapf (''failed to scan row in partition '' @ part_id p) e)
      | Inr vals \<Rightarrow> Inr (pg_record p cols vals))"

definition pg_read_partition :: "'d pg_client \<Rightarrow> 'd \<Rightarrow> ctx \<Rightarrow> partition \<Rightarrow> partition_read" where
  "pg_read_partition cl d c p =
     closed_read
       (case pg_select cl d
          (''SELECT * FROM '' @ pg_sanitize cl (part_table p) @ '' WHERE id >= $1 AND id < $2'')
          (part_start p) (part_end p) of
          Inl e \<Rightarrow> ([], Some (Wrapf (''failed to query partition '' @ part_id p @ '' of table '' @ part_table p) e))
        | Inr (cols, rows, end_err) \<Rightarrow>
            stream c (pg_row p cols)
              (map_option (Wrapf (''row iteration error in partition '' @ part_id p)) end_err) 0 rows)"

section \<open>Schema\<close>

definition map_postgres_type :: "string \<Rightarrow> string" where
  "map_postgres_type t =
     (if t \<in> {''integer'', ''bigint'', ''smallint'', ''int'', ''int2'', ''int4'', ''int8''} then ''int64''
      else if t \<in> {''text'', ''character varying'', ''varchar'', ''char'', ''uuid'', ''name''} then ''string''
      else if t = ''boolean'' then ''bool''
      else if t \<in> {''double precision'', ''numeric'', ''real'', ''float4'', ''float8''} then ''float64''
      else if t \<in> {''timestamp with time zone'', ''timestamp without time zone'', ''timestamptz'', ''date''}
      then ''timestamp''
      else if t \<in> {''jsonb'', ''json''} then ''map''
      else if t = ''bytea'' then ''blob''
      else if t = ''ARRAY'' then ''array''
      else ''string'')"

fun scan_all :: "string \<Rightarrow> ('a \<Rightarrow> 'b) \<Rightarrow> 'a result list \<Rightarrow> 'b list result" where
  "scan_all what f [] = Inr []"
| "scan_all what f (Inl e # rs) = Inl (Wrapf what e)"
| "scan_all what f (Inr x # rs) = rbind (scan_all what f rs) (\<lambda>ys. Inr (f x # ys))"

definition rows_end :: "string \<Rightarrow> goerr option \<Rightarrow> 'a \<Rightarrow> 'a result" where
  "rows_end what end_err x = (case end_err of Some e \<Rightarrow> Inl (Wrapf what e) | None \<Rightarrow> Inr x)"

definition column_info :: "string \<times> string \<times> string \<Rightarrow> column" where
  "column_info = (\<lambda>(name, ty, is_nullable).
     \<lparr>col_name = name, col_type = map_postgres_type ty, nullable = (is_nullable = ''YES''), primary_key = False\<rparr>)"

definition mark_keys :: "string list \<Rightarrow> column list \<Rightarrow> column list" where
  "mark_keys keys = map (\<lambda>c. if col_name c \<in> set keys then c\<lparr>primary_key := True\<rparr> else c)"

definition pg_get_schema :: "'d pg_client \<Rightarrow> 'd \<Rightarrow> string \<Rightarrow> string \<Rightarrow> db_schema result" where
  "pg_get_schema cl d table tschema =
     (let ts = (if tschema = [] then ''public'' else tschema) in
      case pg_columns cl d table ts of
        Inl e \<Rightarrow> Inl (Wrapf (''failed to query information_schema for table '' @ ts @ ''.'' @ table) e)
      | Inr (rows, end_err) \<Rightarrow>
          rbind (scan_all ''failed to scan column info'' column_info rows) (\<lambda>cols.
          rbind (rows_end ''row iteration error during schema introspection'' end_err cols) (\<lambda>cols.
          if cols = [] then Inl (ErrMsg (''table '' @ quote table @ '' not found in schema '' @ quote ts))
          else case pg_keys cl d table ts of
            Inl e \<Rightarrow> Inl (Wrapf (''failed to query primary key for table '' @ table) e)
          | Inr (krows, kend) \<Rightarrow>
              rbind (scan_all ''failed to scan pk column'' (\<lambda>k. k) krows) (\<lambda>keys.
              rbind (rows_end ''row iteration error during PK introspection'' kend keys) (\<lambda>keys.
              Inr \<lparr>schema_name = table, columns = mark_keys keys cols\<rparr>)))))"

section \<open>Writer\<close>

definition map_to_postgres_type :: "string \<Rightarrow> string" where
  "map_to_postgres_type t =
     (if t = ''int64'' then ''bigint''
      else if t = ''string'' then ''text''
      else if t = ''bool'' then ''boolean''
      else if t = ''float64'' then ''double precision''
      else if t = ''timestamp'' then ''timestamptz''
      else ''text'')"

definition column_def :: "column \<Rightarrow> string" where
  "column_def c =
     col_name c @ '' '' @ map_to_postgres_type (col_type c) @
     (if primary_key c then '' PRIMARY KEY'' else '''') @ (if nullable c then '''' else '' NOT NULL'')"

definition create_table :: "'d pg_client \<Rightarrow> db_schema \<Rightarrow> string" where
  "create_table cl s =
     ''CREATE TABLE IF NOT EXISTS '' @ pg_sanitize cl (schema_name s) @ '' ('' @
     join_strings '', '' (map column_def (columns s)) @ '')''"

definition pg_apply_schema :: "'d pg_client \<Rightarrow> 'd \<Rightarrow> db_schema \<Rightarrow> goerr option \<times> 'd" where
  "pg_apply_schema cl d s =
     (case pg_exec cl d (create_table cl s) of
        (Some e, d') \<Rightarrow> (Some (Wrapf ''failed to apply schema'' e), d')
      | (None, d') \<Rightarrow> (None, d'))"

definition pg_rows :: "go_record list \<Rightarrow> string list \<times> gval list list" where
  "pg_rows batch =
     (let cols = map fst (rec_data (hd batch))
      in (cols, map (\<lambda>rc. map (map_get (rec_data rc)) cols) batch))"

definition pg_write_rows :: "'d pg_client \<Rightarrow> 'd \<Rightarrow> string \<Rightarrow> go_record list \<Rightarrow> int \<times> goerr option \<times> 'd" where
  "pg_write_rows cl d table batch =
     (if batch = [] then (0, None, d)
      else let (cols, rows) = pg_rows batch in
        case pg_copy cl d table cols rows of
          (n, Some e, d') \<Rightarrow> (0, Some (Wrapf ''failed to copy from rows'' e), d')
        | (n, None, d') \<Rightarrow> (n, None, d'))"

section \<open>The adapter\<close>

text \<open>The adapter's own state: the table of its writer, if there is one, and the schema name.\<close>

record pg_adapter =
  pa_writer :: "string option"
  pa_schema :: string

definition new_postgres_adapter :: pg_adapter where
  "new_postgres_adapter = \<lparr>pa_writer = None, pa_schema = ''public''\<rparr>"

definition pg_dsn :: "db_config \<Rightarrow> string" where
  "pg_dsn cfg =
     (if param cfg ''url'' \<noteq> [] then param cfg ''url''
      else let dsn = ''postgres://'' @ db_user cfg @ '':'' @ db_password cfg @ ''@'' @ db_host cfg @ '':'' @
                     show_int (db_port cfg) @ ''/'' @ db_database cfg
        in if db_params cfg \<noteq> []
           then butlast (dsn @ ''?'' @ concat (map (\<lambda>(k, v). if k = ''url'' then [] else k @ ''='' @ v @ ''&'') (db_params cfg)))
           else dsn @ ''?sslmode=require'')"

definition pg_connect :: "'d pg_client \<Rightarrow> db_config \<Rightarrow> 'd result" where
  "pg_connect cl cfg =
     (case pg_open cl (pg_dsn cfg) of
        Inl e \<Rightarrow> Inl (Wrapf ''failed to create postgres pool'' e)
      | Inr d \<Rightarrow>
          case pg_ping cl d of
            Some e \<Rightarrow> Inl (Wrapf ''failed to ping postgres'' e)
          | None \<Rightarrow> Inr d)"

definition pg_source :: "'d pg_client \<Rightarrow> pg_adapter \<Rightarrow> 'd \<Rightarrow> source_ops" where
  "pg_source cl a d =
     \<lparr>sa_type = ''postgres'', sa_partitions = pg_partitions cl d, sa_read = pg_read_partition cl d,
      sa_schema = (\<lambda>table. pg_get_schema cl d table (pa_schema a))\<rparr>"

definition pg_write_batch ::
  "'d pg_client \<Rightarrow> pg_adapter \<times> 'd \<Rightarrow> go_record list \<Rightarrow> int \<times> goerr option \<times> pg_adapter \<times> 'd" where
  "pg_write_batch cl ad batch =
     (case ad of (a, d) \<Rightarrow>
        if batch = [] then (0, None, a, d)
        else let table = (case pa_writer a of Some t \<Rightarrow> t | None \<Rightarrow> source_table (rec_meta (hd batch)));
                 (n, e, d') = pg_write_rows cl d table batch
             in (n, e, a\<lparr>pa_writer := Some table\<rparr>, d'))"

definition pg_apply :: "'d pg_client \<Rightarrow> pg_adapter \<times> 'd \<Rightarrow> db_schema \<Rightarrow> goerr option \<times> pg_adapter \<times> 'd" where
  "pg_apply cl ad s =
     (case ad of (a, d) \<Rightarrow>
        let (e, d') = pg_apply_schema cl d s in (e, a\<lparr>pa_writer := Some (schema_name s)\<rparr>, d'))"

definition pg_target :: "'d pg_client \<Rightarrow> (pg_adapter \<times> 'd) target_ops" where
  "pg_target cl = \<lparr>ta_apply = pg_apply cl, ta_write = pg_write_batch cl\<rparr>"

end
