(* ===== verification/Postgres_Props.thy ===== *)
theory Postgres_Props
  imports Postgres
begin

text \<open>
  The partitions of a PostgreSQL table cover it exactly, as long as no 64-bit sum wraps; what is
  lost when one does; what a bulk copy carries over.
\<close>

section \<open>Words without overflow\<close>

lemma sint_add_eq:
  "- (2 ^ 63) \<le> sint a + sint b \<Longrightarrow> sint a + sint b < 2 ^ 63 \<Longrightarrow> sint (a + b :: 64 word) = sint a + sint b"
  using sint_word_of_int_eq [of "sint a + sint b"] by simp

lemma sint_sub_eq:
  "- (2 ^ 63) \<le> sint a - sint b \<Longrightarrow> sint a - sint b < 2 ^ 63 \<Longrightarrow> sint (a - b :: 64 word) = sint a - sint b"
  using sint_word_of_int_eq [of "sint a - sint b"] by simp

lemma sint_of_nat_mult:
  assumes "0 \<le> sint s" and "int i * sint s < 2 ^ 63"
  shows "sint (of_nat i * s :: 64 word) = int i * sint s"
proof -
  have "0 \<le> int i * sint s" using assms(1) by (intro mult_nonneg_nonneg) auto
  then have "- (2 ^ 63) \<le> int i * sint s" by (rule order_trans [rotated]) simp
  from sint_word_of_int_eq [OF this assms(2)] show ?thesis by simp
qed

section \<open>The step and the bounds of a partition\<close>

definition no_wrap :: "64 word \<Rightarrow> 64 word \<Rightarrow> nat \<Rightarrow> bool" where
  "no_wrap lo hi n \<longleftrightarrow> 1 \<le> n \<and> sint hi - sint lo < 2 ^ 63 \<and> int n < 2 ^ 63 \<and> sint lo + int n < 2 ^ 63"

lemma split_step_value:
  assumes "sint lo < sint hi" and "no_wrap lo hi n"
  shows "sint (split_step lo hi n) = max 1 ((sint hi - sint lo) div int n)"
proof -
  let ?d = "sint hi - sint lo"
  have d: "sint (hi - lo) = ?d" using assms by (intro sint_sub_eq) (auto simp: no_wrap_def)
  have n: "sint (of_nat n :: 64 word) = int n"
    using assms(2) sint_word_of_int_eq [of "int n"] by (simp add: no_wrap_def)
  have q: "?d div int n \<le> ?d" "0 \<le> ?d div int n"
    using assms zdiv_mono2 [of ?d 1 "int n"] by (auto simp: no_wrap_def pos_imp_zdiv_nonneg_iff)
  have "?d sdiv int n = ?d div int n"
    using assms by (simp add: signed_divide_int_def no_wrap_def sgn_if)
  then have "go_div (hi - lo) (of_nat n) = word_of_int (?d div int n)" by (simp add: go_div_def d n)
  moreover have "sint (word_of_int (?d div int n) :: 64 word) = ?d div int n"
    using q assms by (intro sint_word_of_int_eq) (auto simp: no_wrap_def)
  moreover have "(word_of_int (?d div int n) :: 64 word) = 0 \<longleftrightarrow> ?d div int n = 0"
    using calculation(2) by (metis sint_0 word_of_int_0)
  ultimately show ?thesis using q by (auto simp: split_step_def Let_def)
qed

lemma split_sum_bound:
  assumes "sint lo < sint hi" and "no_wrap lo hi n" and "i < n"
  shows "0 < sint (split_step lo hi n)" and "int i * sint (split_step lo hi n) < 2 ^ 63"
    and "sint lo + int i * sint (split_step lo hi n) < 2 ^ 63"
    and "i \<noteq> n - 1 \<Longrightarrow> sint lo + (int i + 1) * sint (split_step lo hi n) < 2 ^ 63"
proof -
  let ?d = "sint hi - sint lo" and ?s = "sint (split_step lo hi n)"
  have s: "?s = max 1 (?d div int n)" by (rule split_step_value [OF assms(1,2)])
  then show "0 < ?s" by simp
  have n: "0 < int n" and d: "?d < 2 ^ 63" "int n < 2 ^ 63" "sint lo + int n < 2 ^ 63"
    using assms(2) by (auto simp: no_wrap_def)
  have up: "int j * ?s \<le> max (int n) ?d" if "j \<le> n" for j
  proof (cases "?d div int n \<le> 1")
    case True
    with s that show ?thesis by simp
  next
    case False
    have "int j * (?d div int n) \<le> int n * (?d div int n)"
      using False that by (intro mult_right_mono) auto
    also have "\<dots> \<le> ?d" using n mult_div_mod_eq [of "int n" ?d] pos_mod_sign [of "int n" ?d] by linarith
    finally show ?thesis using False s by simp
  qed
  have hi: "sint hi < 2 ^ 63" using sint_range by blast
  have small: "x < 2 ^ 63" "sint lo + x < 2 ^ 63" if "x \<le> max (int n) ?d" for x
    using that d hi by linarith+
  show "int i * ?s < 2 ^ 63" "sint lo + int i * ?s < 2 ^ 63" using small up [of i] assms(3) by auto
  have "int (Suc i) = int i + 1" by simp
  then show "i \<noteq> n - 1 \<Longrightarrow> sint lo + (int i + 1) * ?s < 2 ^ 63"
    using small(2) up [of "Suc i"] assms(3) by (metis Suc_leI)
qed

lemma make_range_holds [simp]:
  "range_holds (make_range table i lo hi) k \<longleftrightarrow> sint lo \<le> k \<and> k < sint hi"
  by (simp add: range_holds_def make_range_def)

text \<open>Which keys the \<open>i\<close>th partition holds.\<close>

lemma split_holds:
  assumes "sint lo < sint hi" and "no_wrap lo hi n" and "i < n"
  shows "range_holds (split_range table lo hi (int n) ! i) k \<longleftrightarrow>
    sint lo + int i * sint (split_step lo hi n) \<le> k \<and>
    (if i = n - 1 then k < sint (hi + 1) else k < sint lo + (int i + 1) * sint (split_step lo hi n))"
proof -
  let ?s = "split_step lo hi n"
  note b = split_sum_bound [OF assms]
  have lo: "- (2 ^ 63) \<le> sint lo" using sint_range by blast
  have mul: "sint (of_nat i * ?s :: 64 word) = int i * sint ?s" using b(1,2) by (intro sint_of_nat_mult) auto
  have start: "sint (lo + of_nat i * ?s) = sint lo + int i * sint ?s"
    using b(1,3) lo by (subst sint_add_eq) (auto simp: mul add_increasing2)
  have stop: "sint (lo + of_nat i * ?s + ?s) = sint lo + (int i + 1) * sint ?s" if "i \<noteq> n - 1"
    using b(1,4) that lo by (subst sint_add_eq) (auto simp: start algebra_simps add_increasing2)
  have n: "nat (if int n \<le> 0 then 1 else int n) = n" using assms(3) by simp
  show ?thesis using assms start stop by (simp add: split_range_def n Let_def)
qed

lemma split_length: "sint lo < sint hi \<Longrightarrow> 0 < n \<Longrightarrow> length (split_range table lo hi (int n)) = n"
  by (simp add: split_range_def Let_def)

lemma int_div_iffs:
  assumes "0 < (s :: int)"
  shows "i * s \<le> j \<longleftrightarrow> i \<le> j div s" and "j < (i + 1) * s \<longleftrightarrow> j div s \<le> i"
proof -
  show le: "i * s \<le> j \<longleftrightarrow> i \<le> j div s" for i
  proof
    assume "i * s \<le> j"
    then have "i * s div s \<le> j div s" using assms by (intro zdiv_mono1) auto
    then show "i \<le> j div s" using assms by simp
  next
    assume "i \<le> j div s"
    then have "i * s \<le> j div s * s" using assms by (intro mult_right_mono) auto
    also have "\<dots> \<le> j" using div_mult_mod_eq [of j s] pos_mod_sign [OF assms, of j] by linarith
    finally show "i * s \<le> j" .
  qed
  show "j < (i + 1) * s \<longleftrightarrow> j div s \<le> i" using le [of "i + 1"] by linarith
qed

lemma split_in_one:
  assumes "sint lo < sint hi" and "no_wrap lo hi n" and "sint hi < 2 ^ 63 - 1"
    and "sint lo \<le> k" and "k \<le> sint hi"
  shows "in_one range_holds (split_range table lo hi (int n)) k"
proof -
  let ?s = "sint (split_step lo hi n)" and ?ps = "split_range table lo hi (int n)"
  have n: "0 < n" using assms(2) by (simp add: no_wrap_def)
  note s = split_sum_bound(1) [OF assms(1,2) n]
  define q where "q = (k - sint lo) div ?s"
  have q: "0 \<le> q" using s assms(4) by (simp add: q_def pos_imp_zdiv_nonneg_iff)
  have le: "int i * ?s \<le> k - sint lo \<longleftrightarrow> int i \<le> q" and lt: "k - sint lo < (int i + 1) * ?s \<longleftrightarrow> q \<le> int i" for i
    using int_div_iffs [OF s] by (simp_all add: q_def)
  have hi: "sint (hi + 1) = sint hi + 1"
    using assms(3) sint_range [of hi] by (subst sint_add_eq) auto
  have holds: "range_holds (?ps ! i) k \<longleftrightarrow> int i \<le> q \<and> (i = n - 1 \<or> q \<le> int i)" if "i < n" for i
    using split_holds [OF assms(1,2) that, of table k] le [of i] lt [of i] assms(5) hi by auto
  define i where "i = min (nat q) (n - 1)"
  have len: "length ?ps = n" by (rule split_length [OF assms(1) n])
  show ?thesis
  proof (rule in_oneI [where i = i])
    show "i < length ?ps" using n len by (simp add: i_def)
    then show "range_holds (?ps ! i) k" using holds q len by (auto simp: i_def)
    fix j assume "j < length ?ps" "range_holds (?ps ! j) k"
    then show "j = i" using holds [of j] len q by (auto simp: i_def)
  qed
qed

section \<open>The whole table\<close>

text \<open>A single value is one partition; more readers than keys leave the last partitions empty.\<close>

definition pg_splits :: "string \<times> 64 word \<times> 64 word \<times> int \<Rightarrow> partition list" where
  "pg_splits = (\<lambda>(table, lo, hi, n). split_range table lo hi n)"

text \<open>The keys that no wrap-around endangers.\<close>

definition pg_safe :: "64 word \<Rightarrow> 64 word \<Rightarrow> int \<Rightarrow> bool" where
  "pg_safe lo hi n \<longleftrightarrow>
     sint hi < 2 ^ 63 - 1 \<and> sint hi - sint lo < 2 ^ 63 \<and> n < 2 ^ 63 \<and> sint lo + n < 2 ^ 63"

definition pg_safe_keys :: "string \<times> 64 word \<times> 64 word \<times> int \<Rightarrow> int set" where
  "pg_safe_keys = (\<lambda>(table, lo, hi, n). if pg_safe lo hi n then {sint lo..sint hi} else {})"

lemma split_range_in_one:
  assumes "pg_safe lo hi n" and "sint lo \<le> k" and "k \<le> sint hi"
  shows "in_one range_holds (split_range table lo hi n) k"
proof (cases "sint hi \<le> sint lo")
  case True
  have "sint (hi + 1) = sint hi + 1"
    using assms(1) sint_range [of hi] by (subst sint_add_eq) (auto simp: pg_safe_def)
  with True assms show ?thesis by (simp add: split_range_def in_one_def)
next
  case False
  let ?n = "if n \<le> 0 then 1 else n"
  have "split_range table lo hi n = split_range table lo hi (int (nat ?n))"
    by (simp add: split_range_def)
  moreover have "no_wrap lo hi (nat ?n)"
    using assms False by (auto simp: no_wrap_def pg_safe_def)
  ultimately show ?thesis using split_in_one [of lo hi "nat ?n" k table] assms False
    by (simp add: pg_safe_def)
qed

interpretation pg: range_partitioning range_holds pg_splits pg_safe_keys
  by unfold_locales (auto simp: pg_splits_def pg_safe_keys_def split_range_in_one split: if_splits)

text \<open>
  The database as the reader relies on it: a table of rows with an \<open>int64\<close> column \<open>id\<close>; the range
  query returns, in some order that does not depend on the range, the rows whose key is in it.
\<close>

definition key_of :: "string list \<Rightarrow> gval list \<Rightarrow> int" where
  "key_of cols r = (case map_of (zip cols r) ''id'' of Some (VInt64 w) \<Rightarrow> sint w | _ \<Rightarrow> 0)"

definition serves :: "'d pg_client \<Rightarrow> 'd \<Rightarrow> string \<Rightarrow> string list \<Rightarrow> gval list list \<Rightarrow> bool" where
  "serves cl d table cols rows \<longleftrightarrow>
     (\<forall>a b. pg_select cl d (''SELECT * FROM '' @ pg_sanitize cl table @ '' WHERE id >= $1 AND id < $2'')
          (VInt64 a) (VInt64 b) =
        Inr (cols, map Inr (filter (\<lambda>r. sint a \<le> key_of cols r \<and> key_of cols r < sint b) rows), None))"

definition row_map :: "string list \<Rightarrow> gval list \<Rightarrow> go_map" where
  "row_map cols r = foldl (\<lambda>m (c, v). map_set c v m) [] (zip cols r)"

lemma pg_record_data: "rec_data (pg_record p cols r) = row_map cols r"
proof -
  have "fst (foldl pg_assign acc cvs) = foldl (\<lambda>m (c, v). map_set c v m) (fst acc) cvs" for acc cvs
    by (induction cvs arbitrary: acc) (auto simp: pg_assign_def split: prod.splits)
  then show ?thesis by (simp add: pg_record_def row_map_def split: prod.splits) (metis fst_conv)
qed

lemma stream_rows [simp]:
  "stream background (pg_row p cols) None i (map Inr rs) = (map (pg_record p cols) rs, None)"
  by (induction rs arbitrary: i) (simp_all add: pg_row_def background_def)

lemma pg_reads:
  assumes "serves cl d table cols rows" and "p \<in> set (split_range table lo hi n)"
  shows "pg_read_partition cl d background p =
    closed_read (map (pg_record p cols) (filter (\<lambda>r. range_holds p (key_of cols r)) rows), None)"
proof -
  from assms(2) obtain i a b where p: "p = make_range table i a b"
    by (auto simp: split_range_def Let_def split: if_splits)
  from assms(1) show ?thesis
    by (simp add: pg_read_partition_def p serves_def make_range_def range_holds_def)
qed

lemma pg_reads_rows:
  assumes "serves cl d table cols rows"
    and "pg_min_max cl d (''SELECT MIN(id), MAX(id) FROM '' @ pg_sanitize cl table) = Inr (Some lo, Some hi)"
    and "\<forall>r \<in> set rows. sint lo \<le> key_of cols r \<and> key_of cols r \<le> sint hi" and "pg_safe lo hi n"
  shows "\<exists>ps. pg_partitions cl d table n = Inr ps \<and>
    mset (concat (map (\<lambda>p. map rec_data (pr_records (pg_read_partition cl d background p))) ps)) =
      mset (map (row_map cols) rows) \<and>
    (\<forall>p \<in> set ps. pr_error (pg_read_partition cl d background p) = None \<and>
       pr_closes (pg_read_partition cl d background p))"
proof -
  let ?ps = "split_range table lo hi n"
  have parts: "pg_partitions cl d table n = Inr ?ps" using assms(2) by (simp add: pg_partitions_def)
  have each: "map (\<lambda>p. map rec_data (pr_records (pg_read_partition cl d background p))) ?ps =
      map (\<lambda>p. map (row_map cols) (filter (\<lambda>r. range_holds p (key_of cols r)) rows)) ?ps"
    using pg_reads [OF assms(1)] by (intro map_cong) (auto simp: closed_read_def pg_record_data)
  have "concat (map (\<lambda>p. map rec_data (pr_records (pg_read_partition cl d background p))) ?ps) =
      map (row_map cols) (concat (map (\<lambda>p. filter (\<lambda>r. range_holds p (key_of cols r)) rows) ?ps))"
    unfolding each by (simp add: map_concat comp_def)
  moreover have "mset (concat (map (\<lambda>p. filter (\<lambda>r. range_holds p (key_of cols r)) rows) ?ps)) = mset rows"
    using pg.reads_each_row_once [of rows "key_of cols" "(table, lo, hi, n)"] assms(3,4)
    by (simp add: pg_splits_def pg_safe_keys_def)
  ultimately have "mset (concat (map (\<lambda>p. map rec_data (pr_records (pg_read_partition cl d background p))) ?ps)) =
      mset (map (row_map cols) rows)" by simp
  moreover have "\<forall>p \<in> set ?ps. pr_error (pg_read_partition cl d background p) = None \<and>
       pr_closes (pg_read_partition cl d background p)"
    using pg_reads [OF assms(1)] by (simp add: closed_read_def)
  ultimately show ?thesis using parts by blast
qed

text \<open>C24: reading a PostgreSQL table by its partitions, with any number of readers, returns every
  row exactly once, closes every channel and reports no error, when neither \<open>max + 1\<close> nor the range
  itself wraps around in 64 bits.\<close>

theorem pg_reads_each_row_once:
  assumes "serves cl d table cols rows"
    and "pg_min_max cl d (''SELECT MIN(id), MAX(id) FROM '' @ pg_sanitize cl table) = Inr (Some lo, Some hi)"
    and "\<forall>r \<in> set rows. sint lo \<le> key_of cols r \<and> key_of cols r \<le> sint hi" and "pg_safe lo hi n"
  shows "\<exists>ps. pg_partitions cl d table n = Inr ps \<and>
    mset (concat (map (\<lambda>p. map rec_data (pr_records (pg_read_partition cl d background p))) ps)) =
      mset (map (row_map cols) rows) \<and>
    (\<forall>p \<in> set ps. pr_error (pg_read_partition cl d background p) = None \<and>
       pr_closes (pg_read_partition cl d background p))"
  using assms by (rule pg_reads_rows)

text \<open>A database of one table with two rows.\<close>

definition two_rows :: "gval list list" where
  "two_rows = [[VInt64 3, VString ''a''], [VInt64 8, VString ''b'']]"

definition tiny_client :: "unit pg_client" where
  "tiny_client =
     \<lparr>pg_open = (\<lambda>dsn. Inr ()), pg_ping = (\<lambda>d. None), pg_sanitize = (\<lambda>t. t),
      pg_min_max = (\<lambda>d q. Inr (Some 3, Some 8)),
      pg_select = (\<lambda>d q a b. case (a, b) of
          (VInt64 x, VInt64 y) \<Rightarrow> Inr ([''id'', ''name''], map Inr (filter (\<lambda>r.
             sint x \<le> key_of [''id'', ''name''] r \<and> key_of [''id'', ''name''] r < sint y) two_rows), None)
        | _ \<Rightarrow> Inl (ErrMsg ''type'')),
      pg_exec = (\<lambda>d q. (None, d)), pg_copy = (\<lambda>d t cols rows. (int (length rows), None, d)),
      pg_columns = (\<lambda>d t s. Inr ([], None)), pg_keys = (\<lambda>d t s. Inr ([], None))\<rparr>"

theorem pg_reads_each_row_once_witness:
  "\<exists>ps. pg_partitions tiny_client () ''t'' 4 = Inr ps \<and>
     mset (concat (map (\<lambda>p. map rec_data (pr_records (pg_read_partition tiny_client () background p))) ps)) =
       mset (map (row_map [''id'', ''name'']) two_rows)"
proof -
  have "serves tiny_client () ''t'' [''id'', ''name''] two_rows" by (simp add: serves_def tiny_client_def)
  moreover have "pg_min_max tiny_client () (''SELECT MIN(id), MAX(id) FROM '' @ pg_sanitize tiny_client ''t'') = Inr (Some 3, Some 8)"
    by (simp add: tiny_client_def)
  moreover have "\<forall>r \<in> set two_rows. sint (3 :: 64 word) \<le> key_of [''id'', ''name''] r \<and>
      key_of [''id'', ''name''] r \<le> sint (8 :: 64 word)"
    by (simp add: two_rows_def key_of_def)
  moreover have "pg_safe 3 8 4" by (simp add: pg_safe_def)
  ultimately show ?thesis using pg_reads_each_row_once [of tiny_client _ "''t''"] by blast
qed

section \<open>The largest key\<close>

text \<open>C36: when the table's largest key is the largest \<open>int64\<close>, the bound \<open>max + 1\<close> of the last
  partition wraps to the smallest: the whole last partition is empty, and no row with a key from
  there on is read by any partition (with one reader: no row at all).\<close>

theorem pg_last_partition_lost:
  assumes "sint hi = 2 ^ 63 - 1" and "0 \<le> sint lo" and "sint lo < sint hi"
    and "1 \<le> n" and "sint lo + int n < 2 ^ 63"
    and "sint lo + int (n - 1) * sint (split_step lo hi n) \<le> k"
  shows "\<forall>p \<in> set (split_range table lo hi (int n)). \<not> range_holds p k"
proof
  fix p assume "p \<in> set (split_range table lo hi (int n))"
  then obtain i where i: "i < n" "p = split_range table lo hi (int n) ! i"
    using split_length [OF assms(3), of n table] assms(4) by (auto simp: in_set_conv_nth)
  have nw: "no_wrap lo hi n" using assms(1,2,4,5) by (simp add: no_wrap_def)
  have "word_of_int (sint hi) = hi" by simp
  then have "hi = word_of_int (2 ^ 63 - 1)" unfolding assms(1) by (rule sym)
  then have wrap: "sint (hi + 1) = - (2 ^ 63)" by simp
  show "\<not> range_holds p k"
  proof (cases "i = n - 1")
    case True
    have "0 \<le> int (n - 1) * sint (split_step lo hi n)"
      using split_sum_bound(1) [OF assms(3) nw i(1)] by (intro mult_nonneg_nonneg) auto
    then have "0 \<le> k" using assms(2,6) by linarith
    with True show ?thesis using split_holds [OF assms(3) nw i(1), of table k] i(2) wrap by auto
  next
    case False
    have "(int i + 1) * sint (split_step lo hi n) \<le> int (n - 1) * sint (split_step lo hi n)"
      using False i(1) split_sum_bound(1) [OF assms(3) nw i(1)] by (intro mult_right_mono) auto
    with False assms(6) show ?thesis using split_holds [OF assms(3) nw i(1), of table k] i(2) by auto
  qed
qed

theorem pg_last_partition_lost_witness:
  "filter (\<lambda>p. range_holds p 5) (split_range ''t'' 0 (word_of_int (2 ^ 63 - 1)) 1) = []"
proof -
  have hi: "sint (word_of_int (2 ^ 63 - 1) :: 64 word) = 2 ^ 63 - 1" by (rule sint_word_of_int_eq) simp_all
  show ?thesis using pg_last_partition_lost [of "word_of_int (2 ^ 63 - 1)" 0 1 5 "''t''"] by (simp add: hi filter_empty_conv)
qed

section \<open>What a copy carries\<close>

text \<open>The value that a copied row gives a column of the target, null if it is not copied.\<close>

definition copied :: "string list \<Rightarrow> gval list \<Rightarrow> string \<Rightarrow> gval" where
  "copied cols row k = map_get (zip cols row) k"

lemma copied_row:
  "copied cols (map (map_get m) cols) k = (if k \<in> set cols then map_get m k else VNil)"
proof -
  have "map_of (zip cols (map (map_get m) cols)) k = (if k \<in> set cols then Some (map_get m k) else None)"
    by (induction cols) auto
  then show ?thesis by (simp add: copied_def map_get_def)
qed

text \<open>C37: a bulk copy takes its columns from the first record of the batch: record \<open>i\<close> arrives as it
  is exactly when each of its non-nil fields is a field of the first record; every other field is
  silently dropped, and the batch still counts as written.\<close>

theorem pg_copy_projects:
  assumes "i < length batch"
  shows "(\<forall>k. copied (fst (pg_rows batch)) (snd (pg_rows batch) ! i) k = map_get (rec_data (batch ! i)) k) \<longleftrightarrow>
    (\<forall>k. map_get (rec_data (batch ! i)) k \<noteq> VNil \<longrightarrow> k \<in> fst ` set (rec_data (batch ! 0)))"
proof -
  have "hd batch = batch ! 0" using assms by (cases batch) auto
  then have "copied (fst (pg_rows batch)) (snd (pg_rows batch) ! i) k =
      (if k \<in> fst ` set (rec_data (batch ! 0)) then map_get (rec_data (batch ! i)) k else VNil)" for k
    using assms by (simp add: pg_rows_def Let_def copied_row del: map_map)
  then show ?thesis by metis
qed

definition short_record :: go_record where
  "short_record = \<lparr>rec_id = ''1'', rec_data = [(''id'', VInt64 1)], rec_meta = zero_metadata\<rparr>"

definition noted_record :: go_record where
  "noted_record = \<lparr>rec_id = ''2'', rec_data = [(''id'', VInt64 2), (''note'', VBool True)], rec_meta = zero_metadata\<rparr>"

theorem pg_copy_projects_witness:
  "\<exists>k. copied (fst (pg_rows [short_record, noted_record])) (snd (pg_rows [short_record, noted_record]) ! 1) k \<noteq>
     map_get (rec_data noted_record) k"
proof -
  let ?batch = "[short_record, noted_record]"
  have "map_get (rec_data (?batch ! 1)) ''note'' \<noteq> VNil" "''note'' \<notin> fst ` set (rec_data (?batch ! 0))"
    by (simp_all add: map_get_def short_record_def noted_record_def)
  moreover have "1 < length ?batch" "?batch ! 1 = noted_record" by simp_all
  ultimately show ?thesis using pg_copy_projects [of 1 ?batch] by metis
qed

section \<open>Types\<close>

text \<open>A column created in PostgreSQL is introspected with the type it was created for, for the
  types \<open>int64\<close>, \<open>string\<close>, \<open>bool\<close>, \<open>float64\<close> and \<open>timestamp\<close>; every other canonical type (\<open>map\<close>, \<open>array\<close>,
  \<open>blob\<close>) comes back as \<open>string\<close>.\<close>

theorem postgres_type_roundtrip:
  "map_postgres_type (map_to_postgres_type t) =
     (if t \<in> {''int64'', ''string'', ''bool'', ''float64'', ''timestamp''} then t else ''string'')"
  by (simp add: map_postgres_type_def map_to_postgres_type_def)

end
