(* ===== verification/Cassandra.thy ===== *)
theory Cassandra
  imports Adapter
begin

text \<open>
  \<open>internal/adapter/cassandra\<close>: token-range partitioning in unbounded integers, row streaming with
  UUIDs normalised to text, writes in sub-batches of 100, table creation and introspection. The
  cluster and the gocql driver are the parameter \<open>cql_client\<close>.
\<close>

section \<open>The driver\<close>

datatype cql_type =
    TypeInt | TypeBigInt | TypeSmallInt | TypeTinyInt | TypeFloat | TypeDouble | TypeDecimal | TypeBoolean
  | TypeTimestamp | TypeUUID | TypeTimeUUID | TypeBlob | TypeList | TypeSet | TypeMap
  | TypeVarchar | TypeText | TypeAscii | TypeOther

record table_metadata =
  tm_partition_key :: "string list"
  tm_clustering :: "string list"
  tm_columns :: "(string \<times> cql_type) list"
  tm_ordered :: "string list"

text \<open>
  \<open>cq_select\<close> gives the rows of a query over a token range and the error of \<open>iter.Close()\<close>;
  \<open>cq_batch\<close> executes an unlogged batch of statements with their values.
\<close>

record 'd cql_client =
  cq_connect :: "string list \<Rightarrow> int option \<Rightarrow> string \<Rightarrow> (string \<times> string) option \<Rightarrow> 'd result"
  cq_metadata :: "'d \<Rightarrow> string \<Rightarrow> (string \<times> table_metadata) list result"
  cq_select :: "'d \<Rightarrow> string \<Rightarrow> gval \<Rightarrow> gval \<Rightarrow> go_map list \<times> goerr option"
  cq_batch :: "'d \<Rightarrow> (string \<times> gval list) list \<Rightarrow> goerr option \<times> 'd"
  cq_exec :: "'d \<Rightarrow> string \<Rightarrow> goerr option \<times> 'd"

section \<open>Reader\<close>

definition min_token :: int where "min_token = - (2 ^ 63)"
definition max_token :: int where "max_token = 2 ^ 63 - 1"

definition token_part :: "string \<Rightarrow> nat \<Rightarrow> int \<Rightarrow> int \<Rightarrow> partition" where
  "token_part table i lo hi =
     \<lparr>part_id = table @ ''-'' @ show_nat i, part_table = table,
      part_start = VInt64 (word_of_int lo), part_end = VInt64 (word_of_int hi)\<rparr>"

text \<open>\<open>k\<close> partitions are left; the next one is number \<open>n - k\<close> and starts at \<open>current\<close>.\<close>

fun token_loop :: "string \<Rightarrow> nat \<Rightarrow> int \<Rightarrow> nat \<Rightarrow> int \<Rightarrow> partition list" where
  "token_loop table n step 0 current = []"
| "token_loop table n step (Suc k) current =
     (let i = n - Suc k; upper = (if i = n - 1 then max_token else current + step)
      in token_part table i current upper # token_loop table n step k upper)"

definition cass_partitions :: "string \<Rightarrow> int \<Rightarrow> partition list" where
  "cass_partitions table n =
     (let n' = (if n \<le> 0 then 1 else n); step = (max_token - min_token) div n'
      in token_loop table (nat n') step (nat n') min_token)"

definition uuid_text :: "gval \<Rightarrow> gval" where
  "uuid_text v = (case v of VOther ty txt _ \<Rightarrow> if ty = ''gocql.UUID'' then VString txt else v | _ \<Rightarrow> v)"

definition is_uuid :: "gval \<Rightarrow> bool" where
  "is_uuid v \<longleftrightarrow> (case v of VOther ty _ _ \<Rightarrow> ty = ''gocql.UUID'' | _ \<Rightarrow> False)"

text \<open>A key column adds its text to the identifier and a UUID in it becomes text in the row.\<close>

definition key_step :: "go_map \<times> string list \<Rightarrow> string \<Rightarrow> go_map \<times> string list" where
  "key_step acc c =
     (case acc of (row, keys) \<Rightarrow>
        let v = map_get row c; v' = uuid_text v
        in (if is_uuid v then map_set c v' row else row, keys @ [sprint_v v']))"

definition cass_record :: "string \<Rightarrow> table_metadata \<Rightarrow> partition \<Rightarrow> go_map \<Rightarrow> go_record" where
  "cass_record keyspace tm p row =
     (let token = map_get row ''gomigrate_token'';
          (row', keys) = foldl key_step (map_del ''gomigrate_token'' row, [])
                           (tm_partition_key tm @ tm_clustering tm)
      in \<lparr>rec_id = join_strings '':'' keys, rec_data = map (\<lambda>(k, v). (k, uuid_text v)) row',
          rec_meta = \<lparr>source_table = part_table p, source_db = keyspace, partition_id = part_id p, offset = token\<rparr>\<rparr>)"

definition token_query :: "table_metadata \<Rightarrow> string \<Rightarrow> string" where
  "token_query tm table =
     (let pk = ''token('' @ join_strings '','' (tm_partition_key tm) @ '')''
      in ''SELECT *, '' @ pk @ '' as gomigrate_token FROM '' @ table @ '' WHERE '' @ pk @ '' >= ? AND '' @ pk @ '' < ?'')"

text \<open>The loop has no check of the context before a row, only the \<open>select\<close>.\<close>

definition cass_read_partition :: "'d cql_client \<Rightarrow> 'd \<Rightarrow> string \<Rightarrow> ctx \<Rightarrow> partition \<Rightarrow> partition_read" where
  "cass_read_partition cl d keyspace c p =
     closed_read
       (case cq_metadata cl d keyspace of
          Inl e \<Rightarrow> ([], Some (Wrapf ''failed to get keyspace metadata'' e))
        | Inr tables \<Rightarrow>
            case map_of tables (part_table p) of
              None \<Rightarrow> ([], Some (ErrMsg (''table '' @ part_table p @ '' not found'')))
            | Some tm \<Rightarrow>
                let (rows, end_err) = cq_select cl d (token_query tm (part_table p)) (part_start p) (part_end p)
                in stream (\<lambda>i. (False, snd (c i))) (\<lambda>row. Inr (cass_record keyspace tm p row))
                     (map_option (Wrapf ''cassandra iteration error'') end_err) 0 rows)"

section \<open>Schema\<close>

definition map_cassandra_type :: "cql_type \<Rightarrow> string" where
  "map_cassandra_type t =
     (if t \<in> {TypeInt, TypeBigInt, TypeSmallInt, TypeTinyInt} then ''int64''
      else if t \<in> {TypeFloat, TypeDouble, TypeDecimal} then ''float64''
      else if t = TypeBoolean then ''bool''
      else if t = TypeTimestamp then ''timestamp''
      else if t \<in> {TypeUUID, TypeTimeUUID} then ''string''
      else if t = TypeBlob then ''blob''
      else if t \<in> {TypeList, TypeSet} then ''array''
      else if t = TypeMap then ''map''
      else ''string'')"

text \<open>The driver's metadata has a column for each ordered name; the model gives \<open>TypeOther\<close> otherwise.\<close>

definition cass_column :: "table_metadata \<Rightarrow> string \<Rightarrow> column" where
  "cass_column tm name =
     \<lparr>col_name = name,
      col_type = map_cassandra_type (case map_of (tm_columns tm) name of Some t \<Rightarrow> t | None \<Rightarrow> TypeOther),
      nullable = True,
      primary_key = (name \<in> set (tm_partition_key tm) \<union> set (tm_clustering tm))\<rparr>"

definition cass_get_schema :: "'d cql_client \<Rightarrow> 'd \<Rightarrow> string \<Rightarrow> string \<Rightarrow> db_schema result" where
  "cass_get_schema cl d keyspace table =
     (case cq_metadata cl d keyspace of
        Inl e \<Rightarrow> Inl (Wrapf ''failed to get keyspace metadata'' e)
      | Inr tables \<Rightarrow>
          case map_of tables table of
            None \<Rightarrow> Inl (ErrMsg (''table '' @ table @ '' not found in keyspace '' @ keyspace))
          | Some tm \<Rightarrow> Inr \<lparr>schema_name = table, columns = map (cass_column tm) (tm_ordered tm)\<rparr>)"

section \<open>Writer\<close>

definition insert_stmt :: "string \<Rightarrow> go_record \<Rightarrow> string \<times> gval list" where
  "insert_stmt table rc =
     (''INSERT INTO '' @ table @ '' ('' @ join_strings '','' (map fst (rec_data rc)) @ '') VALUES ('' @
        join_strings '','' (map (\<lambda>_. ''?'') (rec_data rc)) @ '')'',
      map snd (rec_data rc))"

text \<open>The loop over the index \<open>i\<close>, with \<open>written\<close> records so far.\<close>

function cass_loop ::
  "'d cql_client \<Rightarrow> 'd \<Rightarrow> string \<Rightarrow> go_record list \<Rightarrow> nat \<Rightarrow> nat \<Rightarrow> int \<times> goerr option \<times> 'd" where
  "cass_loop cl d table batch i written =
     (if length batch \<le> i then (int written, None, d)
      else let upper = (if length batch < i + 100 then length batch else i + 100);
               sub = take (upper - i) (drop i batch)
        in case cq_batch cl d (map (insert_stmt table) sub) of
             (Some e, d') \<Rightarrow> (int written, Some (Wrapf ''failed to execute cassandra batch'' e), d')
           | (None, d') \<Rightarrow> cass_loop cl d' table batch (i + 100) (written + length sub))"
  by pat_completeness auto
termination by (relation "measure (\<lambda>(cl, d, table, batch, i, written). length batch - i)") auto

declare cass_loop.simps [simp del]

definition cass_write_rows :: "'d cql_client \<Rightarrow> 'd \<Rightarrow> string \<Rightarrow> go_record list \<Rightarrow> int \<times> goerr option \<times> 'd" where
  "cass_write_rows cl d table batch =
     (if batch = [] then (0, None, d) else cass_loop cl d table batch 0 0)"

definition map_to_cassandra_type :: "string \<Rightarrow> string" where
  "map_to_cassandra_type t =
     (if t = ''int64'' then ''bigint''
      else if t = ''string'' then ''text''
      else if t = ''bool'' then ''boolean''
      else if t = ''float64'' then ''double''
      else if t = ''timestamp'' then ''timestamp''
      else if t = ''array'' then ''list<text>''
      else if t = ''map'' then ''map<text, text>''
      else if t = ''blob'' then ''blob''
      else ''text'')"

definition cass_create_table :: "db_schema \<Rightarrow> string" where
  "cass_create_table s =
     ''CREATE TABLE IF NOT EXISTS '' @ schema_name s @ '' ('' @
     join_strings '', '' (map (\<lambda>c. col_name c @ '' '' @ map_to_cassandra_type (col_type c)) (columns s)) @
     '', PRIMARY KEY (('' @ join_strings '', '' (map col_name (filter primary_key (columns s))) @ '')))''"

definition cass_apply_schema :: "'d cql_client \<Rightarrow> 'd \<Rightarrow> db_schema \<Rightarrow> goerr option \<times> 'd" where
  "cass_apply_schema cl d s =
     (if filter primary_key (columns s) = []
      then (Some (ErrMsg (''no primary key defined for table '' @ schema_name s)), d)
      else case cq_exec cl d (cass_create_table s) of
             (Some e, d') \<Rightarrow> (Some (Wrapf ''failed to apply schema to cassandra'' e), d')
           | (None, d') \<Rightarrow> (None, d'))"

section \<open>The adapter\<close>

record cass_adapter =
  ca_keyspace :: string
  ca_writer :: "string option"

definition new_cassandra_adapter :: cass_adapter where
  "new_cassandra_adapter = \<lparr>ca_keyspace = [], ca_writer = None\<rparr>"

definition cass_connect :: "'d cql_client \<Rightarrow> cass_adapter \<Rightarrow> db_config \<Rightarrow> (cass_adapter \<times> 'd) result" where
  "cass_connect cl a cfg =
     (let hosts = (if db_hosts cfg = [] \<and> db_host cfg \<noteq> [] then [db_host cfg] else db_hosts cfg) in
      if hosts = [] then Inl (ErrMsg ''no cassandra hosts provided in config'')
      else case cq_connect cl hosts (if 0 < db_port cfg then Some (db_port cfg) else None) (db_keyspace cfg)
               (if db_user cfg \<noteq> [] \<or> db_password cfg \<noteq> [] then Some (db_user cfg, db_password cfg) else None) of
             Inl e \<Rightarrow> Inl (Wrapf ''failed to create cassandra session'' e)
           | Inr d \<Rightarrow> Inr (a\<lparr>ca_keyspace := db_keyspace cfg\<rparr>, d))"

definition cass_source :: "'d cql_client \<Rightarrow> cass_adapter \<Rightarrow> 'd \<Rightarrow> source_ops" where
  "cass_source cl a d =
     \<lparr>sa_type = ''cassandra'', sa_partitions = (\<lambda>table n. Inr (cass_partitions table n)),
      sa_read = cass_read_partition cl d (ca_keyspace a), sa_schema = cass_get_schema cl d (ca_keyspace a)\<rparr>"

definition cass_write_batch ::
  "'d cql_client \<Rightarrow> cass_adapter \<times> 'd \<Rightarrow> go_record list \<Rightarrow> int \<times> goerr option \<times> cass_adapter \<times> 'd" where
  "cass_write_batch cl ad batch =
     (case ad of (a, d) \<Rightarrow>
        if batch = [] then (0, None, a, d)
        else let table = (case ca_writer a of Some t \<Rightarrow> t | None \<Rightarrow> source_table (rec_meta (hd batch)));
                 (n, e, d') = cass_write_rows cl d table batch
             in (n, e, a\<lparr>ca_writer := Some table\<rparr>, d'))"

definition cass_apply :: "'d cql_client \<Rightarrow> cass_adapter \<times> 'd \<Rightarrow> db_schema \<Rightarrow> goerr option \<times> cass_adapter \<times> 'd" where
  "cass_apply cl ad s =
     (case ad of (a, d) \<Rightarrow>
        let (e, d') = cass_apply_schema cl d s in (e, a\<lparr>ca_writer := Some (schema_name s)\<rparr>, d'))"

definition cass_target :: "'d cql_client \<Rightarrow> (cass_adapter \<times> 'd) target_ops" where
  "cass_target cl = \<lparr>ta_apply = cass_apply cl, ta_write = cass_write_batch cl\<rparr>"

section \<open>The token ring is covered\<close>

definition token_domain :: "string \<times> int \<Rightarrow> int set" where
  "token_domain x = {min_token..<max_token}"

lemma token_part_holds:
  "min_token \<le> lo \<Longrightarrow> lo \<le> max_token \<Longrightarrow> min_token \<le> hi \<Longrightarrow> hi \<le> max_token \<Longrightarrow>
   range_holds (token_part table i lo hi) k \<longleftrightarrow> lo \<le> k \<and> k < hi"
  using sint_word_of_int_eq [of lo] sint_word_of_int_eq [of hi]
  by (simp add: range_holds_def token_part_def min_token_def max_token_def)

lemma token_loop_holds:
  "0 \<le> step \<Longrightarrow> min_token \<le> current \<Longrightarrow> current + int k * step \<le> max_token \<Longrightarrow> Suc k \<le> n \<Longrightarrow>
   length (filter (\<lambda>p. range_holds p x) (token_loop table n step (Suc k) current)) =
     (if current \<le> x \<and> x < max_token then 1 else 0)"
proof (induction k arbitrary: current)
  case 0
  then show ?case by (simp add: token_part_holds)
next
  case (Suc k)
  have step: "current + step + int k * step \<le> max_token" using Suc.prems(3) by (simp add: algebra_simps)
  have "0 \<le> int k * step" using Suc.prems(1) by simp
  with step have le: "current + step \<le> max_token" by linarith
  have n: "n - Suc (Suc k) \<noteq> n - 1" using Suc.prems(4) by auto
  have rest: "length (filter (\<lambda>p. range_holds p x) (token_loop table n step (Suc k) (current + step))) =
      (if current + step \<le> x \<and> x < max_token then 1 else 0)"
    using Suc.prems step by (intro Suc.IH) auto
  have head: "range_holds (token_part table (n - Suc (Suc k)) current (current + step)) x \<longleftrightarrow>
      current \<le> x \<and> x < current + step"
    using Suc.prems le by (intro token_part_holds) auto
  have "token_loop table n step (Suc (Suc k)) current =
      token_part table (n - Suc (Suc k)) current (current + step) # token_loop table n step (Suc k) (current + step)"
    using n by (simp only: token_loop.simps(2) [of table n step "Suc k"] Let_def if_False)
  then show ?case using head rest le Suc.prems(1) by (auto simp del: token_loop.simps)
qed

lemma cass_partitions_holds:
  "length (filter (\<lambda>p. range_holds p x) (cass_partitions table n)) =
     (if min_token \<le> x \<and> x < max_token then 1 else 0)"
proof -
  define m where "m = nat (if n \<le> 0 then 1 else n)"
  define step where "step = (max_token - min_token) div int m"
  have m: "0 < m" "int m = (if n \<le> 0 then 1 else n)" by (simp_all add: m_def)
  have step: "0 \<le> step" "int m * step \<le> max_token - min_token"
  proof -
    show "0 \<le> step" using m(1) by (simp add: step_def pos_imp_zdiv_nonneg_iff min_token_def max_token_def)
    show "int m * step \<le> max_token - min_token"
      unfolding step_def using m(1) mult_div_mod_eq [of "int m" "max_token - min_token"]
        pos_mod_sign [of "int m" "max_token - min_token"] by linarith
  qed
  obtain k where k: "m = Suc k" using m(1) by (cases m) auto
  have "int k * step \<le> int m * step" using step(1) k by (intro mult_right_mono) auto
  then have "min_token + int k * step \<le> max_token" using step(2) by linarith
  moreover have "cass_partitions table n = token_loop table m step m min_token"
    using m by (simp add: cass_partitions_def Let_def step_def m_def)
  ultimately show ?thesis using token_loop_holds [of step min_token k m x table] step(1) k by simp
qed

interpretation cass: range_partitioning range_holds "\<lambda>(table, n). cass_partitions table n" token_domain
  by unfold_locales (simp add: in_one_def cass_partitions_holds token_domain_def split: prod.splits)

text \<open>C25: however many readers there are, every token of the ring except the largest lies in exactly
  one Cassandra partition; the largest token \<open>2^63 - 1\<close> lies in none, because the last range excludes
  its upper bound.\<close>

theorem cass_token_coverage:
  "in_one range_holds (cass_partitions table n) k \<longleftrightarrow> min_token \<le> k \<and> k < max_token"
  by (simp add: in_one_def cass_partitions_holds)

section \<open>Writing in sub-batches\<close>

text \<open>The reference: the pieces of 100 executed in turn until one fails.\<close>

fun exec_pieces :: "'d cql_client \<Rightarrow> 'd \<Rightarrow> string \<Rightarrow> go_record list list \<Rightarrow> nat \<Rightarrow> int \<times> goerr option \<times> 'd" where
  "exec_pieces cl d table [] written = (int written, None, d)"
| "exec_pieces cl d table (sub # subs) written =
     (case cq_batch cl d (map (insert_stmt table) sub) of
        (Some e, d') \<Rightarrow> (int written, Some (Wrapf ''failed to execute cassandra batch'' e), d')
      | (None, d') \<Rightarrow> exec_pieces cl d' table subs (written + length sub))"

lemma cass_loop_pieces:
  "cass_loop cl d table batch i written = exec_pieces cl d table (chunks_of 100 (drop i batch)) written"
proof (induction cl d table batch i written rule: cass_loop.induct)
  case (1 cl d table batch i written)
  show ?case
  proof (cases "length batch \<le> i")
    case True
    then show ?thesis by (simp add: cass_loop.simps [of cl d table batch i] chunks_of.simps)
  next
    case False
    let ?upper = "if length batch < i + 100 then length batch else i + 100"
    have sub: "take (?upper - i) (drop i batch) = take 100 (drop i batch)" by (auto simp: min_def)
    obtain e d' where b: "cq_batch cl d (map (insert_stmt table) (take 100 (drop i batch))) = (e, d')" by fastforce
    have pieces: "chunks_of 100 (drop i batch) = take 100 (drop i batch) # chunks_of 100 (drop (i + 100) batch)"
      using False by (subst chunks_of.simps) (simp add: add.commute)
    have unfold: "cass_loop cl d table batch i written =
        (case (e, d') of
           (Some e, d') \<Rightarrow> (int written, Some (Wrapf ''failed to execute cassandra batch'' e), d')
         | (None, d') \<Rightarrow> cass_loop cl d' table batch (i + 100) (written + length (take 100 (drop i batch))))"
      by (subst cass_loop.simps) (simp only: False if_False Let_def sub b)
    have rest: "cass_loop cl d' table batch (i + 100) (written + length (take 100 (drop i batch))) =
        exec_pieces cl d' table (chunks_of 100 (drop (i + 100) batch)) (written + length (take 100 (drop i batch)))"
      if "e = None"
      using 1 [OF False refl refl, unfolded sub, OF b [symmetric] that] .
    show ?thesis unfolding unfold pieces exec_pieces.simps b
      by (cases e) (simp_all only: rest prod.case option.case)
  qed
qed

text \<open>C26: the index arithmetic of the Cassandra writer is right: it executes exactly the batch cut into
  consecutive pieces of 100 records (the last one shorter), in order, and stops at the first piece
  that fails with the number of records of the pieces before it.\<close>

theorem cass_write_equals_pieces:
  "cass_write_rows cl d table batch = exec_pieces cl d table (chunks_of 100 batch) 0 \<and>
   concat (chunks_of 100 batch) = batch"
  using cass_loop_pieces [of cl d table batch 0 0] chunks_of.simps [of 100 "[] :: go_record list"]
  by (simp add: cass_write_rows_def chunks_of_concat)

end
