(* ===== verification/Mongo.thy ===== *)
theory Mongo
  imports Adapter
begin

text \<open>
  \<open>internal/adapter/mongo\<close>: partitioning by split keys or sampled identifiers, row streaming, upserts,
  index creation and schema inference. The server and its driver are the parameter \<open>mongo_client\<close>. A
  document is a map; an \<open>ObjectID\<close> is a \<^const>\<open>VOther\<close> of type \<open>primitive.ObjectID\<close> whose JSON text is its
  hexadecimal form. Sums of \<open>float64\<close> round as in Go.
\<close>

section \<open>The driver\<close>

text \<open>
  A filter on \<open>_id\<close> has a lower bound (\<open>$gte\<close>) and an upper bound (\<open>$lt\<close>). \<open>mg_bulk\<close> is an unordered bulk
  write of replacements with upsert: its counts, if the driver gives a result, and the error.
\<close>

type_synonym id_filter = "gval option \<times> gval option"

record 'd mongo_client =
  mg_connect :: "string \<Rightarrow> 'd result"
  mg_ping :: "'d \<Rightarrow> goerr option"
  mg_stats :: "'d \<Rightarrow> string \<Rightarrow> string \<Rightarrow> (64 word \<times> 64 word) result"
  mg_split :: "'d \<Rightarrow> string \<Rightarrow> 64 word \<Rightarrow> (go_map list \<times> int) result"
  mg_sample :: "'d \<Rightarrow> string \<Rightarrow> string \<Rightarrow> int \<Rightarrow> go_map result list result"
  mg_find :: "'d \<Rightarrow> string \<Rightarrow> string \<Rightarrow> id_filter \<Rightarrow> (go_map result list \<times> goerr option) result"
  mg_first :: "'d \<Rightarrow> string \<Rightarrow> string \<Rightarrow> nat \<Rightarrow> (go_map result list \<times> goerr option) result"
  mg_bulk :: "'d \<Rightarrow> string \<Rightarrow> string \<Rightarrow> (gval \<times> go_map) list \<Rightarrow> int option \<times> goerr option \<times> 'd"
  mg_names :: "'d \<Rightarrow> string \<Rightarrow> string \<Rightarrow> string list result"
  mg_create :: "'d \<Rightarrow> string \<Rightarrow> string \<Rightarrow> goerr option \<times> 'd"
  mg_index :: "'d \<Rightarrow> string \<Rightarrow> string \<Rightarrow> string \<Rightarrow> goerr option \<times> 'd"

section \<open>Reader\<close>

definition bound_part :: "string \<Rightarrow> nat \<Rightarrow> gval \<Rightarrow> gval \<Rightarrow> partition" where
  "bound_part table i lo hi =
     \<lparr>part_id = ''p'' @ show_nat i, part_table = table, part_start = lo, part_end = hi\<rparr>"

definition whole_table :: "string \<Rightarrow> partition list" where
  "whole_table table = [bound_part table 0 VNil VNil]"

text \<open>The loop over the keys, from partition \<open>i\<close> and the key before it, and the open last partition.\<close>

fun between_keys :: "string \<Rightarrow> nat \<Rightarrow> gval \<Rightarrow> gval list \<Rightarrow> partition list" where
  "between_keys table i last_key [] = [bound_part table i last_key VNil]"
| "between_keys table i last_key (k # ks) = bound_part table i last_key k # between_keys table (Suc i) k ks"

fun decoded_ids :: "go_map result list \<Rightarrow> gval list" where
  "decoded_ids [] = []"
| "decoded_ids (Inl e # ds) = decoded_ids ds"
| "decoded_ids (Inr doc # ds) =
     (case map_of doc ''_id'' of Some v \<Rightarrow> v # decoded_ids ds | None \<Rightarrow> decoded_ids ds)"

definition fallback_partitions :: "'d mongo_client \<Rightarrow> 'd \<Rightarrow> string \<Rightarrow> string \<Rightarrow> int \<Rightarrow> partition list" where
  "fallback_partitions cl d db table n =
     (if n - 1 \<le> 0 then whole_table table
      else case mg_sample cl d db table (n - 1) of
             Inl e \<Rightarrow> whole_table table
           | Inr docs \<Rightarrow>
               let bounds = decoded_ids docs
               in if bounds = [] then whole_table table else between_keys table 0 VNil bounds)"

definition f64_div :: "rat \<Rightarrow> rat \<Rightarrow> rat" where
  "f64_div x y = f64_round (x / y)"

definition max_chunk_mb :: "64 word \<Rightarrow> 64 word \<Rightarrow> int \<Rightarrow> 64 word" where
  "max_chunk_mb sz cnt n =
     (let size' = f64_round (of_int (sint sz)); count' = f64_round (of_int (sint cnt));
          avg = f64_div size' count'; docs = f64_div count' (f64_round (of_int n));
          mb = max 1 (f64_div (f64_round (docs * avg)) (1024 * 1024))
      in word_of_int \<lceil>mb\<rceil>)"

definition mongo_partitions :: "'d mongo_client \<Rightarrow> 'd \<Rightarrow> string \<Rightarrow> string \<Rightarrow> int \<Rightarrow> partition list" where
  "mongo_partitions cl d db table n =
     (if n \<le> 1 then whole_table table
      else case mg_stats cl d db table of
        Inl e \<Rightarrow> whole_table table
      | Inr (sz, cnt) \<Rightarrow>
          if cnt = 0 then whole_table table
          else case mg_split cl d (db @ ''.'' @ table) (max_chunk_mb sz cnt n) of
            Inl e \<Rightarrow> fallback_partitions cl d db table n
          | Inr (keys, ok) \<Rightarrow>
              if ok \<noteq> 1 then fallback_partitions cl d db table n
              else if keys = [] then whole_table table
              else between_keys table 0 VNil (map (\<lambda>sk. map_get sk ''_id'') keys))"

definition id_filter_of :: "partition \<Rightarrow> id_filter" where
  "id_filter_of p =
     (if part_start p \<noteq> VNil \<and> part_end p \<noteq> VNil then (Some (part_start p), Some (part_end p))
      else if part_start p \<noteq> VNil then (Some (part_start p), None)
      else if part_end p \<noteq> VNil then (None, Some (part_end p))
      else (None, None))"

definition id_text :: "gval \<Rightarrow> string" where
  "id_text v =
     (case v of
        VOther ty txt (Some (JStr hex)) \<Rightarrow> if ty = ''primitive.ObjectID'' then hex else sprint_v v
      | _ \<Rightarrow> sprint_v v)"

definition mongo_record :: "string \<Rightarrow> partition \<Rightarrow> go_map result \<Rightarrow> go_record result" where
  "mongo_record db p r =
     (case r of
        Inl e \<Rightarrow> Inl (Wrapf (''failed to decode document in partition '' @ part_id p) e)
      | Inr doc \<Rightarrow>
          Inr \<lparr>rec_id = id_text (map_get doc ''_id''), rec_data = doc,
               rec_meta = \<lparr>source_table = part_table p, source_db = db, partition_id = part_id p,
                           offset = map_get doc ''_id''\<rparr>\<rparr>)"

definition mongo_read_partition :: "'d mongo_client \<Rightarrow> 'd \<Rightarrow> string \<Rightarrow> ctx \<Rightarrow> partition \<Rightarrow> partition_read" where
  "mongo_read_partition cl d db c p =
     closed_read
       (case mg_find cl d db (part_table p) (id_filter_of p) of
          Inl e \<Rightarrow> ([], Some (Wrapf (''failed to execute find in partition '' @ part_id p) e))
        | Inr (docs, end_err) \<Rightarrow>
            stream c (mongo_record db p)
              (map_option (Wrapf (''cursor error in partition '' @ part_id p)) end_err) 0 docs)"

section \<open>Schema inference\<close>

fun after_dot :: "string \<Rightarrow> string" where
  "after_dot [] = []"
| "after_dot (c # cs) = (if c = CHR ''.'' then cs else after_dot cs)"

definition infer_type :: "gval \<Rightarrow> string" where
  "infer_type v =
     (case v of
        VNil \<Rightarrow> ''null''
      | VString _ \<Rightarrow> ''string''
      | VInt32 _ \<Rightarrow> ''int64''
      | VInt64 _ \<Rightarrow> ''int64''
      | VFloat64 _ \<Rightarrow> ''float64''
      | VBool _ \<Rightarrow> ''bool''
      | VMap _ \<Rightarrow> ''map''
      | VArr _ \<Rightarrow> ''array''
      | VBytes _ \<Rightarrow> ''blob''
      | VInt _ \<Rightarrow> ''int''
      | VFloat32 _ \<Rightarrow> ''float32''
      | VTime _ \<Rightarrow> ''Time''
      | VNumber _ \<Rightarrow> ''Number''
      | VOther ty _ _ \<Rightarrow>
          if ty = ''primitive.DateTime'' then ''timestamp''
          else if ty = ''primitive.ObjectID'' then ''string''
          else if ty = ''primitive.Decimal128'' then ''float64''
          else if ty = ''primitive.D'' then ''map''
          else after_dot ty)"

fun observe :: "(string \<times> column) list \<Rightarrow> go_map \<Rightarrow> (string \<times> column) list" where
  "observe cols [] = cols"
| "observe cols ((k, v) # doc) =
     observe
       (case map_of cols k of
          Some _ \<Rightarrow> cols
        | None \<Rightarrow> map_set k \<lparr>col_name = k, col_type = infer_type v, nullable = True,
                             primary_key = (k = ''_id'')\<rparr> cols) doc"

fun observe_all :: "(string \<times> column) list \<Rightarrow> go_map result list \<Rightarrow> (string \<times> column) list result" where
  "observe_all cols [] = Inr cols"
| "observe_all cols (Inl e # docs) = Inl (Wrapf ''failed to decode sample document'' e)"
| "observe_all cols (Inr doc # docs) = observe_all (observe cols doc) docs"

definition id_first :: "(string \<times> column) list \<Rightarrow> column list" where
  "id_first cols =
     (case map_of cols ''_id'' of
        Some c \<Rightarrow> c # map snd (map_del ''_id'' cols)
      | None \<Rightarrow> map snd cols)"

definition mongo_schema :: "'d mongo_client \<Rightarrow> 'd \<Rightarrow> string \<Rightarrow> string \<Rightarrow> db_schema result" where
  "mongo_schema cl d db table =
     (case mg_first cl d db table 1000 of
        Inl e \<Rightarrow> Inl (Wrapf ''failed to sample documents for schema inference'' e)
      | Inr (docs, end_err) \<Rightarrow>
          rbind (observe_all [] docs) (\<lambda>cols.
            case end_err of
              Some e \<Rightarrow> Inl (Wrapf ''cursor error during schema inference'' e)
            | None \<Rightarrow> Inr \<lparr>schema_name = table, columns = id_first cols\<rparr>))"

section \<open>Writer\<close>

definition replacement :: "go_record \<Rightarrow> gval \<times> go_map" where
  "replacement rc = (VString (rec_id rc), map_del ''_id'' (rec_data rc))"

definition mongo_write_batch :: "'d mongo_client \<Rightarrow> string \<Rightarrow> 'd \<Rightarrow> go_record list \<Rightarrow> int \<times> goerr option \<times> 'd" where
  "mongo_write_batch cl db d batch =
     (if batch = [] then (0, None, d)
      else case mg_bulk cl d db (source_table (rec_meta (hd batch))) (map replacement batch) of
             (counts, Some e, d') \<Rightarrow>
               ((case counts of Some n \<Rightarrow> n | None \<Rightarrow> 0), Some (Wrapf ''bulk write failed'' e), d')
           | (counts, None, d') \<Rightarrow> ((case counts of Some n \<Rightarrow> n | None \<Rightarrow> 0), None, d'))"

fun unique_indexes :: "'d mongo_client \<Rightarrow> 'd \<Rightarrow> string \<Rightarrow> string \<Rightarrow> column list \<Rightarrow> goerr option \<times> 'd" where
  "unique_indexes cl d db coll [] = (None, d)"
| "unique_indexes cl d db coll (c # cs) =
     (if primary_key c \<and> col_name c \<noteq> ''_id'' then
        (case mg_index cl d db coll (col_name c) of
           (Some e, d') \<Rightarrow> (Some (Wrapf (''failed to create unique index for '' @ quote (col_name c)) e), d')
         | (None, d') \<Rightarrow> unique_indexes cl d' db coll cs)
      else unique_indexes cl d db coll cs)"

definition mongo_apply_schema :: "'d mongo_client \<Rightarrow> string \<Rightarrow> 'd \<Rightarrow> db_schema \<Rightarrow> goerr option \<times> 'd" where
  "mongo_apply_schema cl db d s =
     (case mg_names cl d db (schema_name s) of
        Inl e \<Rightarrow> (Some (Wrapf ''failed to list collections'' e), d)
      | Inr names \<Rightarrow>
          case (if names = [] then mg_create cl d db (schema_name s) else (None, d)) of
            (Some e, d') \<Rightarrow> (Some (Wrapf (''failed to create collection '' @ quote (schema_name s)) e), d')
          | (None, d') \<Rightarrow> unique_indexes cl d' db (schema_name s) (columns s))"

section \<open>The adapter\<close>

definition credentials :: "db_config \<Rightarrow> string" where
  "credentials cfg =
     (if db_user cfg \<noteq> [] \<and> db_password cfg \<noteq> [] then db_user cfg @ '':'' @ db_password cfg @ ''@'' else [])"

definition mongo_uri :: "db_config \<Rightarrow> string" where
  "mongo_uri cfg =
     (let hosts = (if db_hosts cfg \<noteq> [] then join_strings '','' (db_hosts cfg)
                   else db_host cfg @ '':'' @ show_int (db_port cfg));
          uri = ''mongodb://'' @ credentials cfg @ hosts @ ''/'' @ db_database cfg
      in if db_params cfg \<noteq> []
         then butlast (uri @ ''?'' @ concat (map (\<lambda>(k, v). k @ ''='' @ v @ ''&'') (db_params cfg)))
         else uri)"

definition mongo_connect :: "'d mongo_client \<Rightarrow> db_config \<Rightarrow> 'd result" where
  "mongo_connect cl cfg =
     (case mg_connect cl (mongo_uri cfg) of
        Inl e \<Rightarrow> Inl (Wrapf ''failed to connect to mongodb'' e)
      | Inr d \<Rightarrow>
          case mg_ping cl d of
            Some e \<Rightarrow> Inl (Wrapf ''failed to ping mongodb primary'' e)
          | None \<Rightarrow> Inr d)"

definition mongo_source :: "'d mongo_client \<Rightarrow> db_config \<Rightarrow> 'd \<Rightarrow> source_ops" where
  "mongo_source cl cfg d =
     \<lparr>sa_type = ''mongo'',
      sa_partitions = (\<lambda>table n. Inr (mongo_partitions cl d (db_database cfg) table n)),
      sa_read = mongo_read_partition cl d (db_database cfg),
      sa_schema = mongo_schema cl d (db_database cfg)\<rparr>"

definition mongo_target :: "'d mongo_client \<Rightarrow> db_config \<Rightarrow> 'd target_ops" where
  "mongo_target cl cfg =
     \<lparr>ta_apply = mongo_apply_schema cl (db_database cfg), ta_write = mongo_write_batch cl (db_database cfg)\<rparr>"

section \<open>Ranges of identifiers\<close>

text \<open>
  How the server compares: values of one type bracket are ordered by \<open>rank\<close>, and a bound of a filter
  matches only values of its own bracket.
\<close>

definition id_matches :: "(gval \<Rightarrow> nat) \<Rightarrow> (gval \<Rightarrow> 'k :: linorder) \<Rightarrow> id_filter \<Rightarrow> gval \<Rightarrow> bool" where
  "id_matches bracket rank f v \<longleftrightarrow>
     (case fst f of None \<Rightarrow> True | Some a \<Rightarrow> bracket v = bracket a \<and> rank a \<le> rank v) \<and>
     (case snd f of None \<Rightarrow> True | Some b \<Rightarrow> bracket v = bracket b \<and> rank v < rank b)"

definition id_holds :: "(gval \<Rightarrow> nat) \<Rightarrow> (gval \<Rightarrow> 'k :: linorder) \<Rightarrow> partition \<Rightarrow> gval \<Rightarrow> bool" where
  "id_holds bracket rank p = id_matches bracket rank (id_filter_of p)"

definition sorted_bounds :: "(gval \<Rightarrow> nat) \<Rightarrow> (gval \<Rightarrow> 'k :: linorder) \<Rightarrow> nat \<Rightarrow> gval list \<Rightarrow> bool" where
  "sorted_bounds bracket rank b ks \<longleftrightarrow>
     ks \<noteq> [] \<and> sorted (map rank ks) \<and> (\<forall>k \<in> set ks. bracket k = b \<and> k \<noteq> VNil)"

lemma between_keys_holds:
  assumes "sorted (map rank ks)" and "\<forall>k \<in> set ks. bracket k = b \<and> k \<noteq> VNil"
    and "bracket lo = b" and "lo \<noteq> VNil" and "\<forall>k \<in> set ks. rank lo \<le> rank k"
  shows "length (filter (\<lambda>p. id_holds bracket rank p v) (between_keys table i lo ks)) =
    (if bracket v = b \<and> rank lo \<le> rank v then 1 else 0)"
  using assms
proof (induction ks arbitrary: lo i)
  case Nil
  then show ?case by (simp add: id_holds_def id_matches_def id_filter_of_def bound_part_def)
next
  case (Cons k ks)
  have "length (filter (\<lambda>p. id_holds bracket rank p v) (between_keys table (Suc i) k ks)) =
      (if bracket v = b \<and> rank k \<le> rank v then 1 else 0)"
    using Cons.prems by (intro Cons.IH) auto
  moreover have "id_holds bracket rank (bound_part table i lo k) v \<longleftrightarrow>
      bracket v = b \<and> rank lo \<le> rank v \<and> rank v < rank k"
    using Cons.prems by (auto simp: id_holds_def id_matches_def id_filter_of_def bound_part_def)
  ultimately show ?case using Cons.prems(5) by auto
qed

lemma split_keys_hold:
  assumes "sorted_bounds bracket rank b ks"
  shows "length (filter (\<lambda>p. id_holds bracket rank p v) (between_keys table i VNil ks)) =
    (if bracket v = b then 1 else 0)"
proof -
  obtain k ks' where ks: "ks = k # ks'" using assms by (cases ks) (auto simp: sorted_bounds_def)
  have "length (filter (\<lambda>p. id_holds bracket rank p v) (between_keys table (Suc i) k ks')) =
      (if bracket v = b \<and> rank k \<le> rank v then 1 else 0)"
    using assms by (intro between_keys_holds) (auto simp: sorted_bounds_def ks)
  moreover have "id_holds bracket rank (bound_part table i VNil k) v \<longleftrightarrow> bracket v = b \<and> rank v < rank k"
    using assms by (auto simp: sorted_bounds_def ks id_holds_def id_matches_def id_filter_of_def bound_part_def)
  ultimately show ?thesis by (auto simp: ks)
qed

text \<open>The identifiers of one bracket, when all the bounds are of that bracket and in order.\<close>

definition same_bracket :: "(gval \<Rightarrow> nat) \<Rightarrow> (gval \<Rightarrow> 'k :: linorder) \<Rightarrow> string \<times> gval list \<Rightarrow> gval set" where
  "same_bracket bracket rank x =
     {v. sorted_bounds bracket rank (bracket (hd (snd x))) (snd x) \<and> bracket v = bracket (hd (snd x))}"

interpretation mg: range_partitioning "id_holds bracket rank" "\<lambda>(table, ks). between_keys table 0 VNil ks"
    "same_bracket bracket rank" for bracket and rank :: "gval \<Rightarrow> 'k :: linorder"
  by unfold_locales (auto simp: in_one_def same_bracket_def split_keys_hold)

text \<open>C27: partitions between sorted split keys of one BSON type read each document exactly once if its
  \<open>_id\<close> has that type, and in no partition at all if it has another: a collection with identifiers of several
  types loses documents silently.\<close>

theorem mongo_range_coverage:
  assumes "sorted_bounds bracket (rank :: gval \<Rightarrow> 'k :: linorder) b ks"
  shows "length (filter (\<lambda>p. id_holds bracket rank p v) (between_keys table 0 VNil ks)) =
    (if bracket v = b then 1 else 0)"
  using assms by (rule split_keys_hold)

definition sample_bracket :: "gval \<Rightarrow> nat" where
  "sample_bracket v = (case v of VString _ \<Rightarrow> 1 | _ \<Rightarrow> 0)"

definition sample_rank :: "gval \<Rightarrow> int" where
  "sample_rank v = (case v of VInt64 w \<Rightarrow> sint w | _ \<Rightarrow> 0)"

theorem mongo_range_coverage_witness:
  "length (filter (\<lambda>p. id_holds sample_bracket sample_rank p (VInt64 7)) (between_keys ''t'' 0 VNil [VInt64 5, VInt64 9])) = 1 \<and>
   filter (\<lambda>p. id_holds sample_bracket sample_rank p (VString ''k'')) (between_keys ''t'' 0 VNil [VInt64 5, VInt64 9]) = []"
proof -
  have "sorted_bounds sample_bracket sample_rank 0 [VInt64 5, VInt64 9]"
    by (simp add: sorted_bounds_def sample_bracket_def sample_rank_def)
  note all = mongo_range_coverage [OF this, of _ "''t''"]
  from all [of "VInt64 7"] all [of "VString ''k''"] show ?thesis by (simp add: sample_bracket_def)
qed

section \<open>What an upsert keeps\<close>

text \<open>The effect of the replacements on a collection, one after the other.\<close>

fun upsert_all :: "(gval \<Rightarrow> go_map option) \<Rightarrow> (gval \<times> go_map) list \<Rightarrow> gval \<Rightarrow> go_map option" where
  "upsert_all coll [] = coll"
| "upsert_all coll ((k, doc) # ms) = upsert_all (coll(k \<mapsto> doc)) ms"

lemma upsert_all_dom: "dom (upsert_all coll ms) = dom coll \<union> fst ` set ms"
proof (induction ms arbitrary: coll)
  case (Cons m ms)
  then show ?case by (cases m) (auto simp: dom_def)
qed simp

text \<open>After a MongoDB batch the collection has exactly the documents it had and one for each
  distinct record identifier: records that share an identifier (restored records all have the empty
  one) end as a single document.\<close>

theorem mongo_upsert_identifiers:
  "dom (upsert_all coll (map replacement batch)) = dom coll \<union> VString ` rec_id ` set batch"
  by (simp add: upsert_all_dom replacement_def image_image)

end
