(* ===== verification/Iceberg.thy ===== *)
theory Iceberg
  imports Adapter Storage Serializer
begin

text \<open>
  \<open>internal/adapter/iceberg\<close>: the REST catalog client, the reader that lists and reads Parquet files,
  the writer that uploads a file per batch and commits it, and the adapter. HTTP is the parameter
  \<open>http_client\<close>; the Parquet library is \<^typ>\<open>'q pq_ops\<close>; files are byte strings in a storage backend.
\<close>

section \<open>The catalog\<close>

text \<open>The structs of \<open>catalog.go\<close>. The type of a field is a string or a JSON object.\<close>

record iceberg_field =
  if_id :: nat
  if_name :: string
  if_type :: gval
  if_required :: bool

record iceberg_schema =
  is_type :: string
  is_fields :: "iceberg_field list"
  is_id :: nat

record snapshot =
  sn_id :: int
  sn_timestamp :: int
  sn_summary :: "(string \<times> string) list"
  sn_manifests :: string

record table_state =
  md_schema :: iceberg_schema
  md_location :: string
  md_last_column :: int
  md_current :: int
  md_snapshots :: "snapshot list"
  md_manifests :: "string list"

record table_response =
  tr_metadata :: table_state
  tr_location :: string

text \<open>A response: its status, its body as text, and what decoding the body gives.\<close>

record http_response =
  hr_status :: int
  hr_body :: string
  hr_table :: "table_response result"

record 'w http_client =
  hc_get :: "'w \<Rightarrow> string \<Rightarrow> http_response result"
  hc_post :: "'w \<Rightarrow> string \<Rightarrow> json \<Rightarrow> http_response result \<times> 'w"

definition tables_url :: "string \<Rightarrow> string \<Rightarrow> string" where
  "tables_url base ns = base @ ''/v1/namespaces/'' @ ns @ ''/tables''"

definition get_table :: "'w http_client \<Rightarrow> 'w \<Rightarrow> string \<Rightarrow> string \<Rightarrow> string \<Rightarrow> table_response result" where
  "get_table hc w base ns table =
     rbind (hc_get hc w (tables_url base ns @ ''/'' @ table)) (\<lambda>resp.
       if hr_status resp \<noteq> 200
       then Inl (ErrMsg (''catalog error ('' @ show_int (hr_status resp) @ ''): '' @ hr_body resp))
       else hr_table resp)"

definition post_status :: "string \<Rightarrow> int list \<Rightarrow> http_response result \<Rightarrow> goerr option" where
  "post_status what ok r =
     (case r of
        Inl e \<Rightarrow> Some e
      | Inr resp \<Rightarrow>
          if hr_status resp \<notin> set ok
          then Some (ErrMsg (what @ '' ('' @ show_int (hr_status resp) @ ''): '' @ hr_body resp))
          else None)"

definition create_catalog_table ::
  "'w http_client \<Rightarrow> 'w \<Rightarrow> string \<Rightarrow> string \<Rightarrow> json \<Rightarrow> goerr option \<times> 'w" where
  "create_catalog_table hc w base ns request =
     (let (r, w') = hc_post hc w (tables_url base ns) request
      in (post_status ''failed to create table'' [200, 201] r, w'))"

definition commit_snapshot ::
  "'w http_client \<Rightarrow> 'w \<Rightarrow> string \<Rightarrow> string \<Rightarrow> string \<Rightarrow> json \<Rightarrow> goerr option \<times> 'w" where
  "commit_snapshot hc w base ns table commit =
     (let (r, w') = hc_post hc w (tables_url base ns @ ''/'' @ table @ ''/snapshots'') commit
      in (post_status ''commit failed'' [200] r, w'))"

section \<open>Schemas\<close>

definition map_iceberg_type :: "gval \<Rightarrow> string" where
  "map_iceberg_type v =
     (case v of
        VString t \<Rightarrow>
          if t = ''boolean'' then ''bool''
          else if t \<in> {''int'', ''long''} then ''int64''
          else if t \<in> {''float'', ''double''} then ''float64''
          else if t \<in> {''date'', ''time'', ''timestamp'', ''timestamptz''} then ''timestamp''
          else if t \<in> {''string'', ''uuid''} then ''string''
          else if t \<in> {''binary'', ''fixed''} then ''blob''
          else ''string''
      | VMap m \<Rightarrow>
          (case map_get m ''type'' of
             VString t \<Rightarrow>
               if t = ''struct'' then ''map''
               else if t = ''list'' then ''array''
               else if t = ''map'' then ''map''
               else if t = ''decimal'' then ''float64''
               else ''string''
           | _ \<Rightarrow> ''string'')
      | _ \<Rightarrow> ''string'')"

definition canonical_schema :: "iceberg_schema \<Rightarrow> string \<Rightarrow> db_schema" where
  "canonical_schema s table =
     \<lparr>schema_name = table,
      columns = map (\<lambda>f. \<lparr>col_name = if_name f, col_type = map_iceberg_type (if_type f),
                           nullable = (\<not> if_required f), primary_key = False\<rparr>) (is_fields s)\<rparr>"

definition map_to_iceberg_type :: "string \<Rightarrow> string" where
  "map_to_iceberg_type t =
     (if t = ''int64'' then ''long''
      else if t = ''float64'' then ''double''
      else if t = ''bool'' then ''boolean''
      else if t = ''timestamp'' then ''timestamptz''
      else if t = ''blob'' then ''binary''
      else ''string'')"

definition create_iceberg_schema :: "db_schema \<Rightarrow> iceberg_schema" where
  "create_iceberg_schema s =
     \<lparr>is_type = ''struct'',
      is_fields = map (\<lambda>(i, c). \<lparr>if_id = i + 1, if_name = col_name c,
                                  if_type = VString (map_to_iceberg_type (col_type c)),
                                  if_required = (\<not> nullable c)\<rparr>) (enumerate 0 (columns s)),
      is_id = 0\<rparr>"

text \<open>The JSON of a schema whose types are strings.\<close>

definition field_json :: "iceberg_field \<Rightarrow> json" where
  "field_json f =
     JObj [(''id'', JNum (LInt (int (if_id f)))), (''name'', JStr (if_name f)),
           (''type'', case if_type f of VString t \<Rightarrow> JStr t | _ \<Rightarrow> JNull), (''required'', JBool (if_required f))]"

definition schema_json :: "iceberg_schema \<Rightarrow> json" where
  "schema_json s =
     JObj [(''type'', JStr (is_type s)), (''fields'', JArr (map field_json (is_fields s))),
           (''schema-id'', JNum (LInt (int (is_id s))))]"

section \<open>Reader\<close>

definition data_prefix :: "table_response \<Rightarrow> string" where
  "data_prefix resp = trim_prefix (md_location (tr_metadata resp)) ''s3://bucket/'' @ ''/data''"

definition file_part :: "string \<Rightarrow> nat \<Rightarrow> string \<Rightarrow> partition" where
  "file_part table i file =
     \<lparr>part_id = table @ ''-'' @ show_nat i, part_table = table, part_start = VString file, part_end = VNil\<rparr>"

definition ice_partitions ::
  "'w http_client \<Rightarrow> ('s, 8 word list) storage_ops \<Rightarrow> string \<Rightarrow> string \<Rightarrow> 'w \<times> 's \<Rightarrow> string \<Rightarrow> partition list result" where
  "ice_partitions hc st base ns ws table =
     (case ws of (w, s) \<Rightarrow>
        rbind (wrap_err ''failed to get table metadata'' (get_table hc w base ns table)) (\<lambda>resp.
        rbind (wrap_err (''failed to list data files in '' @ md_location (tr_metadata resp))
                 (st_list st s (data_prefix resp))) (\<lambda>files.
        Inr (map (\<lambda>(i, file). file_part table i file)
               (enumerate 0 (filter (\<lambda>f. has_suffix f ''.parquet'') files))))))"

fun ice_get_val :: "cell \<Rightarrow> gval" where
  "ice_get_val CNull = VNil"
| "ice_get_val (CInt v) = VInt64 v"
| "ice_get_val (CFloat x) = VFloat64 x"
| "ice_get_val (CBool b) = VBool b"
| "ice_get_val (CStr s) = VString s"
| "ice_get_val (CTime us) = VTime (sint us * 1000)"

definition ice_record :: "string \<Rightarrow> string list \<Rightarrow> cell list \<Rightarrow> go_record" where
  "ice_record table names row =
     \<lparr>rec_id = [], rec_data = foldl (\<lambda>m (n, c). map_set n (ice_get_val c) m) [] (zip names row),
      rec_meta = zero_metadata\<lparr>source_table := table\<rparr>\<rparr>"

definition open_failed :: "pq_stage \<Rightarrow> string \<Rightarrow> string" where
  "open_failed stage file =
     (case stage of
        PqFile \<Rightarrow> ''failed to create parquet reader for ''
      | PqArrow \<Rightarrow> ''failed to create pqarrow reader for ''
      | PqRecords \<Rightarrow> ''failed to get record reader for '') @ file"

text \<open>
  \<open>seekable\<close> says whether the storage's readers can seek (local files can). The channel is not closed
  on any path, and the context is not looked at.
\<close>

definition ice_read_partition ::
  "('s, 8 word list) storage_ops \<Rightarrow> 'q pq_ops \<Rightarrow> bool \<Rightarrow> 's \<Rightarrow> partition \<Rightarrow> partition_read" where
  "ice_read_partition st pq seekable s p =
     (let (records, err) =
        (case part_start p of
           VString file \<Rightarrow>
             (case st_get st s file of
                Inl e \<Rightarrow> ([], Some (Wrapf (''failed to open data file '' @ file) e))
              | Inr bytes \<Rightarrow>
                  if \<not> seekable
                  then ([], Some (ErrMsg ''storage backend does not support ReaderAtSeeker, required for Parquet''))
                  else case pq_read pq (map PByte bytes) of
                         Inl (stage, e) \<Rightarrow> ([], Some (Wrapf (open_failed stage file) e))
                       | Inr (names, rows, end_err) \<Rightarrow> (map (ice_record (part_table p) names) rows, end_err))
         | _ \<Rightarrow> ([], Some (ErrMsg ''invalid partition start: expected file path string'')))
      in \<lparr>pr_records = records, pr_error = err, pr_closes = False\<rparr>)"

section \<open>Writer\<close>

definition ice_arrow_type :: "string \<Rightarrow> arrow_type" where
  "ice_arrow_type t =
     (if t = ''int64'' then AInt64
      else if t = ''float64'' then AFloat64
      else if t = ''bool'' then ABool
      else if t = ''timestamp'' then ATimestamp
      else AString)"

definition ice_append_value :: "arrow_type \<Rightarrow> gval \<Rightarrow> cell result" where
  "ice_append_value t val =
     (case t of
        AInt64 \<Rightarrow>
          (case val of
             VInt64 v \<Rightarrow> Inr (CInt v)
           | VInt v \<Rightarrow> Inr (CInt v)
           | _ \<Rightarrow> Inl (ErrMsg (''cannot coerce '' @ type_name val @ '' to int64'')))
      | AFloat64 \<Rightarrow>
          (case val of
             VFloat64 x \<Rightarrow> Inr (CFloat x)
           | _ \<Rightarrow> Inl (ErrMsg (''expected float64, got '' @ type_name val)))
      | ABool \<Rightarrow>
          (case val of
             VBool b \<Rightarrow> Inr (CBool b)
           | _ \<Rightarrow> Inl (ErrMsg (''expected bool, got '' @ type_name val)))
      | ATimestamp \<Rightarrow>
          (case val of
             VTime t \<Rightarrow> Inr (CTime (word_of_int (t div 1000)))
           | _ \<Rightarrow> Inl (ErrMsg (''expected time.Time, got '' @ type_name val)))
      | AString \<Rightarrow> Inr (CStr (sprint_v val)))"

definition ice_cell :: "column \<Rightarrow> go_record \<Rightarrow> cell result" where
  "ice_cell c rc =
     (case map_get (rec_data rc) (col_name c) of
        VNil \<Rightarrow> Inr CNull
      | v \<Rightarrow> ice_append_value (ice_arrow_type (col_type c)) v)"

record ice_writer =
  iw_table :: string
  iw_schema :: "db_schema option"

definition ice_apply_schema ::
  "'w http_client \<Rightarrow> string \<Rightarrow> string \<Rightarrow> 'w \<Rightarrow> ice_writer \<Rightarrow> db_schema \<Rightarrow> goerr option \<times> ice_writer \<times> 'w" where
  "ice_apply_schema hc base ns w iw s =
     (let iw' = iw\<lparr>iw_schema := Some s\<rparr> in
      case get_table hc w base ns (iw_table iw) of
        Inr _ \<Rightarrow> (None, iw', w)
      | Inl _ \<Rightarrow>
          (case create_catalog_table hc w base ns
             (JObj [(''location'', JStr (''s3://bucket/'' @ ns @ ''/'' @ iw_table iw)),
                    (''name'', JStr (iw_table iw)), (''schema'', schema_json (create_iceberg_schema s))]) of
             (Some e, w') \<Rightarrow> (Some (Wrapf (''failed to create Iceberg table '' @ iw_table iw) e), iw', w')
           | (None, w') \<Rightarrow> (None, iw', w')))"

definition file_name :: "string \<Rightarrow> int \<Rightarrow> string" where
  "file_name table now = table @ ''/data/'' @ show_int now @ ''.parquet''"

text \<open>The commit names the size of what is left of the buffer after the upload: nothing.\<close>

definition commit_json :: "string \<Rightarrow> nat \<Rightarrow> nat \<Rightarrow> json" where
  "commit_json file n_records left =
     JObj [(''action'', JStr ''append''),
           (''updates'', JArr [JObj [(''action'', JStr ''add-data-file''),
              (''file'', JObj [(''file-format'', JStr ''PARQUET''), (''file-path'', JStr file),
                 (''file-size-in-bytes'', JNum (LInt (int left))), (''record-count'', JNum (LInt (int n_records)))])]])]"

definition parquet_bytes :: "'q pq_ops \<Rightarrow> column list \<Rightarrow> cell list list \<Rightarrow> 8 word list result" where
  "parquet_bytes pq cols rows =
     rbind (wrap_err ''failed to create parquet writer''
              (pq_new pq (map (\<lambda>c. (col_name c, ice_arrow_type (col_type c), nullable c)) cols))) (\<lambda>(o1, q).
     rbind (wrap_err ''failed to write arrow record'' (pq_write pq q rows)) (\<lambda>(o2, q').
     rbind (wrap_err ''failed to close parquet writer'' (pq_finish pq q')) (\<lambda>o3. Inr (o1 @ o2 @ o3))))"

definition ice_write_rows ::
  "'w http_client \<Rightarrow> ('s, 8 word list) storage_ops \<Rightarrow> 'q pq_ops \<Rightarrow> string \<Rightarrow> string \<Rightarrow> int \<Rightarrow> ice_writer
   \<Rightarrow> 'w \<times> 's \<Rightarrow> go_record list \<Rightarrow> int \<times> goerr option \<times> 'w \<times> 's" where
  "ice_write_rows hc st pq base ns now iw ws batch =
     (case ws of (w, s) \<Rightarrow>
        if batch = [] then (0, None, w, s)
        else case iw_schema iw of
          None \<Rightarrow> (0, Some (ErrMsg ''ApplySchema must be called before WriteBatch''), w, s)
        | Some sch \<Rightarrow>
            let cols = columns sch; file = file_name (iw_table iw) now in
            case rbind (collect (\<lambda>c. collect (ice_cell c) batch) cols)
                   (\<lambda>cs. parquet_bytes pq cols (rows_of (length batch) cs)) of
              Inl e \<Rightarrow> (0, Some e, w, s)
            | Inr bytes \<Rightarrow>
                case st_put st s file bytes of
                  Inl e \<Rightarrow> (0, Some (Wrapf ''failed to upload data file'' e), w, s)
                | Inr s' \<Rightarrow>
                    case commit_snapshot hc w base ns (iw_table iw) (commit_json file (length batch) 0) of
                      (Some e, w') \<Rightarrow> (0, Some (Wrapf ''failed to commit snapshot'' e), w', s')
                    | (None, w') \<Rightarrow> (int (length batch), None, w', s'))"

section \<open>The adapter\<close>

record ice_adapter =
  ia_base :: string
  ia_namespace :: string
  ia_writer :: "ice_writer option"
  ia_storage :: local_storage

text \<open>\<open>cwd\<close> is the working directory; every \<open>storage_type\<close> gives a local directory in it.\<close>

definition ice_connect :: "string list \<Rightarrow> db_config \<Rightarrow> (8 word list) fs \<Rightarrow> (ice_adapter \<times> (8 word list) fs) result" where
  "ice_connect cwd cfg f =
     rbind (new_local_storage (cwd @ [''iceberg_data'']) f) (\<lambda>(ls, f').
       Inr (\<lparr>ia_base = db_host cfg,
             ia_namespace = (if db_database cfg = [] then ''default'' else db_database cfg),
             ia_writer = None, ia_storage = ls\<rparr>, f'))"

definition ice_source ::
  "'w http_client \<Rightarrow> 'q pq_ops \<Rightarrow> ice_adapter \<Rightarrow> 'w \<times> (8 word list) fs \<Rightarrow> source_ops" where
  "ice_source hc pq a ws =
     \<lparr>sa_type = ''iceberg'',
      sa_partitions = (\<lambda>table n. ice_partitions hc (local_ops (ia_storage a)) (ia_base a) (ia_namespace a) ws table),
      sa_read = (\<lambda>c p. ice_read_partition (local_ops (ia_storage a)) pq True (snd ws) p),
      sa_schema = (\<lambda>table. rbind (get_table hc (fst ws) (ia_base a) (ia_namespace a) table)
         (\<lambda>resp. Inr (canonical_schema (md_schema (tr_metadata resp)) table)))\<rparr>"

definition ice_write_batch ::
  "'w http_client \<Rightarrow> 'q pq_ops \<Rightarrow> int \<Rightarrow> ice_adapter \<times> 'w \<times> (8 word list) fs \<Rightarrow> go_record list
   \<Rightarrow> int \<times> goerr option \<times> ice_adapter \<times> 'w \<times> (8 word list) fs" where
  "ice_write_batch hc pq now aws batch =
     (case aws of (a, ws) \<Rightarrow>
        if batch = [] then (0, None, a, ws)
        else let iw = (case ia_writer a of
                         Some iw \<Rightarrow> iw
                       | None \<Rightarrow> \<lparr>iw_table = source_table (rec_meta (hd batch)), iw_schema = None\<rparr>);
                 (n, e, ws') = ice_write_rows hc (local_ops (ia_storage a)) pq (ia_base a) (ia_namespace a) now iw ws batch
             in (n, e, a\<lparr>ia_writer := Some iw\<rparr>, ws'))"

definition ice_apply ::
  "'w http_client \<Rightarrow> ice_adapter \<times> 'w \<times> (8 word list) fs \<Rightarrow> db_schema
   \<Rightarrow> goerr option \<times> ice_adapter \<times> 'w \<times> (8 word list) fs" where
  "ice_apply hc aws s =
     (case aws of (a, w, f) \<Rightarrow>
        let (e, iw, w') = ice_apply_schema hc (ia_base a) (ia_namespace a) w
                            \<lparr>iw_table = schema_name s, iw_schema = None\<rparr> s
        in (e, a\<lparr>ia_writer := Some iw\<rparr>, w', f))"

definition ice_target ::
  "'w http_client \<Rightarrow> 'q pq_ops \<Rightarrow> int \<Rightarrow> (ice_adapter \<times> 'w \<times> (8 word list) fs) target_ops" where
  "ice_target hc pq now = \<lparr>ta_apply = ice_apply hc, ta_write = ice_write_batch hc pq now\<rparr>"

end
