(* ===== verification/Iceberg_Props.thy ===== *)
theory Iceberg_Props
  imports Iceberg Restore_Props
begin

text \<open>
  The two ends of the Iceberg adapter do not meet: what the writer uploads is not where the reader
  looks, and the reader never closes its channel.
\<close>

section \<open>Paths of three components\<close>

lemma split_on_sep: "c \<notin> set a \<Longrightarrow> split_on c (a @ c # b) = a # split_on c b"
  by (induction a) auto

lemma full_path_three:
  assumes "plain a" and "plain b" and "plain c"
  shows "full_path ls (a @ ''/'' @ b @ ''/'' @ c) = Inr (base_dir ls @ [a, b, c])"
proof -
  have "split_on (CHR ''/'') (a @ ''/'' @ b @ ''/'' @ c) = [a, b, c]"
    using assms by (simp add: plain_def split_on_sep split_on_no_sep)
  then have "clean_from (base_dir ls) (a @ ''/'' @ b @ ''/'' @ c) = base_dir ls @ [a, b, c]"
    using assms by (auto simp: clean_from_def clean_step_def plain_def has_prefix_def)
  moreover have "\<not> has_prefix (a @ t) ''..''" if "t = [] \<or> hd t = CHR ''/''" for t
    using assms(1) that unfolding plain_def has_prefix_def
    by (cases a; cases "tl a"; cases t) (auto split: if_splits)
  ultimately show ?thesis by (simp add: full_path_def rel_text_def Let_def)
qed

lemma plain_file: "plain (show_int now @ ''.parquet'')"
proof -
  have nonempty: "show_nat n \<noteq> []" for n by (subst show_nat.simps) simp
  have digits: "c \<in> set (show_nat n) \<Longrightarrow> c \<noteq> CHR ''/'' \<and> c \<noteq> CHR ''.''" for c n
    using show_nat_digits [of c n] by (auto simp: digit_char_def dest!: arg_cong [where f = "of_char :: char \<Rightarrow> nat"])
  have "\<forall>c \<in> set (show_int now). c \<noteq> CHR ''/'' \<and> c \<noteq> CHR ''.''"
    using digits by (auto simp: show_int_def)
  moreover have "show_int now \<noteq> []" using nonempty by (simp add: show_int_def)
  ultimately show ?thesis
    by (cases "show_int now") (auto simp: plain_def has_prefix_def)
qed

section \<open>Where the reader looks\<close>

lemma local_list_frame:
  assumes dir: "full_path ls prefix = Inr d" and put: "local_put ls f path x = Inr f'"
    and fp: "full_path ls path = Inr fp" and "\<not> has_prefix fp d" and "length d \<le> length fp"
  shows "local_list ls f' prefix = local_list ls f prefix"
proof -
  have f': "fs_files f' = map_set fp x (fs_files f)"
    using put fp by (auto simp: local_put_Inr mkdir_all_def split: if_splits)
  have "fp \<noteq> d" using assms(4) by (auto simp: has_prefix_def)
  moreover have "d \<noteq> []" using assms(4) by (auto simp: has_prefix_def)
  then have "0 < length d" by simp
  then have "fp \<notin> set (prefixes_of (butlast d))"
    using prefixes_length [of fp "butlast d"] assms(5) unfolding length_butlast by linarith
  ultimately have same: "map_of (fs_files f') d = map_of (fs_files f) d" "under_file f' d = under_file f d"
    by (auto simp: f' under_file_def list_ex_iff)
  have "filter (\<lambda>p. has_prefix p d) (map fst (map_set fp x m)) = filter (\<lambda>p. has_prefix p d) (map fst m)" for m
    using assms(4) by (induction m) auto
  then have "filter (\<lambda>p. has_prefix p d) (sort (map fst (fs_files f'))) =
      filter (\<lambda>p. has_prefix p d) (sort (map fst (fs_files f)))"
    by (simp add: f' filter_sort)
  then show ?thesis using dir same by (simp add: local_list_def)
qed

text \<open>C38: the Iceberg reader never sees what the Iceberg writer has written: the writer uploads to
  \<open>table/data/\<close>, while the reader lists \<open>namespace/table/data\<close>, derived from the location that the
  writer itself registered. After a successful write, whatever snapshot the catalog has recorded of it (as
  long as the table keeps its location), the partitions are those from before it.\<close>

theorem iceberg_written_not_listed:
  assumes "plain ns" and "plain table" and "iw_table iw = table"
    and "ice_write_rows hc (local_ops ls) pq base ns now iw (w, f) batch = (n, None, w', f')"
    and "get_table hc w base ns table = Inr resp" and "get_table hc w' base ns table = Inr resp'"
    and "md_location (tr_metadata resp) = ''s3://bucket/'' @ ns @ ''/'' @ table"
    and "md_location (tr_metadata resp') = md_location (tr_metadata resp)"
  shows "ice_partitions hc (local_ops ls) base ns (w', f') table =
    ice_partitions hc (local_ops ls) base ns (w, f) table"
proof (cases "batch = []")
  case True
  with assms(4-6) show ?thesis by (simp add: ice_write_rows_def)
next
  case False
  let ?path = "file_name table now" and ?fn = "show_int now @ ''.parquet''"
  from assms(3,4) False obtain bytes where put: "local_put ls f ?path bytes = Inr f'"
    by (auto simp: ice_write_rows_def local_ops_def Let_def split: option.splits sum.splits prod.splits)
  have path: "full_path ls ?path = Inr (base_dir ls @ [table, ''data'', ?fn])"
    using full_path_three [OF assms(2) _ plain_file, of "''data''" ls now]
    by (simp add: file_name_def plain_def has_prefix_def)
  have prefix: "data_prefix resp = ns @ ''/'' @ table @ ''/data''"
    using trim_prefix_append [of "''s3://bucket/''" "ns @ ''/'' @ table"]
    by (simp add: data_prefix_def assms(7))
  have dir: "full_path ls (data_prefix resp) = Inr (base_dir ls @ [ns, table, ''data''])"
    using full_path_three [OF assms(1,2), of "''data''" ls] by (simp add: prefix plain_def has_prefix_def)
  have "?fn \<noteq> ''data''"
  proof
    assume "?fn = ''data''"
    then have "last ?fn = last ''data''" by simp
    then show False by simp
  qed
  then have "\<not> has_prefix (base_dir ls @ [table, ''data'', ?fn]) (base_dir ls @ [ns, table, ''data''])"
    by (auto simp: has_prefix_iff)
  from local_list_frame [OF dir put path this] have
    "local_list ls f' (data_prefix resp) = local_list ls f (data_prefix resp)" by simp
  moreover have "data_prefix resp' = data_prefix resp" using assms(8) by (simp add: data_prefix_def)
  ultimately show ?thesis using assms(5,6,8) by (simp add: ice_partitions_def local_ops_def wrap_err_def split: sum.split)
qed

text \<open>A catalog that knows one table and accepts every post, and an empty local storage.\<close>

definition known_table :: table_response where
  "known_table =
     \<lparr>tr_metadata = \<lparr>md_schema = create_iceberg_schema \<lparr>schema_name = ''t'', columns = flag_columns\<rparr>,
        md_location = ''s3://bucket/ns/t'', md_last_column = 1, md_current = 0, md_snapshots = [], md_manifests = []\<rparr>,
      tr_location = []\<rparr>"

definition tiny_http :: "unit http_client" where
  "tiny_http =
     \<lparr>hc_get = (\<lambda>w url. Inr \<lparr>hr_status = 200, hr_body = [], hr_table = Inr known_table\<rparr>),
      hc_post = (\<lambda>w url j. (Inr \<lparr>hr_status = 200, hr_body = [], hr_table = Inr known_table\<rparr>, w))\<rparr>"

definition data_dir :: local_storage where
  "data_dir = \<lparr>base_dir = [''d'']\<rparr>"

definition no_files :: "(8 word list) fs" where
  "no_files = \<lparr>fs_files = [], fs_dirs = [], fs_device = reliable\<rparr>"

definition flag_writer :: ice_writer where
  "flag_writer = \<lparr>iw_table = ''t'', iw_schema = Some \<lparr>schema_name = ''t'', columns = flag_columns\<rparr>\<rparr>"

text \<open>A catalog that records every commit: the current snapshot of the table is the number of posts.\<close>

definition recorded :: "nat \<Rightarrow> table_response" where
  "recorded n = known_table\<lparr>tr_metadata := (tr_metadata known_table)\<lparr>md_current := int n\<rparr>\<rparr>"

definition recording_http :: "nat http_client" where
  "recording_http =
     \<lparr>hc_get = (\<lambda>w url. Inr \<lparr>hr_status = 200, hr_body = [], hr_table = Inr (recorded w)\<rparr>),
      hc_post = (\<lambda>w url j. (Inr \<lparr>hr_status = 200, hr_body = [], hr_table = Inr (recorded (Suc w))\<rparr>, Suc w))\<rparr>"

lemma recorded_write:
  "\<exists>f'. ice_write_rows recording_http (local_ops data_dir) tiny_parquet ''u'' ''ns'' 7 flag_writer (0, no_files) [flag_record] =
     (1, None, 1, f')"
proof -
  have p: "full_path data_dir (file_name ''t'' 7) = Inr [''d'', ''t'', ''data'', show_int 7 @ ''.parquet'']"
    using full_path_three [OF _ _ plain_file, of "''t''" "''data''" data_dir 7]
    by (simp add: file_name_def plain_def has_prefix_def data_dir_def)
  show ?thesis
    by (simp add: ice_write_rows_def flag_writer_def ice_cell_def flag_columns_def flag_record_def map_get_def
        ice_arrow_type_def ice_append_value_def parquet_bytes_def tiny_parquet_def rows_of_def wrap_err_def
        local_ops_def local_put_def local_write_def p mkdir_all_def no_files_def commit_snapshot_def
        recording_http_def post_status_def Let_def)
qed

theorem iceberg_written_not_listed_witness:
  "\<exists>f'. ice_write_rows recording_http (local_ops data_dir) tiny_parquet ''u'' ''ns'' 7 flag_writer (0, no_files) [flag_record] =
       (1, None, 1, f') \<and>
     get_table recording_http 1 ''u'' ''ns'' ''t'' \<noteq> get_table recording_http 0 ''u'' ''ns'' ''t'' \<and>
     ice_partitions recording_http (local_ops data_dir) ''u'' ''ns'' (1, f') ''t'' =
       ice_partitions recording_http (local_ops data_dir) ''u'' ''ns'' (0, no_files) ''t''"
proof -
  obtain f' where w: "ice_write_rows recording_http (local_ops data_dir) tiny_parquet ''u'' ''ns'' 7 flag_writer (0, no_files)
      [flag_record] = (1, None, 1, f')" using recorded_write by blast
  have t: "get_table recording_http n ''u'' ''ns'' ''t'' = Inr (recorded n)" for n
    by (simp add: get_table_def recording_http_def)
  have "plain ''ns''" "plain ''t''" "iw_table flag_writer = ''t''"
    "md_location (tr_metadata (recorded 0)) = ''s3://bucket/'' @ ''ns'' @ ''/'' @ ''t''"
    "md_location (tr_metadata (recorded 1)) = md_location (tr_metadata (recorded 0))"
    by (simp_all add: plain_def has_prefix_def flag_writer_def known_table_def recorded_def)
  moreover have "recorded 1 \<noteq> recorded 0" by (simp add: recorded_def known_table_def)
  ultimately show ?thesis using iceberg_written_not_listed [OF _ _ _ w t t] w t by auto
qed

section \<open>The channel stays open\<close>

lemma backup_partitions_open:
  assumes "\<And>p. \<not> pr_closes (src p)"
  shows "ps \<noteq> [] \<Longrightarrow> backup_partitions en src cm ps \<noteq> Some (Inr cm')"
  using assms by (cases ps) (auto simp: backup_partition_def split: sum.splits option.splits)

text \<open>A backup of an Iceberg table that has data files never succeeds: the reader leaves the record
  channel open, so the loop over it waits for ever once the first file's records are in (unless it
  fails before).\<close>

theorem iceberg_backup_never_succeeds:
  assumes "ice_partitions hc (local_ops (ia_storage a)) (ia_base a) (ia_namespace a) ws table = Inr (p # ps)"
  shows "backup en now op_id (info_of (ice_source hc pq a ws) table) table sz z s \<noteq> Some (Inr r)"
proof -
  let ?src = "info_of (ice_source hc pq a ws) table"
  have parts: "si_partitions ?src n = Inr (p # ps)" for n
    using assms by (simp add: info_of_def ice_source_def)
  have "\<not> pr_closes (si_read ?src q)" for q
    by (simp add: info_of_def ice_source_def ice_read_partition_def split: prod.splits)
  then have "backup_partitions en (si_read ?src) cm (p # ps) \<noteq> Some (Inr cm')" for cm cm'
    by (rule backup_partitions_open) simp
  then show ?thesis by (auto simp: backup_def Let_def parts wrap_err_def split: sum.splits option.splits)
qed

lemma one_file:
  "ice_partitions tiny_http (local_ops data_dir) ''u'' ''ns'' ((), \<lparr>fs_files = [([''d'', ''ns'', ''t'', ''data'', ''1.parquet''], [])], fs_dirs = [], fs_device = reliable\<rparr>) ''t'' =
     Inr [file_part ''t'' 0 ''ns/t/data/1.parquet'']"
  by (simp add: ice_partitions_def get_table_def tiny_http_def wrap_err_def data_prefix_def known_table_def
      trim_prefix_def has_prefix_def local_ops_def local_list_def full_path_def clean_from_def clean_step_def
      data_dir_def rel_text_def under_file_def has_suffix_def Let_def)

theorem iceberg_backup_never_succeeds_witness:
  "\<forall>r. backup (new_engine disk (parquet_ops tiny_parquet) tiny_zstd 1) 0 ''op''
     (info_of (ice_source tiny_http tiny_parquet
        \<lparr>ia_base = ''u'', ia_namespace = ''ns'', ia_writer = None, ia_storage = data_dir\<rparr>
        ((), \<lparr>fs_files = [([''d'', ''ns'', ''t'', ''data'', ''1.parquet''], [])], fs_dirs = [], fs_device = reliable\<rparr>)) ''t'')
     ''t'' 0 (new_parquet_serializer flag_columns 0) empty_disk \<noteq> Some (Inr r)"
proof
  fix r
  have files: "ice_partitions tiny_http (local_ops (ia_storage \<lparr>ia_base = ''u'', ia_namespace = ''ns'', ia_writer = None, ia_storage = data_dir\<rparr>))
      (ia_base \<lparr>ia_base = ''u'', ia_namespace = ''ns'', ia_writer = None, ia_storage = data_dir\<rparr>)
      (ia_namespace \<lparr>ia_base = ''u'', ia_namespace = ''ns'', ia_writer = None, ia_storage = data_dir\<rparr>)
      ((), \<lparr>fs_files = [([''d'', ''ns'', ''t'', ''data'', ''1.parquet''], [])], fs_dirs = [], fs_device = reliable\<rparr>) ''t'' =
        Inr [file_part ''t'' 0 ''ns/t/data/1.parquet'']"
    using one_file by simp
  show "backup (new_engine disk (parquet_ops tiny_parquet) tiny_zstd 1) 0 ''op''
     (info_of (ice_source tiny_http tiny_parquet
        \<lparr>ia_base = ''u'', ia_namespace = ''ns'', ia_writer = None, ia_storage = data_dir\<rparr>
        ((), \<lparr>fs_files = [([''d'', ''ns'', ''t'', ''data'', ''1.parquet''], [])], fs_dirs = [], fs_device = reliable\<rparr>)) ''t'')
     ''t'' 0 (new_parquet_serializer flag_columns 0) empty_disk \<noteq> Some (Inr r)"
    by (rule iceberg_backup_never_succeeds [OF files])
qed

end
