(* ===== verification/Fault.thy ===== *)
theory Fault
  imports Adapter
begin

text \<open>
  \<open>internal/adapter/fault.go\<close>: wrappers of a source and a target that inject failures. The counters
  belong to the wrapper and span partitions and batches.
\<close>

record fault_config =
  fail_after_records :: int
  fail_after_batches :: int
  fault_error :: "goerr option"

text \<open>
  The loop over the inner channel: the records passed on, the value returned from inside the loop, if
  it returned, and the counter.
\<close>

fun fault_loop ::
  "fault_config \<Rightarrow> ctx \<Rightarrow> nat \<Rightarrow> int \<Rightarrow> go_record list \<Rightarrow> go_record list \<times> goerr option option \<times> int" where
  "fault_loop fc c i seen [] = ([], None, seen)"
| "fault_loop fc c i seen (rc # rcs) =
     (let seen' = (if 0 < fail_after_records fc then seen + 1 else seen) in
      if 0 < fail_after_records fc \<and> fail_after_records fc \<le> seen'
      then ([], Some (fault_error fc), seen')
      else if snd (c i) then ([], Some (Some (Sentinel ContextCanceled)), seen')
      else let (out, ret, seen'') = fault_loop fc c (Suc i) seen' rcs in (rc # out, ret, seen''))"

text \<open>
  The wrapper's own channel is closed by nobody. If the inner source does not close its channel either,
  the loop waits and nothing is returned; \<open>pr_error\<close> then has no meaning.
\<close>

definition fault_read :: "fault_config \<Rightarrow> ctx \<Rightarrow> int \<Rightarrow> partition_read \<Rightarrow> partition_read \<times> int" where
  "fault_read fc c seen inner =
     (let (out, ret, seen') = fault_loop fc c 0 seen (pr_records inner)
      in (\<lparr>pr_records = out, pr_error = (case ret of Some e \<Rightarrow> e | None \<Rightarrow> pr_error inner), pr_closes = False\<rparr>,
          seen'))"

text \<open>
  The wrapped source, its other operations those of the inner one; \<open>seen p\<close> is where the counter stands when
  \<open>p\<close> is read (the partitions of one reader, one after the other).
\<close>

definition fault_source :: "fault_config \<Rightarrow> (partition \<Rightarrow> int) \<Rightarrow> source_ops \<Rightarrow> source_ops" where
  "fault_source fc seen inner = inner\<lparr>sa_read := (\<lambda>c p. fst (fault_read fc c (seen p) (sa_read inner c p)))\<rparr>"

definition fault_write ::
  "fault_config \<Rightarrow> 't target_ops \<Rightarrow> int \<times> int \<times> 't \<Rightarrow> go_record list \<Rightarrow> int \<times> goerr option \<times> int \<times> int \<times> 't" where
  "fault_write fc ta st batch =
     (case st of (batches, records, t) \<Rightarrow>
        let batches' = (if 0 < fail_after_batches fc then batches + 1 else batches) in
        if 0 < fail_after_batches fc \<and> fail_after_batches fc \<le> batches'
        then (0, fault_error fc, batches', records, t)
        else if 0 < fail_after_records fc \<and>
                (fail_after_records fc \<le> records \<or> fail_after_records fc \<le> records + int (length batch))
        then (0, fault_error fc, batches', records, t)
        else let records' = (if 0 < fail_after_records fc then records + int (length batch) else records);
                 (n, e, t') = ta_write ta t batch
             in (n, e, batches', records', t'))"

definition fault_target :: "fault_config \<Rightarrow> 't target_ops \<Rightarrow> (int \<times> int \<times> 't) target_ops" where
  "fault_target fc ta =
     \<lparr>ta_apply = (\<lambda>(b, r, t) s. let (e, t') = ta_apply ta t s in (e, b, r, t')),
      ta_write = fault_write fc ta\<rparr>"

text \<open>Whatever the inner source does, the channel of the wrapped one stays open.\<close>

lemma fault_read_open: "\<not> pr_closes (fst (fault_read fc c seen inner))"
  by (simp add: fault_read_def split: prod.splits)

text \<open>Before the limit the wrapper is transparent: the records of the inner source pass in order.\<close>

lemma fault_loop_transparent:
  "fail_after_records fc \<le> 0 \<or> seen + int (length rcs) < fail_after_records fc \<Longrightarrow>
   fst (fault_loop fc background i seen rcs) = rcs"
  by (induction rcs arbitrary: i seen) (auto simp: background_def Let_def case_prod_unfold)

end
