(* ===== verification/Secrets.thy ===== *)
theory Secrets
  imports Fmt Config
begin

text \<open>
  \<open>internal/secrets\<close> and \<open>internal/config/secret.go\<close>: the environment, file and Vault providers, and the
  interpolation of placeholders with \<open>os.Expand\<close>. The environment, the file system and the Vault API
  are arguments.
\<close>

section \<open>Text\<close>

definition is_space :: "char \<Rightarrow> bool" where
  "is_space c \<longleftrightarrow> of_char c \<in> {9, 10, 11, 12, 13, 32 :: nat}"

definition trim_space :: "string \<Rightarrow> string" where
  "trim_space s = rev (dropWhile is_space (rev (dropWhile is_space s)))"

text \<open>\<open>strings.SplitN(s, sep, 2)\<close> for a one-character separator: \<^const>\<open>None\<close> if it does not occur.\<close>

fun split_first :: "char \<Rightarrow> string \<Rightarrow> (string \<times> string) option" where
  "split_first c [] = None"
| "split_first c (x # xs) =
     (if x = c then Some ([], xs) else map_option (\<lambda>(a, b). (x # a, b)) (split_first c xs))"

fun lines_of :: "string \<Rightarrow> string list" where
  "lines_of [] = [[]]"
| "lines_of (c # cs) =
     (if of_char c = (10 :: nat) then [] # lines_of cs
      else case lines_of cs of [] \<Rightarrow> [[c]] | l # ls \<Rightarrow> (c # l) # ls)"

section \<open>Providers\<close>

definition env_resolve :: "(string \<Rightarrow> string) \<Rightarrow> string \<Rightarrow> string result" where
  "env_resolve getenv key =
     (let name = trim_space key;
          name' = (if has_prefix name ''${'' \<and> has_suffix name ''}'' then take (length name - 3) (drop 2 name) else name);
          val = getenv name'
      in if val = [] then Inl (ErrMsg (''secrets: env variable '' @ quote name' @ '' is not set or empty''))
         else Inr val)"

fun parse_secrets :: "string \<Rightarrow> nat \<Rightarrow> string list \<Rightarrow> (string \<times> string) list \<Rightarrow> (string \<times> string) list result" where
  "parse_secrets path i [] m = Inr m"
| "parse_secrets path i (raw # rest) m =
     (let line = trim_space raw in
      if line = [] \<or> has_prefix line ''#'' then parse_secrets path (Suc i) rest m
      else case split_first (CHR ''='') line of
             None \<Rightarrow> Inl (ErrMsg (''secrets: file '' @ quote path @ '' line '' @ show_nat (i + 1) @ '': expected KEY=VALUE format''))
           | Some (k, v) \<Rightarrow> parse_secrets path (Suc i) rest (map_set (trim_space k) (trim_space v) m))"

definition new_file_provider :: "(string \<Rightarrow> string result) \<Rightarrow> string \<Rightarrow> (string \<times> string) list result" where
  "new_file_provider read_file path =
     (case read_file path of
        Inl e \<Rightarrow> Inl (Wrapf (''secrets: cannot read file '' @ quote path) e)
      | Inr text \<Rightarrow> parse_secrets path 0 (lines_of text) [])"

definition file_resolve :: "(string \<times> string) list \<Rightarrow> string \<Rightarrow> string result" where
  "file_resolve m key =
     (case map_of m key of
        Some v \<Rightarrow> Inr v
      | None \<Rightarrow> Inl (ErrMsg (''secrets: key '' @ quote key @ '' not found in secrets file'')))"

text \<open>\<open>va_read\<close> is a logical read: the secret's data, if there is a secret.\<close>

record 'v vault_api =
  va_new :: "string \<Rightarrow> 'v result"
  va_namespace :: "'v \<Rightarrow> string \<Rightarrow> 'v"
  va_login :: "'v \<Rightarrow> string \<Rightarrow> string \<Rightarrow> (string option) result"
  va_token :: "'v \<Rightarrow> string \<Rightarrow> 'v"
  va_read :: "'v \<Rightarrow> string \<Rightarrow> (go_map option) result"

definition opt :: "(string \<times> string) list \<Rightarrow> string \<Rightarrow> string" where
  "opt opts k = (case map_of opts k of None \<Rightarrow> [] | Some v \<Rightarrow> v)"

definition missing_option :: "string \<Rightarrow> goerr" where
  "missing_option k = ErrMsg (''vault provider: missing required option '' @ [CHR 0x27] @ k @ [CHR 0x27])"

definition new_vault_provider :: "'v vault_api \<Rightarrow> (string \<times> string) list \<Rightarrow> ('v \<times> string) result" where
  "new_vault_provider va opts =
     (if opt opts ''addr'' = [] then Inl (missing_option ''addr'')
      else if opt opts ''role_id'' = [] then Inl (missing_option ''role_id'')
      else if opt opts ''secret_id'' = [] then Inl (missing_option ''secret_id'')
      else case va_new va (opt opts ''addr'') of
        Inl e \<Rightarrow> Inl (Wrapf ''vault provider: failed to create client'' e)
      | Inr v \<Rightarrow>
          let v' = (if opt opts ''namespace'' \<noteq> [] then va_namespace va v (opt opts ''namespace'') else v) in
          case va_login va v' (opt opts ''role_id'') (opt opts ''secret_id'') of
            Inl e \<Rightarrow> Inl (Wrapf ''vault provider: AppRole login failed'' e)
          | Inr None \<Rightarrow> Inl (ErrMsg ''vault provider: AppRole login returned no auth'')
          | Inr (Some token) \<Rightarrow>
              Inr (va_token va v' token,
                   if opt opts ''mount_path'' = [] then ''secret'' else opt opts ''mount_path''))"

definition vault_resolve :: "'v vault_api \<Rightarrow> 'v \<times> string \<Rightarrow> string \<Rightarrow> string result" where
  "vault_resolve va vm key =
     (case vm of (v, mount) \<Rightarrow>
        case split_first (CHR '':'') key of
          None \<Rightarrow> Inl (ErrMsg (''vault provider: key '' @ quote key @ '' must be in '' @ [CHR 0x27] @ ''path:field'' @ [CHR 0x27] @ '' format''))
        | Some (kv_path, field) \<Rightarrow>
            let api_path = mount @ ''/data/'' @ kv_path in
            case va_read va v api_path of
              Inl e \<Rightarrow> Inl (Wrapf (''vault provider: failed to read '' @ quote api_path) e)
            | Inr None \<Rightarrow> Inl (ErrMsg (''vault provider: no data at path '' @ quote api_path))
            | Inr (Some data) \<Rightarrow>
                (case map_get data ''data'' of
                   VMap m \<Rightarrow>
                     (case map_of m field of
                        None \<Rightarrow> Inl (ErrMsg (''vault provider: field '' @ quote field @ '' not found in secret '' @ quote kv_path))
                      | Some (VString s) \<Rightarrow> Inr s
                      | Some _ \<Rightarrow> Inl (ErrMsg (''vault provider: field '' @ quote field @ '' is not a string'')))
                 | _ \<Rightarrow> Inl (ErrMsg (''vault provider: unexpected data format at '' @ quote api_path))))"

datatype 'v provider = EnvProvider | FileProvider "(string \<times> string) list" | VaultProvider "'v \<times> string"

text \<open>\<open>lower\<close> is \<open>strings.ToLower\<close>.\<close>

definition new_provider ::
  "(string \<Rightarrow> string) \<Rightarrow> (string \<Rightarrow> string result) \<Rightarrow> 'v vault_api \<Rightarrow> string \<Rightarrow> (string \<times> string) list \<Rightarrow> 'v provider result" where
  "new_provider lower read_file va ty opts =
     (if lower ty = ''file'' then
        (if opt opts ''path'' = [] then Inl (ErrMsg (''secrets: file provider requires '' @ [CHR 0x27] @ ''path'' @ [CHR 0x27] @ '' option''))
         else rbind (new_file_provider read_file (opt opts ''path'')) (\<lambda>m. Inr (FileProvider m)))
      else if lower ty = ''vault'' then rbind (new_vault_provider va opts) (\<lambda>vm. Inr (VaultProvider vm))
      else Inr EnvProvider)"

definition resolve :: "(string \<Rightarrow> string) \<Rightarrow> 'v vault_api \<Rightarrow> 'v provider \<Rightarrow> string \<Rightarrow> string result" where
  "resolve getenv va p key =
     (case p of
        EnvProvider \<Rightarrow> env_resolve getenv key
      | FileProvider m \<Rightarrow> file_resolve m key
      | VaultProvider vm \<Rightarrow> vault_resolve va vm key)"

text \<open>The older providers of \<open>internal/config/secret.go\<close>.\<close>

definition env_get_secret :: "(string \<Rightarrow> string) \<Rightarrow> string \<Rightarrow> string result" where
  "env_get_secret getenv key =
     (if getenv key = [] then Inl (ErrMsg (''environment variable '' @ key @ '' not set'')) else Inr (getenv key))"

definition file_get_secret :: "(string \<Rightarrow> string result) \<Rightarrow> string \<Rightarrow> string \<Rightarrow> string result" where
  "file_get_secret read_file base key =
     (case read_file (base @ ''/'' @ key) of
        Inl e \<Rightarrow> Inl (Wrapf (''failed to read secret file '' @ key) e)
      | Inr data \<Rightarrow> Inr data)"

section \<open>Interpolation\<close>

text \<open>\<open>os.Expand\<close>: the name after a dollar sign and the number of characters it takes.\<close>

definition shell_special :: "char \<Rightarrow> bool" where
  "shell_special c \<longleftrightarrow> c \<in> set ''*#$@!?-0123456789''"

definition alpha_num :: "char \<Rightarrow> bool" where
  "alpha_num c \<longleftrightarrow>
     list_ex (\<lambda>(lo, hi). lo \<le> c \<and> c \<le> hi)
       [(CHR ''A'', CHR ''Z''), (CHR ''_'', CHR ''_''), (CHR ''a'', CHR ''z''), (CHR ''0'', CHR ''9'')]"

definition shell_name :: "string \<Rightarrow> string \<times> nat" where
  "shell_name s =
     (case s of
        [] \<Rightarrow> ([], 0)
      | c # cs \<Rightarrow>
          if c = CHR ''{'' then
            (if 1 < length cs \<and> shell_special (cs ! 0) \<and> cs ! 1 = CHR ''}'' then ([cs ! 0], 3)
             else case split_first (CHR ''}'') cs of
                    None \<Rightarrow> ([], 1)
                  | Some (name, rest) \<Rightarrow> if name = [] then ([], 2) else (name, length name + 2))
          else if shell_special c then ([c], 1)
          else (takeWhile alpha_num s, length (takeWhile alpha_num s)))"

text \<open>The result and the last error of the provider, from the error so far.\<close>

function expand :: "(string \<Rightarrow> string result) \<Rightarrow> string \<Rightarrow> goerr option \<Rightarrow> string \<times> goerr option" where
  "expand res [] err = ([], err)"
| "expand res (c # cs) err =
     (if c = CHR ''$'' \<and> cs \<noteq> [] then
        (let (name, w) = shell_name cs in
         if name = [] \<and> 0 < w then expand res (drop w cs) err
         else if name = [] then (let (out, e) = expand res cs err in (c # out, e))
         else case res name of
                Inl e \<Rightarrow> (let (out, e') = expand res (drop w cs) (Some e) in (''${'' @ name @ ''}'' @ out, e'))
              | Inr v \<Rightarrow> (let (out, e') = expand res (drop w cs) err in (v @ out, e')))
      else let (out, e) = expand res cs err in (c # out, e))"
  by pat_completeness auto
termination by (relation "measure (\<lambda>(res, s, err). length s)") (auto simp: less_Suc_eq_le)

declare expand.simps [simp del]

definition interpolate :: "(string \<Rightarrow> string result) \<Rightarrow> string \<Rightarrow> string \<times> goerr option" where
  "interpolate res s = expand res s None"

lemma split_first_append: "c \<notin> set k \<Longrightarrow> split_first c (k @ c # s) = Some (k, s)"
  by (induction k) auto

lemma shell_name_braces:
  assumes "k \<noteq> []" and "CHR ''}'' \<notin> set k"
  shows "shell_name (CHR ''{'' # k @ CHR ''}'' # s) = (k, length k + 2)"
proof (cases "shell_special (hd k) \<and> tl k = []")
  case True
  then obtain c where "k = [c]" using assms(1) by (cases k) auto
  with True show ?thesis by (simp add: shell_name_def)
next
  case False
  then have "\<not> (1 < length (k @ CHR ''}'' # s) \<and> shell_special ((k @ CHR ''}'' # s) ! 0) \<and> (k @ CHR ''}'' # s) ! 1 = CHR ''}'')"
    using assms by (cases k; cases "tl k") auto
  with assms show ?thesis by (auto simp: shell_name_def split_first_append)
qed

lemma expand_plain: "CHR ''$'' \<notin> set a \<Longrightarrow> expand res (a @ s) err = (a @ fst (expand res s err), snd (expand res s err))"
  by (induction a) (auto simp: expand.simps(2) split: prod.splits)

lemma expand_err:
  "expand res s err =
     (fst (expand res s None), case snd (expand res s None) of None \<Rightarrow> err | Some e \<Rightarrow> Some e)"
proof (induction "length s" arbitrary: s err rule: less_induct)
  case less
  show ?case
  proof (cases s)
    case (Cons c cs)
    have IH: "expand res t err' = (fst (expand res t None), case snd (expand res t None) of None \<Rightarrow> err' | Some e \<Rightarrow> Some e)"
      if "length t \<le> length cs" for t err'
      using less [of t err'] that Cons by simp
    have "length (drop n cs) \<le> length cs" for n by simp
    note ih = IH [OF this] IH [of cs]
    obtain name w where n: "shell_name cs = (name, w)" by fastforce
    show ?thesis
      unfolding Cons expand.simps(2) [of res c cs err] expand.simps(2) [of res c cs None] n
      using ih(1) [of w err] ih(1) [of w "Some (projl (res name))"] ih(2) [of err]
      by (auto simp: case_prod_unfold Let_def split: sum.splits option.splits)
  qed (simp add: expand.simps)
qed

text \<open>Interpolation replaces a placeholder \<open>${KEY}\<close> by the value the provider gives for \<open>KEY\<close>; if
  the provider fails, it keeps the placeholder as it is and reports that error, or the one of a later
  placeholder that fails too; text without a dollar sign is kept.\<close>

theorem interpolate_placeholder:
  assumes "CHR ''$'' \<notin> set a" and "k \<noteq> []" and "CHR ''}'' \<notin> set k"
  shows "interpolate res (a @ ''${'' @ k @ ''}'' @ s) =
    (let (out, e) = interpolate res s in
     case res k of
       Inr v \<Rightarrow> (a @ v @ out, e)
     | Inl e' \<Rightarrow> (a @ ''${'' @ k @ ''}'' @ out, Some (case e of None \<Rightarrow> e' | Some later \<Rightarrow> later)))"
proof -
  have "expand res (''${'' @ k @ ''}'' @ s) None =
    (case res k of
       Inr v \<Rightarrow> (v @ fst (expand res s None), snd (expand res s None))
     | Inl e \<Rightarrow> (''${'' @ k @ ''}'' @ fst (expand res s (Some e)), snd (expand res s (Some e))))"
    using shell_name_braces [OF assms(2,3), of s] assms(2)
    by (simp add: expand.simps(2) split: sum.splits prod.splits)
  then show ?thesis
    using expand_plain [OF assms(1), of res] expand_err [of res s "Some (projl (res k))"]
    by (auto simp: interpolate_def case_prod_unfold Let_def split: sum.splits option.splits)
qed

theorem interpolate_placeholder_witness:
  "interpolate (file_resolve [(''PG'', ''pw'')]) (''x='' @ ''${'' @ ''PG'' @ ''}'' @ ''!'') = (''x=pw!'', None)"
  using interpolate_placeholder [of "''x=''" "''PG''" "file_resolve [(''PG'', ''pw'')]" "''!''"]
  by (simp add: file_resolve_def interpolate_def expand.simps)

text \<open>Contrary to its documentation, interpolation does not leave everything else alone: a name
  without braces that cannot be resolved gains braces, and a doubled dollar sign is rewritten too.\<close>

theorem interpolate_rewrites_more:
  "interpolate (file_resolve []) ''p$w'' = (''p${w}'', Some (ErrMsg (''secrets: key '' @ quote ''w'' @ '' not found in secrets file''))) \<and>
   fst (interpolate (file_resolve []) ''p$$w'') = ''p${$}w''"
  by (simp add: interpolate_def expand.simps shell_name_def shell_special_def alpha_num_def file_resolve_def
      less_eq_char_def)

end
