(* ===== verification/Cli.thy ===== *)
theory Cli
  imports Restore Postgres Cassandra Mongo Iceberg Checkpoint Dlq Mapper Config
begin

text \<open>
  \<open>internal/cli/root.go\<close>, \<open>internal/adapter/factory/factory.go\<close> and \<open>internal/telemetry/audit.go\<close>: the
  choice of adapters, storage and serializer from the configuration, the audit log, and the commands.
  A command returns its error, if any, with the states it changed; what it prints to the console is
  part of the result where it is the command's purpose.
\<close>

section \<open>Adapters from the configuration\<close>

datatype engine_kind = EPostgres | EMongo | ECassandra | EIceberg

definition adapter_kind :: "string \<Rightarrow> string \<Rightarrow> engine_kind result" where
  "adapter_kind side ty =
     (if ty = ''postgres'' then Inr EPostgres
      else if ty = ''mongo'' \<or> ty = ''mongodb'' then Inr EMongo
      else if ty = ''cassandra'' then Inr ECassandra
      else if ty = ''iceberg'' then Inr EIceberg
      else Inl (ErrMsg (''unsupported '' @ side @ '' database type: '' @ ty)))"

definition engine_type :: "engine_kind \<Rightarrow> string" where
  "engine_type k =
     (case k of EPostgres \<Rightarrow> ''postgres'' | EMongo \<Rightarrow> ''mongo'' | ECassandra \<Rightarrow> ''cassandra'' | EIceberg \<Rightarrow> ''iceberg'')"

text \<open>The drivers, the network and the local disk behind the adapters.\<close>

record ('pg, 'mg, 'cq, 'w, 'q) drivers =
  dr_postgres :: "'pg pg_client"
  dr_mongo :: "'mg mongo_client"
  dr_cassandra :: "'cq cql_client"
  dr_http :: "'w http_client"
  dr_parquet :: "'q pq_ops"
  dr_web :: 'w
  dr_cwd :: "string list"
  dr_files :: "(8 word list) fs"

definition connect_source :: "('pg, 'mg, 'cq, 'w, 'q) drivers \<Rightarrow> engine_kind \<Rightarrow> db_config \<Rightarrow> source_ops result" where
  "connect_source dr k cfg =
     (case k of
        EPostgres \<Rightarrow> rbind (pg_connect (dr_postgres dr) cfg)
          (\<lambda>d. Inr (pg_source (dr_postgres dr) new_postgres_adapter d))
      | EMongo \<Rightarrow> rbind (mongo_connect (dr_mongo dr) cfg) (\<lambda>d. Inr (mongo_source (dr_mongo dr) cfg d))
      | ECassandra \<Rightarrow> rbind (cass_connect (dr_cassandra dr) new_cassandra_adapter cfg)
          (\<lambda>(a, d). Inr (cass_source (dr_cassandra dr) a d))
      | EIceberg \<Rightarrow> rbind (ice_connect (dr_cwd dr) cfg (dr_files dr))
          (\<lambda>(a, f). Inr (ice_source (dr_http dr) (dr_parquet dr) a (dr_web dr, f))))"

definition init_source :: "('pg, 'mg, 'cq, 'w, 'q) drivers \<Rightarrow> config \<Rightarrow> source_ops result" where
  "init_source dr cfg =
     rbind (adapter_kind ''source'' (db_type (cf_source cfg)))
       (\<lambda>k. wrap_err ''source connect failed'' (connect_source dr k (cf_source cfg)))"

datatype ('pg, 'mg, 'cq, 'w) target_state =
    TPostgres "pg_adapter \<times> 'pg"
  | TMongo 'mg
  | TCassandra "cass_adapter \<times> 'cq"
  | TIceberg "ice_adapter \<times> 'w \<times> (8 word list) fs"

definition connect_target ::
  "('pg, 'mg, 'cq, 'w, 'q) drivers \<Rightarrow> engine_kind \<Rightarrow> db_config \<Rightarrow> ('pg, 'mg, 'cq, 'w) target_state result" where
  "connect_target dr k cfg =
     (case k of
        EPostgres \<Rightarrow> rbind (pg_connect (dr_postgres dr) cfg) (\<lambda>d. Inr (TPostgres (new_postgres_adapter, d)))
      | EMongo \<Rightarrow> rbind (mongo_connect (dr_mongo dr) cfg) (\<lambda>d. Inr (TMongo d))
      | ECassandra \<Rightarrow> rbind (cass_connect (dr_cassandra dr) new_cassandra_adapter cfg) (\<lambda>ad. Inr (TCassandra ad))
      | EIceberg \<Rightarrow> rbind (ice_connect (dr_cwd dr) cfg (dr_files dr)) (\<lambda>(a, f). Inr (TIceberg (a, dr_web dr, f))))"

definition init_target ::
  "('pg, 'mg, 'cq, 'w, 'q) drivers \<Rightarrow> config \<Rightarrow> ('pg, 'mg, 'cq, 'w) target_state result" where
  "init_target dr cfg =
     rbind (adapter_kind ''target'' (db_type (cf_target cfg)))
       (\<lambda>k. wrap_err ''target connect failed'' (connect_target dr k (cf_target cfg)))"

text \<open>The operations of whichever target there is; \<open>now\<close> names the files of the Iceberg writer.\<close>

definition any_target ::
  "('pg, 'mg, 'cq, 'w, 'q) drivers \<Rightarrow> config \<Rightarrow> int \<Rightarrow> ('pg, 'mg, 'cq, 'w) target_state target_ops" where
  "any_target dr cfg now =
     \<lparr>ta_apply = (\<lambda>t s. case t of
          TPostgres x \<Rightarrow> apsnd TPostgres (pg_apply (dr_postgres dr) x s)
        | TMongo x \<Rightarrow> apsnd TMongo (ta_apply (mongo_target (dr_mongo dr) (cf_target cfg)) x s)
        | TCassandra x \<Rightarrow> apsnd TCassandra (cass_apply (dr_cassandra dr) x s)
        | TIceberg x \<Rightarrow> apsnd TIceberg (ice_apply (dr_http dr) x s)),
      ta_write = (\<lambda>t b. case t of
          TPostgres x \<Rightarrow> apsnd (apsnd TPostgres) (pg_write_batch (dr_postgres dr) x b)
        | TMongo x \<Rightarrow> apsnd (apsnd TMongo) (ta_write (mongo_target (dr_mongo dr) (cf_target cfg)) x b)
        | TCassandra x \<Rightarrow> apsnd (apsnd TCassandra) (cass_write_batch (dr_cassandra dr) x b)
        | TIceberg x \<Rightarrow> apsnd (apsnd TIceberg) (ice_write_batch (dr_http dr) (dr_parquet dr) now x b))\<rparr>"

section \<open>Storage and serializer\<close>

datatype storage_choice = LocalStorage string | S3Storage string string string

definition init_storage :: "storage_config \<Rightarrow> storage_choice result" where
  "init_storage sc =
     (if so_type sc = ''local'' then Inr (LocalStorage (if so_prefix sc = [] then ''backups/'' else so_prefix sc))
      else if so_type sc = ''s3'' then Inr (S3Storage (so_bucket sc) (so_prefix sc) (so_region sc))
      else Inl (ErrMsg (''unsupported storage type: '' @ so_type sc)))"

datatype 'q any_serializer = SParquet "'q parquet_serializer" | SNdjson bool

definition init_serializer :: "string \<Rightarrow> column list \<Rightarrow> int \<Rightarrow> 'q any_serializer result" where
  "init_serializer format cols bs =
     (if format = ''parquet'' then Inr (SParquet (new_parquet_serializer cols bs))
      else if format = ''ndjson'' \<or> format = [] then Inr (SNdjson False)
      else Inl (ErrMsg (''unsupported backup format: '' @ format)))"

definition lift_ser :: "('a \<Rightarrow> 'b) \<Rightarrow> (sym list \<times> 'a) result \<Rightarrow> (sym list \<times> 'b) result" where
  "lift_ser f r = rbind r (\<lambda>(out, z). Inr (out, f z))"

definition any_ops :: "'q pq_ops \<Rightarrow> 'q any_serializer serializer_ops" where
  "any_ops pq =
     \<lparr>so_open = (\<lambda>z. case z of SParquet p \<Rightarrow> lift_ser SParquet (ps_open pq p) | SNdjson b \<Rightarrow> lift_ser SNdjson (nd_open b)),
      so_serialize = (\<lambda>z r. case z of
          SParquet p \<Rightarrow> lift_ser SParquet (ps_serialize pq p r) | SNdjson b \<Rightarrow> lift_ser SNdjson (nd_serialize b r)),
      so_close = (\<lambda>z. case z of SParquet p \<Rightarrow> lift_ser SParquet (ps_close pq p) | SNdjson b \<Rightarrow> lift_ser SNdjson (nd_close b))\<rparr>"

section \<open>The audit log\<close>

text \<open>\<open>ae_ts\<close> and \<open>ae_end\<close> are \<^const>\<open>None\<close> for the zero time.\<close>

record audit_entry =
  ae_ts :: "int option"
  ae_user :: string
  ae_hostname :: string
  ae_operation :: string
  ae_source :: string
  ae_target :: string
  ae_tables :: "string list"
  ae_start :: int
  ae_end :: "int option"
  ae_outcome :: string
  ae_rows :: int
  ae_config_hash :: string
  ae_error :: string

text \<open>Opening keeps what the file holds; writing appends a line, unless the system refuses.\<close>

definition new_audit_log :: "goerr option \<Rightarrow> string \<Rightarrow> audit_entry list \<Rightarrow> audit_entry list result" where
  "new_audit_log open_err path existing =
     (case open_err of
        Some e \<Rightarrow> Inl (Wrapf (''failed to open audit log '' @ quote path) e)
      | None \<Rightarrow> Inr existing)"

definition audit_write :: "int \<Rightarrow> goerr option \<Rightarrow> audit_entry \<Rightarrow> audit_entry list \<Rightarrow> goerr option \<times> audit_entry list" where
  "audit_write now write_err entry lg =
     (let entry' = (if ae_ts entry = None then entry\<lparr>ae_ts := Some now\<rparr> else entry) in
      case write_err of
        Some e \<Rightarrow> (Some (Wrapf ''failed to write audit entry'' e), lg)
      | None \<Rightarrow> (None, lg @ [entry']))"

definition current_user :: "(string \<Rightarrow> string) \<Rightarrow> string" where
  "current_user getenv =
     (if getenv ''USER'' \<noteq> [] then getenv ''USER''
      else if getenv ''USERNAME'' \<noteq> [] then getenv ''USERNAME'' else ''unknown'')"

definition current_hostname :: "string result \<Rightarrow> string" where
  "current_hostname h = (case h of Inl e \<Rightarrow> ''unknown'' | Inr n \<Rightarrow> n)"

text \<open>The process: its environment, identity, clock readings (when a command starts, makes the manifest, ends), and which audit writes fail.\<close>

record host =
  ho_getenv :: "string \<Rightarrow> string"
  ho_hostname :: "string result"
  ho_pid :: int
  ho_start :: int
  ho_end :: int
  ho_manifest :: int
  ho_audit_err :: "bool \<Rightarrow> goerr option"
  ho_json :: "json \<Rightarrow> string"

text \<open>A command writes at most two entries, the first at its start and the \<open>second\<close> at its end.\<close>

definition write_audit_entry :: "host \<Rightarrow> bool \<Rightarrow> audit_entry \<Rightarrow> audit_entry list option \<Rightarrow> audit_entry list option" where
  "write_audit_entry ho second entry lg =
     (case lg of
        None \<Rightarrow> None
      | Some es \<Rightarrow> Some (snd (audit_write (if second then ho_end ho else ho_start ho) (ho_audit_err ho second) entry es)))"

definition redact :: "config \<Rightarrow> config" where
  "redact cfg =
     cfg\<lparr>cf_source := (cf_source cfg)\<lparr>db_password := ''[REDACTED]''\<rparr>,
         cf_target := (cf_target cfg)\<lparr>db_password := ''[REDACTED]''\<rparr>\<rparr>"

definition config_hash_of :: "host \<Rightarrow> config \<Rightarrow> string" where
  "config_hash_of ho cfg = sha256_hex (bytes_of (ho_json ho (config_json (redact cfg))))"

definition endpoint :: "db_config \<Rightarrow> string" where
  "endpoint c = db_type c @ ''/'' @ db_host c"

definition start_entry :: "host \<Rightarrow> config \<Rightarrow> string \<Rightarrow> string \<Rightarrow> string \<Rightarrow> string list \<Rightarrow> audit_entry" where
  "start_entry ho cfg op src tgt tables =
     \<lparr>ae_ts = None, ae_user = current_user (ho_getenv ho), ae_hostname = current_hostname (ho_hostname ho),
      ae_operation = op, ae_source = src, ae_target = tgt, ae_tables = tables, ae_start = ho_start ho,
      ae_end = None, ae_outcome = [], ae_rows = 0, ae_config_hash = config_hash_of ho cfg, ae_error = []\<rparr>"

definition end_entry ::
  "host \<Rightarrow> string \<Rightarrow> string \<Rightarrow> string \<Rightarrow> string list \<Rightarrow> int \<Rightarrow> goerr option \<Rightarrow> audit_entry" where
  "end_entry ho op src tgt tables rows err =
     \<lparr>ae_ts = None, ae_user = current_user (ho_getenv ho), ae_hostname = current_hostname (ho_hostname ho),
      ae_operation = op, ae_source = src, ae_target = tgt, ae_tables = tables, ae_start = ho_start ho,
      ae_end = Some (ho_end ho), ae_outcome = (case err of None \<Rightarrow> ''success'' | Some _ \<Rightarrow> ''failure''),
      ae_rows = rows, ae_config_hash = [], ae_error = (case err of None \<Rightarrow> [] | Some e \<Rightarrow> err_text e)\<rparr>"

section \<open>migrate\<close>

definition checkpoint_path :: "config \<Rightarrow> string" where
  "checkpoint_path cfg = (if cc_path (cf_checkpoint cfg) = [] then ''checkpoint.bolt'' else cc_path (cf_checkpoint cfg))"

definition failed_path :: "config \<Rightarrow> string" where
  "failed_path cfg = checkpoint_path cfg @ ''_failed.ndjson''"

text \<open>
  \<open>store_err\<close> and \<open>dlq_err\<close> are the outcomes of opening the two files; \<open>orch\<close> is what
  \<open>Orchestrator.Migrate\<close> returns for an operation, a mapper, a source, a target and a table; \<open>ty\<close> is the target's \<open>Type()\<close>.
\<close>

definition run_migrate ::
  "host \<Rightarrow> config \<Rightarrow> goerr option \<Rightarrow> goerr option \<Rightarrow> source_ops result \<Rightarrow> string \<Rightarrow> 't result \<Rightarrow> 't target_ops
   \<Rightarrow> (string \<Rightarrow> schema_mapper \<Rightarrow> source_ops \<Rightarrow> 't \<Rightarrow> string \<Rightarrow> goerr option \<times> 't)
   \<Rightarrow> audit_entry list option \<Rightarrow> goerr option \<times> audit_entry list option \<times> 't option" where
  "run_migrate ho cfg store_err dlq_err src_r ty dst_r ta orch lg =
     (case store_err of Some e \<Rightarrow> (Some e, lg, None) | None \<Rightarrow>
      case dlq_err of Some e \<Rightarrow> (Some e, lg, None) | None \<Rightarrow>
      case src_r of Inl e \<Rightarrow> (Some e, lg, None) | Inr src \<Rightarrow>
      case dst_r of Inl e \<Rightarrow> (Some e, lg, None) | Inr t \<Rightarrow>
      case db_tables (cf_source cfg) of
        [] \<Rightarrow> (Some (ErrMsg ''no tables specified in source config''), lg, Some t)
      | table # _ \<Rightarrow>
          let frm = endpoint (cf_source cfg); to = endpoint (cf_target cfg); tables = db_tables (cf_source cfg);
              log1 = write_audit_entry ho False (start_entry ho cfg ''migrate'' frm to tables) lg
          in case sa_schema src table of
               Inl e \<Rightarrow> (Some (Wrapf ''failed to get source schema'' e), log1, Some t)
             | Inr s \<Rightarrow>
                 (case ta_apply ta t s of
                    (Some e, t1) \<Rightarrow> (Some (Wrapf ''failed to apply schema to target'' e), log1, Some t1)
                  | (None, t1) \<Rightarrow>
                      let mapper = new_schema_mapper (sa_type src) ty (mc_masking (cf_migration cfg));
                          (err, t2) = orch (''mig-'' @ show_int (ho_pid ho)) mapper src t1 table;
                          log2 = write_audit_entry ho True (end_entry ho ''migrate'' frm to tables 0 err) log1
                      in (map_option (Wrapf ''migration failed'') err, log2, Some t2)))"

section \<open>backup\<close>

definition chunk_bytes :: "config \<Rightarrow> int" where
  "chunk_bytes cfg = sint (bc_chunk_mb (cf_backup cfg) * 1024 * 1024)"

definition run_backup ::
  "host \<Rightarrow> config \<Rightarrow> source_ops result \<Rightarrow> (('s, blob) storage_ops \<times> 's) result \<Rightarrow> 'c zstd_ops \<Rightarrow> 'q pq_ops
   \<Rightarrow> audit_entry list option \<Rightarrow> (goerr option \<times> audit_entry list option \<times> 's option) option" where
  "run_backup ho cfg src_r st_r zs pq lg =
     (case src_r of Inl e \<Rightarrow> Some (Some e, lg, None) | Inr src \<Rightarrow>
      case st_r of Inl e \<Rightarrow> Some (Some e, lg, None) | Inr (ops, s) \<Rightarrow>
      case db_tables (cf_source cfg) of
        [] \<Rightarrow> Some (Some (ErrMsg ''no tables specified in source config''), lg, Some s)
      | table # _ \<Rightarrow>
          let frm = endpoint (cf_source cfg); tables = db_tables (cf_source cfg);
              log1 = write_audit_entry ho False (start_entry ho cfg ''backup'' frm [] tables) lg
          in case sa_schema src table of
               Inl e \<Rightarrow> Some (Some (Wrapf ''failed to get source schema'' e), log1, Some s)
             | Inr sch \<Rightarrow>
                 let bs = (if batch_size (cf_concurrency cfg) \<le> 0 then 1000 else batch_size (cf_concurrency cfg)) in
                 (case init_serializer (bc_format (cf_backup cfg)) (columns sch) bs of
                    Inl e \<Rightarrow> Some (Some e, log1, Some s)
                  | Inr z \<Rightarrow>
                      (case backup (new_engine ops (any_ops pq) zs (num_readers (cf_concurrency cfg))) (ho_manifest ho)
                              (''bak-'' @ show_int (ho_pid ho)) (info_of src table) table (chunk_bytes cfg) z s of
                         None \<Rightarrow> None
                       | Some (Inl e) \<Rightarrow>
                           Some (Some (Wrapf ''backup failed'' e),
                             write_audit_entry ho True (end_entry ho ''backup'' frm [] tables 0 (Some e)) log1, None)
                       | Some (Inr (m, s')) \<Rightarrow>
                           Some (None,
                             write_audit_entry ho True (end_entry ho ''backup'' frm [] tables (mf_row_count m) None) log1,
                             Some s'))))"

section \<open>restore\<close>

definition run_restore ::
  "host \<Rightarrow> config \<Rightarrow> 't result \<Rightarrow> 't target_ops \<Rightarrow> (('s, blob) storage_ops \<times> 's) result \<Rightarrow> 'c zstd_ops \<Rightarrow> 'q pq_ops
   \<Rightarrow> string \<Rightarrow> audit_entry list option \<Rightarrow> goerr option \<times> audit_entry list option \<times> 't option" where
  "run_restore ho cfg dst_r ta st_r zs pq manifest_file lg =
     (case dst_r of Inl e \<Rightarrow> (Some e, lg, None) | Inr t \<Rightarrow>
      case st_r of Inl e \<Rightarrow> (Some e, lg, Some t) | Inr (ops, s) \<Rightarrow>
        let to = endpoint (cf_target cfg);
            log1 = write_audit_entry ho False (start_entry ho cfg ''restore'' [] to []) lg;
            (err, t') = restore (new_restore_engine ops ta zs pq) s manifest_file t;
            log2 = write_audit_entry ho True (end_entry ho ''restore'' [] to [] 0 err) log1
        in (map_option (Wrapf ''restore failed'') err, log2, Some t'))"

section \<open>verify\<close>

datatype chunk_report = ChunkOk | ChunkMissing | ChunkError goerr

definition check_chunk :: "('s, blob) storage_ops \<Rightarrow> 's \<Rightarrow> chunk \<Rightarrow> chunk_report" where
  "check_chunk ops s ck =
     (case st_exists ops s (ck_file ck) of
        Inl e \<Rightarrow> ChunkError e
      | Inr False \<Rightarrow> ChunkMissing
      | Inr True \<Rightarrow> ChunkOk)"

definition run_verify ::
  "(('s, blob) storage_ops \<times> 's) result \<Rightarrow> string \<Rightarrow> goerr option \<times> chunk_report list" where
  "run_verify st_r manifest_file =
     (case st_r of Inl e \<Rightarrow> (Some e, []) | Inr (ops, s) \<Rightarrow>
        case st_get ops s manifest_file of
          Inl e \<Rightarrow> (Some e, [])
        | Inr (BData bs) \<Rightarrow> (Some (ErrMsg ''invalid character''), [])
        | Inr (BManifest m) \<Rightarrow> (None, map (check_chunk ops s) (mf_chunks m)))"

section \<open>replay\<close>

definition replay_record :: "dlq_record \<Rightarrow> go_record result" where
  "replay_record d =
     rbind (object_of_json False (dlq_payload d)) (\<lambda>m.
       Inr \<lparr>rec_id = dlq_record_id d, rec_data = m, rec_meta = zero_metadata\<lparr>source_table := dlq_table d\<rparr>\<rparr>)"

text \<open>
  The file is the list of what \<open>Decode\<close> yields, a record or its error. An error of \<open>WriteBatch\<close> is
  logged and the batch dropped.
\<close>

fun replay_loop ::
  "'t target_ops \<Rightarrow> int \<Rightarrow> dlq_record result list \<Rightarrow> go_record list \<Rightarrow> 't \<Rightarrow> goerr option \<times> 't" where
  "replay_loop ta bs [] batch t = (None, if batch = [] then t else snd (snd (ta_write ta t batch)))"
| "replay_loop ta bs (d # ds) batch t =
     (case rbind d replay_record of
        Inl e \<Rightarrow> (Some e, t)
      | Inr rc \<Rightarrow>
          let b = batch @ [rc] in
          if bs \<le> int (length b) then replay_loop ta bs ds [] (snd (snd (ta_write ta t b)))
          else replay_loop ta bs ds b t)"

definition run_replay ::
  "config \<Rightarrow> string \<Rightarrow> (dlq_record result list) result \<Rightarrow> 't result \<Rightarrow> 't target_ops \<Rightarrow> goerr option \<times> 't option" where
  "run_replay cfg failed_file file_r dst_r ta =
     (if failed_file = [] then (Some (ErrMsg ''--failed-file is required''), None)
      else case file_r of Inl e \<Rightarrow> (Some e, None) | Inr ds \<Rightarrow>
      case dst_r of Inl e \<Rightarrow> (Some e, None) | Inr t \<Rightarrow>
        let bs = (if batch_size (cf_concurrency cfg) \<le> 0 then 100 else batch_size (cf_concurrency cfg))
        in apsnd Some (replay_loop ta bs ds [] t))"

section \<open>status\<close>

datatype status_output = NoCheckpointData | StatusTable "partition_checkpoint list"

definition run_status ::
  "('m, 'p) bolt_db \<Rightarrow> string \<Rightarrow> config \<Rightarrow> (string \<Rightarrow> ('m, 'p) store result) \<Rightarrow> status_output result" where
  "run_status db flag cfg open_store =
     (let path = (if flag \<noteq> [] then flag else checkpoint_path cfg) in
      rbind (wrap_err (''cannot open checkpoint at '' @ quote path) (open_store path)) (\<lambda>st.
      rbind (wrap_err ''failed to list partitions'' (list_partitions db st [])) (\<lambda>ps.
      Inr (if ps = [] then NoCheckpointData else StatusTable ps))))"

end
