(* ===== verification/Cli_Props.thy ===== *)
theory Cli_Props
  imports Cli Checkpoint_Props Storage_Props Restore_Props
begin

text \<open>
  What the commands guarantee: the audit trail of \<open>backup\<close>, the batches of \<open>replay\<close>; and what
  \<open>verify\<close> and \<open>status\<close> do not do.
\<close>

section \<open>verify\<close>

lemma check_present:
  "flat ls f \<Longrightarrow> plain (ck_file ck) \<Longrightarrow>
     check_chunk (local_ops ls) f ck = (if stored ls f (ck_file ck) = None then ChunkMissing else ChunkOk)"
  by (simp add: check_chunk_def local_ops_def exists_plain)

text \<open>C39: \<open>verify\<close> looks at no chunk's contents and fails for no missing one: after one chunk of a
  complete backup is overwritten with anything, it still reports every chunk as present; after one
  is deleted, it reports that chunk as missing and returns no error all the same.\<close>

theorem verify_misses_tampering:
  assumes "flat ls f" and "plain fname" and "stored ls f fname = Some (BManifest m)"
    and "\<forall>ck \<in> set (mf_chunks m). plain (ck_file ck) \<and> ck_file ck \<noteq> fname \<and> stored ls f (ck_file ck) \<noteq> None"
    and "ck \<in> set (mf_chunks m)"
    and "local_put ls f (ck_file ck) x = Inr f1" and "local_delete ls f (ck_file ck) = Inr f2"
  shows "run_verify (Inr (local_ops ls, f1)) fname = (None, map (\<lambda>_. ChunkOk) (mf_chunks m)) \<and>
    run_verify (Inr (local_ops ls, f2)) fname =
      (None, map (\<lambda>c. if ck_file c = ck_file ck then ChunkMissing else ChunkOk) (mf_chunks m))"
proof -
  have p: "plain (ck_file ck)" "ck_file ck \<noteq> fname" using assms(4,5) by blast+
  from put_success [OF assms(1) p(1) assms(6)]
  have f1: "flat ls f1" "\<forall>q. stored ls f1 q = ((stored ls f)(ck_file ck \<mapsto> x)) q" by auto
  from delete_plain [OF assms(1) p(1)] assms(7)
  have f2: "flat ls f2" "\<forall>q. stored ls f2 q = ((stored ls f)(ck_file ck := None)) q" by auto
  have get: "st_get (local_ops ls) g fname = Inr (BManifest m)"
    if "flat ls g" "stored ls g fname = stored ls f fname" for g
    using get_plain [OF that(1) assms(2)] that(2) assms(3) by (simp add: local_ops_def)
  have "map (check_chunk (local_ops ls) f1) (mf_chunks m) = map (\<lambda>_. ChunkOk) (mf_chunks m)"
    using f1 assms(4) by (auto simp: check_present)
  moreover have "map (check_chunk (local_ops ls) f2) (mf_chunks m) =
      map (\<lambda>c. if ck_file c = ck_file ck then ChunkMissing else ChunkOk) (mf_chunks m)"
    using f2 assms(4) by (auto simp: check_present)
  ultimately show ?thesis using get [OF f1(1)] get [OF f2(1)] f1(2) f2(2) p(2)
    by (simp add: run_verify_def)
qed

lemma tampered_flat: "flat \<lparr>base_dir = [''b'']\<rparr> tampered_disk"
  by (auto simp: flat_def tampered_disk_def)

theorem verify_misses_tampering_witness:
  "\<exists>f1. local_put \<lparr>base_dir = [''b'']\<rparr> tampered_disk ''chunk-0000.parquet.zst'' (BData [255]) = Inr f1 \<and>
     run_verify (Inr (local_ops \<lparr>base_dir = [''b'']\<rparr>, f1)) ''manifest.json'' = (None, [ChunkOk])"
proof -
  let ?ls = "\<lparr>base_dir = [''b'']\<rparr>"
  let ?ck = "\<lparr>ck_index = 0, ck_file = ''chunk-0000.parquet.zst'', ck_row_count = 1, ck_sha256 = ''00''\<rparr>"
  have plain: "plain ''chunk-0000.parquet.zst''" by (simp add: plain_def has_prefix_def)
  obtain f1 where f1: "local_put ?ls tampered_disk (ck_file ?ck) (BData [255]) = Inr f1"
    using put_reliable [OF tampered_flat plain] by (auto simp: tampered_disk_def)
  obtain f2 where f2: "local_delete ?ls tampered_disk (ck_file ?ck) = Inr f2"
    using delete_plain [OF tampered_flat plain] by auto
  have "stored ?ls tampered_disk ''manifest.json'' = Some (BManifest tampered)"
    "\<forall>ck \<in> set (mf_chunks tampered). plain (ck_file ck) \<and> ck_file ck \<noteq> ''manifest.json'' \<and>
       stored ?ls tampered_disk (ck_file ck) \<noteq> None"
    "?ck \<in> set (mf_chunks tampered)"
    using plain by (simp_all add: stored_def tampered_disk_def tampered_def)
  from verify_misses_tampering [OF tampered_flat manifest_plain this f1 f2] f1 show ?thesis
    by (simp add: tampered_def)
qed

section \<open>status\<close>

text \<open>
  The stores \<open>migrate\<close> makes: it starts from what a fresh file holds, and saves under the operation
  ID of a process.
\<close>

inductive mig_store :: "('m, 'p) bolt_db \<Rightarrow> ('m, 'p) store \<Rightarrow> bool" for db where
  fresh: "(\<And>k. bo_get (part_ops db) (partition_bucket st) k = None) \<Longrightarrow> mig_store db st"
| meta: "mig_store db st \<Longrightarrow> save_meta db st meta = Inr st' \<Longrightarrow> mig_store db st'"
| part: "mig_store db st \<Longrightarrow> save_partition db st (''mig-'' @ show_int pid) cp = Inr st' \<Longrightarrow> mig_store db st'"
| status: "mig_store db st \<Longrightarrow> save_status db now st (''mig-'' @ show_int pid) p s = Inr st' \<Longrightarrow> mig_store db st'"

lemma save_partition_keys:
  assumes "bolt_db_laws db" and "save_partition db st op_id cp = Inr st'"
    and "bo_get (part_ops db) (partition_bucket st') k \<noteq> None"
  shows "bo_get (part_ops db) (partition_bucket st) k \<noteq> None \<or> (\<exists>pid. k = partition_key op_id pid)"
  using assms put_get [of "part_ops db"]
  by (auto simp: save_partition_def bolt_db_laws_def rbind_Inr_iff split: if_splits)

lemma save_status_keys:
  assumes "bolt_db_laws db" and "save_status db now st op_id p s = Inr st'"
    and "bo_get (part_ops db) (partition_bucket st') k \<noteq> None"
  shows "bo_get (part_ops db) (partition_bucket st) k \<noteq> None \<or> (\<exists>pid. k = partition_key op_id pid)"
  using assms put_get [of "part_ops db"]
  by (auto simp: save_status_def bolt_db_laws_def rbind_Inr_iff Let_def split: if_splits option.splits)

lemma mig_store_keys:
  assumes "bolt_db_laws db"
  shows "mig_store db st \<Longrightarrow> bo_get (part_ops db) (partition_bucket st) k \<noteq> None \<Longrightarrow> hd k = CHR ''m''"
proof (induction rule: mig_store.induct)
  case (meta st meta st')
  then show ?case by (auto simp: save_meta_def rbind_Inr_iff)
next
  case (part st pid cp st')
  from save_partition_keys [OF assms part.hyps(2) part.prems] part.IH
  show ?case by (auto simp: partition_key_def)
next
  case (status st now pid p s st')
  from save_status_keys [OF assms status.hyps(2) status.prems] status.IH
  show ?case by (auto simp: partition_key_def)
qed simp

text \<open>\<open>status\<close> never shows anything: it lists the partitions of the operation with the empty
  ID, whose keys start with a colon, and no migration writes such a key. So whatever checkpoints a
  store holds, the command prints \<open>No checkpoint data found\<close>.\<close>

theorem status_shows_nothing:
  assumes "bolt_db_laws db" and "mig_store db st"
  shows "run_status db flag cfg (\<lambda>path. Inr st) = Inr NoCheckpointData"
proof -
  have "bo_get (part_ops db) (partition_bucket st) (partition_key [] pid) = None" for pid
    using mig_store_keys [OF assms, of "partition_key [] pid"] by (fastforce simp: partition_key_def)
  with assms(1) have "list_partitions db st [] = Inr []" by (rule list_partitions_empty)
  then show ?thesis by (simp add: run_status_def wrap_err_def)
qed

definition sample_db :: db_config where
  "sample_db =
     \<lparr>db_type = ''postgres'', db_host = ''h'', db_hosts = [], db_port = 5432, db_user = ''u'',
      db_password = ''p'', db_database = ''d'', db_keyspace = [], db_tables = [''t''], db_params = []\<rparr>"

definition sample_config :: config where
  "sample_config =
     \<lparr>cf_operation = [], cf_source = sample_db, cf_target = sample_db,
      cf_concurrency = \<lparr>num_readers = 1, num_transformers = 1, num_writers = 1, batch_size = 2, batch_timeout = 0,
        rate_limit_rps = 0, flush_every_n_batches = 1\<rparr>,
      cf_migration = \<lparr>mc_mapping_file = [], mc_conflict = [], mc_verify_after = False, mc_sample_pct = 0, mc_masking = []\<rparr>,
      cf_backup = \<lparr>bc_format = ''ndjson'', bc_compression = [], bc_chunk_mb = 0,
        bc_storage = \<lparr>so_type = ''local'', so_bucket = [], so_prefix = [], so_region = []\<rparr>,
        bc_retention = \<lparr>keep_last = 0, keep_daily = 0, keep_weekly = 0, keep_monthly = 0\<rparr>\<rparr>,
      cf_checkpoint = \<lparr>cc_path = [], cc_flush_every = 0\<rparr>,
      cf_telemetry = \<lparr>tc_log_level = [], tc_log_format = [], tc_metrics_addr = [], tc_tracing = []\<rparr>\<rparr>"

theorem status_shows_nothing_witness:
  "\<exists>st. get_partition ref_db st (''mig-'' @ show_int 1) ''p0'' \<noteq> Inl checkpoint_not_found \<and>
     run_status ref_db [] sample_config (\<lambda>path. Inr st) = Inr NoCheckpointData"
proof -
  have a: "mig_store ref_db ref_store" by (rule mig_store.fresh) (simp add: ref_eval)
  obtain st where st: "save_partition ref_db ref_store (''mig-'' @ show_int 1) (sample_checkpoint ''p0'' 7) = Inr st"
    by (auto simp: ref_eval)
  then have "get_partition ref_db st (''mig-'' @ show_int 1) ''p0'' \<noteq> Inl checkpoint_not_found"
    by (auto simp: ref_eval)
  moreover from a st have "mig_store ref_db st" by (rule mig_store.part)
  ultimately show ?thesis using status_shows_nothing [OF ref_db_laws] by blast
qed

section \<open>replay\<close>

lemma chunks_of_short: "xs \<noteq> [] \<Longrightarrow> length xs \<le> n \<Longrightarrow> chunks_of n xs = [xs]"
  by (subst chunks_of.simps, cases "n = 0") (auto simp: chunks_of.simps [of n "[]"])

lemma chunks_of_full: "0 < n \<Longrightarrow> length xs = n \<Longrightarrow> chunks_of n (xs @ ys) = xs # chunks_of n ys"
  by (subst chunks_of.simps) auto

lemma replay_loop_batches:
  assumes "0 < bs"
  shows "map (\<lambda>d. rbind d replay_record) ds = map Inr rcs \<Longrightarrow> int (length batch) < bs \<Longrightarrow>
    replay_loop ta bs ds batch t = (None, write_all ta t (chunks_of (nat bs) (batch @ rcs)))"
proof (induction ds arbitrary: batch rcs t)
  case Nil
  then show ?case by (cases "batch = []") (simp_all add: chunks_of.simps [of "nat bs" "[]"] chunks_of_short)
next
  case (Cons d ds)
  from Cons.prems(1) obtain rc rcs' where rcs: "rcs = rc # rcs'" "rbind d replay_record = Inr rc"
    "map (\<lambda>d. rbind d replay_record) ds = map Inr rcs'" by auto
  show ?case
  proof (cases "bs \<le> int (length (batch @ [rc]))")
    case True
    with Cons.prems(2) have len: "length (batch @ [rc]) = nat bs" by simp
    have "0 < nat bs" using assms by simp
    from chunks_of_full [OF this len, of rcs'] Cons.IH [OF rcs(3), of "[]"] assms True show ?thesis
      by (simp add: rcs(1,2))
  next
    case False
    then show ?thesis using Cons.IH [OF rcs(3), of "batch @ [rc]"] by (simp add: rcs(1,2))
  qed
qed

definition replay_size :: "config \<Rightarrow> int" where
  "replay_size cfg = (if batch_size (cf_concurrency cfg) \<le> 0 then 100 else batch_size (cf_concurrency cfg))"

lemma replay_result:
  assumes "failed_file \<noteq> []" and "map (\<lambda>d. rbind d replay_record) ds = map Inr rcs"
  shows "run_replay cfg failed_file (Inr ds) (Inr t) ta =
      (None, Some (write_all ta t (chunks_of (nat (replay_size cfg)) rcs))) \<and>
    concat (chunks_of (nat (replay_size cfg)) rcs) = rcs"
proof -
  have pos: "0 < replay_size cfg" by (simp add: replay_size_def)
  with replay_loop_batches [OF pos assms(2), of "[]" ta t] assms(1) show ?thesis
    by (simp add: run_replay_def replay_size_def chunks_of_concat Let_def)
qed

text \<open>\<open>replay\<close> writes the records of a readable file once each, in the order of the file, in full
  batches and a last smaller one; and it returns no error, whatever the target answers, so that the
  records of a batch the target refuses are lost without a trace in the result.\<close>

theorem replay_writes_batches:
  assumes "failed_file \<noteq> []" and "map (\<lambda>d. rbind d replay_record) ds = map Inr rcs"
  shows "run_replay cfg failed_file (Inr ds) (Inr t) ta =
      (None, Some (write_all ta t (chunks_of (nat (replay_size cfg)) rcs))) \<and>
    concat (chunks_of (nat (replay_size cfg)) rcs) = rcs"
  using assms by (rule replay_result)

definition lost :: "string \<Rightarrow> dlq_record result" where
  "lost i = Inr \<lparr>dlq_record_id = i, dlq_table = ''t'', dlq_error = ''e'', dlq_attempts = 3, dlq_timestamp = 0,
     dlq_payload = JObj [(''k'', JBool True)]\<rparr>"

definition refusing :: "go_record list list target_ops" where
  "refusing = \<lparr>ta_apply = (\<lambda>t s. (None, t)), ta_write = (\<lambda>t b. (0, Some (ErrMsg ''down''), t @ [b]))\<rparr>"

theorem replay_writes_batches_witness:
  "fst (run_replay sample_config ''f'' (Inr [lost ''1'', lost ''2'', lost ''3'']) (Inr []) refusing) = None \<and>
   map (map rec_id) (the (snd (run_replay sample_config ''f'' (Inr [lost ''1'', lost ''2'', lost ''3'']) (Inr []) refusing)))
     = [[''1'', ''2''], [''3'']]"
proof -
  let ?rc = "\<lambda>i. \<lparr>rec_id = i, rec_data = [(''k'', VBool True)], rec_meta = zero_metadata\<lparr>source_table := ''t''\<rparr>\<rparr>"
  let ?rcs = "[?rc ''1'', ?rc ''2'', ?rc ''3'']"
  have "map (\<lambda>d. rbind d replay_record) [lost ''1'', lost ''2'', lost ''3''] = map Inr ?rcs"
    by (simp add: lost_def replay_record_def object_of_json_def)
  moreover have "nat (replay_size sample_config) = 2" by (simp add: replay_size_def sample_config_def)
  moreover have "chunks_of 2 ?rcs = [[?rc ''1'', ?rc ''2''], [?rc ''3'']]"
    by (simp add: chunks_of_full [of 2 "[?rc ''1'', ?rc ''2'']" "[?rc ''3'']", simplified] chunks_of_short)
  ultimately show ?thesis
    using replay_writes_batches [of "''f''" "[lost ''1'', lost ''2'', lost ''3'']" ?rcs sample_config "[]" refusing]
    by (simp add: refusing_def)
qed

section \<open>The audit trail of a backup\<close>

lemma start_appended:
  "ho_audit_err ho False = None \<Longrightarrow>
     \<exists>a. write_audit_entry ho False (start_entry ho cfg op src tgt ts) (Some es) = Some (es @ [a]) \<and>
       ae_operation a = op \<and> ae_outcome a = [] \<and> ae_start a = ho_start ho"
  by (simp add: write_audit_entry_def audit_write_def start_entry_def)

lemma end_appended:
  "ho_audit_err ho True = None \<Longrightarrow>
     \<exists>b. write_audit_entry ho True (end_entry ho op src tgt ts n r) (Some es) = Some (es @ [b]) \<and>
       ae_operation b = op \<and> ae_start b = ho_start ho \<and> ae_rows b = n \<and>
       ae_outcome b = (case r of None \<Rightarrow> ''success'' | Some _ \<Rightarrow> ''failure'') \<and>
       ae_error b = (case r of None \<Rightarrow> [] | Some e \<Rightarrow> err_text e)"
  by (simp add: write_audit_entry_def audit_write_def end_entry_def)

lemma backup_manifest_stored:
  assumes "blob_store ops"
    and "backup (new_engine ops ser zs readers) now op_id src table sz z s = Some (Inr (m, s'))"
  shows "st_get ops s' ''manifest.json'' = Inr (BManifest m)"
proof -
  from assms(2) obtain s1 where "st_put ops s1 ''manifest.json'' (BManifest m) = Inr s'"
    by (auto simp: backup_def Let_def save_manifest_def new_engine_def rbind_Inr_iff split: sum.splits option.splits)
  with blob_store.put_get [OF assms(1) manifest_plain] show ?thesis by blast
qed

text \<open>C28: the audit trail tells how a backup ended, where it tells it at all. A command that gets as
  far as a table appends an entry without an outcome. A backup that succeeds appends a second entry
  with outcome \<open>success\<close> and the row count of the manifest that it stored; one that fails in the
  engine, one with outcome \<open>failure\<close> and the error; and when the schema or the serializer fails,
  there is no second entry.\<close>

theorem backup_audit_trail:
  fixes pq :: "'q pq_ops"
  assumes "\<And>second. ho_audit_err ho second = None" and "blob_store ops"
    and "db_tables (cf_source cfg) = table # rest"
    and "run_backup ho cfg (Inr src) (Inr (ops, s)) zs pq (Some es) = Some (err, Some es', st)"
  shows "\<exists>first more. es' = es @ first # more \<and> ae_operation first = ''backup'' \<and> ae_outcome first = [] \<and>
    (more = [] \<and> err \<noteq> None \<and> st = Some s \<or>
     (\<exists>final. more = [final] \<and> ae_operation final = ''backup'' \<and> ae_start final = ae_start first \<and>
        (case err of
           None \<Rightarrow> ae_outcome final = ''success'' \<and> ae_error final = [] \<and>
             (\<exists>s' m. st = Some s' \<and> st_get ops s' ''manifest.json'' = Inr (BManifest m) \<and>
                ae_rows final = mf_row_count m)
         | Some e \<Rightarrow> ae_outcome final = ''failure'' \<and>
             (\<exists>e'. e = Wrapf ''backup failed'' e' \<and> ae_error final = err_text e'))))"
proof -
  let ?start = "start_entry ho cfg ''backup'' (endpoint (cf_source cfg)) [] (table # rest)"
  let ?closing = "\<lambda>n r. end_entry ho ''backup'' (endpoint (cf_source cfg)) [] (table # rest) n r"
  obtain a where a: "write_audit_entry ho False ?start (Some es) = Some (es @ [a])"
    "ae_operation a = ''backup''" "ae_outcome a = []" "ae_start a = ho_start ho"
    using start_appended assms(1) by blast
  show ?thesis
  proof (cases "\<exists>sch (z :: 'q any_serializer). sa_schema src table = Inr sch \<and>
      init_serializer (bc_format (cf_backup cfg)) (columns sch)
        (if batch_size (cf_concurrency cfg) \<le> 0 then 1000 else batch_size (cf_concurrency cfg)) = Inr z")
    case False
    then have "es' = es @ [a] \<and> err \<noteq> None \<and> st = Some s"
      using assms(3,4) a(1) by (auto simp: run_backup_def Let_def split: sum.splits)
    with a show ?thesis by auto
  next
    case True
    then obtain sch and z :: "'q any_serializer" where z: "sa_schema src table = Inr sch"
      "init_serializer (bc_format (cf_backup cfg)) (columns sch)
        (if batch_size (cf_concurrency cfg) \<le> 0 then 1000 else batch_size (cf_concurrency cfg)) = Inr z" by blast
    let ?backup = "backup (new_engine ops (any_ops pq) zs (num_readers (cf_concurrency cfg))) (ho_manifest ho)
      (''bak-'' @ show_int (ho_pid ho)) (info_of src table) table (chunk_bytes cfg) z s"
    from assms(4) consider (fail) e where "?backup = Some (Inl e)" | (ok) m s' where "?backup = Some (Inr (m, s'))"
      using assms(3) z by (fastforce simp: run_backup_def Let_def split: option.splits sum.splits)
    then show ?thesis
    proof cases
      case fail
      obtain b where "write_audit_entry ho True (?closing 0 (Some e)) (Some (es @ [a])) = Some ((es @ [a]) @ [b])"
        "ae_operation b = ''backup''" "ae_start b = ho_start ho" "ae_outcome b = ''failure''" "ae_error b = err_text e"
        using end_appended [of ho "''backup''" _ _ _ 0 "Some e"] assms(1) by fastforce
      then show ?thesis using assms(3,4) z a fail by (auto simp: run_backup_def Let_def)
    next
      case ok
      obtain b where "write_audit_entry ho True (?closing (mf_row_count m) None) (Some (es @ [a])) = Some ((es @ [a]) @ [b])"
        "ae_operation b = ''backup''" "ae_start b = ho_start ho" "ae_outcome b = ''success''" "ae_error b = []"
        "ae_rows b = mf_row_count m"
        using end_appended [of ho "''backup''" _ _ _ "mf_row_count m" None] assms(1) by fastforce
      then show ?thesis using assms(3,4) z a ok backup_manifest_stored [OF assms(2) ok]
        by (auto simp: run_backup_def Let_def)
    qed
  qed
qed

definition one_row_source :: source_ops where
  "one_row_source =
     \<lparr>sa_type = ''postgres'', sa_partitions = (\<lambda>table n. Inr [file_part table 0 []]),
      sa_read = (\<lambda>c p. closed_read ([blank_record], None)),
      sa_schema = (\<lambda>table. Inr \<lparr>schema_name = table, columns = []\<rparr>)\<rparr>"

definition sample_host :: host where
  "sample_host =
     \<lparr>ho_getenv = (\<lambda>v. if v = ''USER'' then ''u'' else []), ho_hostname = Inr ''h'', ho_pid = 7, ho_start = 1, ho_end = 3,
      ho_manifest = 2, ho_audit_err = (\<lambda>second. None), ho_json = (\<lambda>j. [])\<rparr>"

lemma one_row_backup:
  "\<exists>es st. run_backup sample_host sample_config (Inr one_row_source) (Inr (disk, empty_disk)) tiny_zstd tiny_parquet (Some []) =
     Some (None, Some es, st)"
  by (simp add: run_backup_def sample_config_def sample_db_def one_row_source_def init_serializer_def
     write_audit_entry_def audit_write_def sample_host_def Let_def backup_def info_of_def
     new_engine_def chunk_bytes_def effective_size_def wrap_err_def open_chunk_def new_chunk_manager_def
     backup_partition_def add_record_def emit_def tiny_zstd_def flush_final_chunk_def flush_chunk_def save_manifest_def
     any_ops_def lift_ser_def nd_open_def nd_serialize_def nd_close_def blank_record_def closed_read_def
     reliable_def disk_put [OF chunk_name_plain] disk_put [OF manifest_plain] empty_disk_def mkdir_all_def)

theorem backup_audit_trail_witness:
  "\<exists>es st. run_backup sample_host sample_config (Inr one_row_source) (Inr (disk, empty_disk)) tiny_zstd tiny_parquet (Some []) =
       Some (None, Some es, st) \<and> length es = 2 \<and> ae_outcome (es ! 1) = ''success''"
proof -
  obtain es st where b: "run_backup sample_host sample_config (Inr one_row_source) (Inr (disk, empty_disk)) tiny_zstd
     tiny_parquet (Some []) = Some (None, Some es, st)" using one_row_backup by blast
  have "ho_audit_err sample_host second = None" for second by (simp add: sample_host_def)
  moreover have "blob_store disk" by (simp add: disk_def local_blob_store)
  moreover have "db_tables (cf_source sample_config) = [''t'']" by (simp add: sample_config_def sample_db_def)
  ultimately show ?thesis using backup_audit_trail [OF _ _ _ b] b by fastforce
qed

end
