(* ===== verification/Migrate.thy ===== *)
theory Migrate
  imports Pipeline Adapter Mapper
begin

text \<open>
  \<open>Orchestrator.Migrate\<close> with a source adapter and a target adapter: the partitions come from
  \<open>src.Partitions\<close>, each reader's script from \<open>src.ReadPartition\<close>, and the answers to a writer's
  \<open>WriteBatch\<close> from the target, whose state runs beside the pipeline's.
\<close>

text \<open>\<open>NewOrchestrator\<close>, for one operation; without a mapper records pass as they are.\<close>

definition new_orchestrator ::
  "concurrency_config \<Rightarrow> ('m, 'p) bolt_db \<Rightarrow> schema_mapper option \<Rightarrow> string \<Rightarrow> ('m, 'p) env" where
  "new_orchestrator cfg db mapper op_id =
     \<lparr>env_cfg = cfg, env_map = (case mapper of None \<Rightarrow> (\<lambda>rc. rc) | Some sm \<Rightarrow> map_record sm),
      env_db = db, env_op = op_id\<rparr>"

definition script_of :: "partition_read \<Rightarrow> read_script" where
  "script_of pr = \<lparr>rs_records = pr_records pr, rs_error = pr_error pr, rs_closes = pr_closes pr\<rparr>"

definition migrate_from ::
  "('m, 'p) env \<Rightarrow> source_ops \<Rightarrow> string \<Rightarrow> ('m, 'p) store \<Rightarrow> dlq option \<Rightarrow> ('m, 'p) migrate_outcome" where
  "migrate_from env src table st q =
     migrate env table (sa_partitions src table (num_readers (env_cfg env)))
       (\<lambda>p. script_of (sa_read src background p)) st q"

lemma migrate_from_runs:
  assumes "migrate_from env src table st q = MRuns s0"
  obtains ps parts where "sa_partitions src table (num_readers (env_cfg env)) = Inr ps"
    and "parts = plan_partitions (known_checkpoints (env_db env) st (env_op env)) ps"
    and "parts \<noteq> []" and "caps_ok env"
    and "s0 = start_pipeline env (\<lambda>p. script_of (sa_read src background p)) parts st q"
  using assms by (auto simp: migrate_from_def migrate_def Let_def split: sum.splits if_splits)

section \<open>The target beside the pipeline\<close>

text \<open>
  The event of a writer fires only if it agrees with what the target answers to the call it stands for:
  \<open>WriteBatch\<close> of the whole batch, or of the next single record.
\<close>

fun target_call :: "event \<Rightarrow> ('m, 'p) pipeline \<Rightarrow> go_record list option" where
  "target_call (WAck k) s =
     (case w_phase (writers s ! k) of WWriting b \<Rightarrow> Some b | _ \<Rightarrow> None)"
| "target_call (WFail k) s =
     (case w_phase (writers s ! k) of WWriting b \<Rightarrow> Some b | _ \<Rightarrow> None)"
| "target_call (WAckOne k) s =
     (case w_phase (writers s ! k) of WIsolating (x # xs) \<Rightarrow> Some [x] | _ \<Rightarrow> None)"
| "target_call (WFailOne k e now we) s =
     (case w_phase (writers s ! k) of WIsolating (x # xs) \<Rightarrow> Some [x] | _ \<Rightarrow> None)"
| "target_call _ s = None"

fun agrees :: "event \<Rightarrow> goerr option \<Rightarrow> bool" where
  "agrees (WAck k) err = (err = None)"
| "agrees (WFail k) err = (err \<noteq> None)"
| "agrees (WAckOne k) err = (err = None)"
| "agrees (WFailOne k e now we) err = (err = Some e)"
| "agrees _ err = True"

definition deliver ::
  "'t target_ops \<Rightarrow> ('m, 'p) env \<Rightarrow> event \<Rightarrow> ('m, 'p) pipeline \<times> 't \<Rightarrow> (('m, 'p) pipeline \<times> 't) option" where
  "deliver ta env e st =
     (case st of (s, t) \<Rightarrow>
        case fire env e s of
          None \<Rightarrow> None
        | Some s' \<Rightarrow>
            (case target_call e s of
               None \<Rightarrow> Some (s', t)
             | Some b \<Rightarrow>
                 (case ta_write ta t b of
                    (n, err, t') \<Rightarrow> if agrees e err then Some (s', t') else None)))"

text \<open>Every run with a target is a run of the pipeline.\<close>

lemma deliver_fire: "deliver ta env e (s, t) = Some (s', t') \<Longrightarrow> fire env e s = Some s'"
  by (auto simp: deliver_def split: option.splits prod.splits if_splits)

lemma deliver_run:
  "run_from (deliver ta env) es (s, t) = Some (s', t') \<Longrightarrow> run_from (fire env) es s = Some s'"
proof (induction es arbitrary: s t)
  case (Cons e es)
  then obtain s1 t1 where "deliver ta env e (s, t) = Some (s1, t1)"
    "run_from (deliver ta env) es (s1, t1) = Some (s', t')" by (auto split: option.splits)
  with Cons.IH deliver_fire [OF this(1)] show ?case by simp
qed simp

text \<open>And the target never stops the pipeline: whatever it answers, one of the two events fires.\<close>

lemma deliver_answer:
  assumes "fire env (WAck k) s = Some s1"
  shows "\<exists>e s' t'. e \<in> {WAck k, WFail k} \<and> deliver ta env e (s, t) = Some (s', t')"
proof -
  from assms obtain b where b: "w_phase (writers s ! k) = WWriting b" "\<not> panicked s" "k < length (writers s)"
    by (auto simp: fire_def w_ack_def Let_def split: if_splits writer_phase.splits)
  obtain n err t' where w: "ta_write ta t b = (n, err, t')" by (cases "ta_write ta t b") auto
  show ?thesis
  proof (cases err)
    case None
    with assms w b have "deliver ta env (WAck k) (s, t) = Some (s1, t')" by (simp add: deliver_def)
    then show ?thesis by blast
  next
    case (Some e)
    with w b have "deliver ta env (WFail k) (s, t) =
        Some (set_writer k ((writers s ! k)\<lparr>w_phase := isolating b\<rparr>) s, t')"
      by (simp add: deliver_def fire_def w_fail_def)
    then show ?thesis by blast
  qed
qed

end
