(* ===== verification/Delivery.thy ===== *)
theory Delivery
  imports Migrate Pipeline_Props Mapper_Props Postgres_Props Cassandra Mongo
begin

text \<open>
  What a migration leaves in its target. \<open>delivering_target\<close> is the contract of a target whose content
  is told by the records it has acknowledged; PostgreSQL, where a batch is one \<open>COPY\<close> statement,
  MongoDB and Cassandra, where a row is an upsert, discharge it for what they promise.
\<close>

section \<open>Calls of the target\<close>

lemma fire_written_other:
  "fire env e s = Some s' \<Longrightarrow> target_call e s = None \<Longrightarrow> written s' = written s"
  by (cases e)
    (auto simp: fire_def all_moves setters Let_def split: if_splits list.splits reader_phase.splits
      writer_phase.splits prod.splits)

lemma fire_written_call:
  "fire env e s = Some s' \<Longrightarrow> target_call e s = Some b \<Longrightarrow> agrees e err \<Longrightarrow>
   written s' = (if err = None then b @ written s else written s)"
  by (cases e)
    (auto simp: fire_def writer_moves setters Let_def split: if_splits list.splits writer_phase.splits)

lemma writer_load_total:
  assumes "k < length (writers s)" and "x \<in> set (phase_load (w_phase (writers s ! k)))"
  shows "x \<in># total env s"
proof -
  have "writer_load w \<subseteq># gather writer_load ws" if "w \<in> set ws" for w ws
    using that by (induction ws) (auto intro: subset_mset.add_increasing2 subset_mset.add_increasing)
  then have "writer_load (writers s ! k) \<subseteq># gather writer_load (writers s)" using assms(1) by simp
  then show ?thesis
    using assms(2) mset_subset_eqD [of "writer_load (writers s ! k)" _ x]
    by (auto simp: total_def in_flight_def writer_load_def)
qed

text \<open>The batch of a call is one that is under way, and never empty.\<close>

lemma target_call_records:
  assumes "pipe_inv env s" and "fire env e s = Some s'" and "target_call e s = Some b"
  shows "b \<noteq> []" and "\<forall>x \<in> set b. x \<in># total env s"
proof -
  obtain k where k: "k < length (writers s)" "set b \<subseteq> set (phase_load (w_phase (writers s ! k)))"
    "w_phase (writers s ! k) = WWriting b \<or> b \<noteq> []"
    using assms(2,3) by (cases e) (auto simp: fire_def split: writer_phase.splits list.splits if_splits)
  show "\<forall>x \<in> set b. x \<in># total env s" using k writer_load_total by blast
  have "writer_ok env (writers s ! k)" using assms(1) k(1) by (simp add: pipe_inv_def local_okD)
  with k(3) show "b \<noteq> []" by (auto simp: writer_ok_def batch_ok_def)
qed

section \<open>A target that accepts every batch\<close>

text \<open>No batch fails, so none is isolated and no record is rejected.\<close>

definition untroubled :: "('m, 'p) pipeline \<times> 't \<Rightarrow> bool" where
  "untroubled st \<longleftrightarrow> rejected (fst st) = []"

lemma fire_rejected:
  "fire env e s = Some s' \<Longrightarrow> (\<And>k err now we. e \<noteq> WFailOne k err now we) \<Longrightarrow> rejected s' = rejected s"
  by (cases e)
    (auto simp: fire_def all_moves setters Let_def split: if_splits list.splits reader_phase.splits
      writer_phase.splits prod.splits)

lemma accepting_untroubled:
  assumes "accepting ta" and "untroubled st" and "deliver ta env e st = Some st'"
  shows "untroubled st'"
proof -
  obtain s t s' t' where st: "st = (s, t)" "st' = (s', t')" by (cases st, cases st')
  have f: "fire env e s = Some s'" using assms(3) unfolding st by (rule deliver_fire)
  have "e \<noteq> WFailOne k err now we" for k err now we
  proof
    assume e: "e = WFailOne k err now we"
    then obtain x xs where "w_phase (writers s ! k) = WIsolating (x # xs)"
      using f by (auto simp: fire_def w_fail_one_def Let_def split: if_splits writer_phase.splits list.splits)
    moreover obtain u where "ta_write ta t [x] = (int (length [x]), None, u)" using assms(1) by (rule acceptingE)
    ultimately show False using assms(3) f by (simp add: st e deliver_def)
  qed
  from fire_rejected [OF f this] assms(2) show ?thesis by (simp add: st untroubled_def)
qed

interpretation accepted: event_system "deliver ta env" "\<lambda>st. accepting ta \<and> untroubled st" for ta env
  by unfold_locales (auto intro: accepting_untroubled)

lemma accepting_rejects_nothing:
  assumes "accepting ta" and "run_from (deliver ta env) es (start_pipeline env source parts st q, t0) = Some (s, t)"
  shows "rejected s = []"
proof -
  have "accepting ta \<and> untroubled (start_pipeline env source parts st q, t0)"
    using assms(1) by (simp add: untroubled_def start_pipeline_def)
  from accepted.run_inv [OF this assms(2)] show ?thesis by (simp add: untroubled_def)
qed

section \<open>The contract\<close>

text \<open>
  \<open>holds ws t\<close> says that the target state \<open>t\<close> is what the acknowledged records \<open>ws\<close> make of it, for
  records that all satisfy \<open>fits\<close>.
\<close>

locale delivering_target =
  fixes ta :: "'t target_ops"
    and fits :: "go_record \<Rightarrow> bool"
    and holds :: "go_record list \<Rightarrow> 't \<Rightarrow> bool"
  assumes write_ok: "holds ws t \<Longrightarrow> b \<noteq> [] \<Longrightarrow> list_all fits b \<Longrightarrow> ta_write ta t b = (n, None, t')
      \<Longrightarrow> holds (b @ ws) t'"
    and write_fails: "holds ws t \<Longrightarrow> b \<noteq> [] \<Longrightarrow> list_all fits b \<Longrightarrow> ta_write ta t b = (n, Some e, t')
      \<Longrightarrow> holds ws t'"
begin

definition delivered :: "('m, 'p) env \<Rightarrow> ('m, 'p) pipeline \<times> 't \<Rightarrow> bool" where
  "delivered env st \<longleftrightarrow> pipe_inv env (fst st) \<and> (\<forall>x \<in># total env (fst st). fits x) \<and>
     holds (written (fst st)) (snd st)"

lemma deliver_step:
  assumes "delivered env st" and "deliver ta env e st = Some st'"
  shows "delivered env st'"
proof -
  obtain s t where st: "st = (s, t)" by (cases st)
  obtain s' t' where st': "st' = (s', t')" by (cases st')
  have f: "fire env e s = Some s'" using assms(2) unfolding st st' by (rule deliver_fire)
  have inv: "pipe_inv env s" "holds (written s) t" and fit: "\<forall>x \<in># total env s. fits x"
    using assms(1) by (simp_all add: delivered_def st)
  have "holds (written s') t'"
  proof (cases "target_call e s")
    case None
    with assms(2) f have "t' = t" by (simp add: deliver_def st st')
    with fire_written_other [OF f None] inv(2) show ?thesis by simp
  next
    case (Some b)
    obtain n err t1 where w: "ta_write ta t b = (n, err, t1)" by (cases "ta_write ta t b") auto
    with assms(2) f Some have t': "t' = t1" "agrees e err"
      by (auto simp: deliver_def st st' split: if_splits)
    have b: "b \<noteq> []" "list_all fits b"
      using target_call_records [OF inv(1) f Some] fit by (auto simp: list_all_iff)
    show ?thesis
      using fire_written_call [OF f Some t'(2)] w t'(1) write_ok [OF inv(2) b] write_fails [OF inv(2) b]
      by (cases err) auto
  qed
  with fire_pipe_inv [OF inv(1) f] fire_total [OF f] fit show ?thesis by (simp add: delivered_def st')
qed

end

sublocale delivering_target \<subseteq> delivery: event_system "deliver ta env" "delivered env" for env
  by unfold_locales (rule deliver_step)

context delivering_target
begin

lemma migration_delivers:
  assumes "caps_ok env" and "holds [] t0" and "\<forall>x \<in> set (all_records source parts). fits (env_map env x)"
    and "run_from (deliver ta env) es (start_pipeline env source parts st q, t0) = Some (s, t)"
  shows "holds (written s) t"
proof -
  have "delivered env (start_pipeline env source parts st q, t0)"
    using assms(2,3) start_inv [OF assms(1)]
    by (simp add: delivered_def start_total) (simp add: start_pipeline_def)
  from delivery.run_inv [OF this assms(4)] show ?thesis by (simp add: delivered_def)
qed

text \<open>A restore writes batches directly, and returns nil if all were acknowledged.\<close>

lemma acked_holds:
  "holds ws t \<Longrightarrow> acked ta t bs t' \<Longrightarrow> \<forall>b \<in> set bs. b \<noteq> [] \<and> list_all fits b \<Longrightarrow>
   \<exists>ws'. holds ws' t' \<and> mset ws' = mset ws + mset (concat bs)"
proof (induction bs arbitrary: ws t)
  case (Cons b bs)
  from Cons.prems(2) obtain n t1 where "ta_write ta t b = (n, None, t1)" "acked ta t1 bs t'"
    by (auto split: prod.splits option.splits)
  with Cons.IH [OF write_ok [of ws t b n t1]] Cons.prems(1,3) show ?case by (auto simp: ac_simps)
qed auto

end

section \<open>PostgreSQL\<close>

text \<open>
  What the writer relies on: \<open>COPY\<close> is one statement, which adds a row for every row it was given, or
  nothing. \<open>tab d t\<close> is the rows of a table, each as the value of every column.
\<close>

type_synonym pg_tables = "string \<Rightarrow> (string \<Rightarrow> gval) multiset"

definition copy_laws :: "'d pg_client \<Rightarrow> ('d \<Rightarrow> pg_tables) \<Rightarrow> bool" where
  "copy_laws cl tab \<longleftrightarrow>
     (\<forall>d t cols rows n err d'. pg_copy cl d t cols rows = (n, err, d') \<longrightarrow>
        tab d' t = (if err = None then tab d t + image_mset (copied cols) (mset rows) else tab d t))"

definition row_of_record :: "go_record \<Rightarrow> string \<Rightarrow> gval" where
  "row_of_record rc = map_get (rec_data rc)"

text \<open>\<open>CREATE TABLE IF NOT EXISTS\<close> changes the rows of no table.\<close>

definition create_laws :: "'d pg_client \<Rightarrow> ('d \<Rightarrow> pg_tables) \<Rightarrow> bool" where
  "create_laws cl tab \<longleftrightarrow> (\<forall>d sch e d'. pg_exec cl d (create_table cl sch) = (e, d') \<longrightarrow> tab d' = tab d)"

text \<open>A table that no row violates: every \<open>COPY\<close> into it is accepted, and told in full.\<close>

definition never_refuses :: "'d pg_client \<Rightarrow> bool" where
  "never_refuses cl \<longleftrightarrow> (\<forall>d t cols rows. \<exists>d'. pg_copy cl d t cols rows = (int (length rows), None, d'))"

lemma pg_accepting:
  assumes "never_refuses cl"
  shows "accepting (pg_target cl)"
  unfolding accepting_def
proof (intro allI)
  fix ad :: "pg_adapter \<times> 'a" and b
  obtain a d where ad: "ad = (a, d)" by (cases ad)
  obtain d' where "pg_copy cl d (case pa_writer a of Some t \<Rightarrow> t | None \<Rightarrow> source_table (rec_meta (hd b)))
      (fst (pg_rows b)) (snd (pg_rows b)) = (int (length (snd (pg_rows b))), None, d')"
    using assms unfolding never_refuses_def by blast
  moreover have "length (snd (pg_rows b)) = length b" by (simp add: pg_rows_def Let_def)
  ultimately show "\<exists>t'. ta_write (pg_target cl) ad b = (int (length b), None, t')"
    by (cases "b = []") (simp_all add: ad pg_target_def pg_write_batch_def pg_write_rows_def case_prod_unfold Let_def)
qed

lemma pg_schema_name: "pg_get_schema cl d table ts = Inr sch \<Longrightarrow> schema_name sch = table"
  by (auto simp: pg_get_schema_def rows_end_def Let_def split: sum.splits option.splits if_splits elim!: rbind_Inr_elim)

lemma pg_apply_ready:
  assumes "pg_apply cl (a, d) sch = (None, t1)"
  shows "\<exists>d1. t1 = (a\<lparr>pa_writer := Some (schema_name sch)\<rparr>, d1) \<and> pg_exec cl d (create_table cl sch) = (None, d1)"
  using assms by (auto simp: pg_apply_def pg_apply_schema_def split: prod.splits option.splits)

text \<open>Records with the same columns, in whatever order.\<close>

definition has_columns :: "string set \<Rightarrow> go_record \<Rightarrow> bool" where
  "has_columns cs rc \<longleftrightarrow> fst ` set (rec_data rc) = cs"

definition pg_holds ::
  "'d pg_client \<Rightarrow> ('d \<Rightarrow> pg_tables) \<Rightarrow> string \<Rightarrow> (string \<Rightarrow> gval) multiset \<Rightarrow> go_record list
   \<Rightarrow> pg_adapter \<times> 'd \<Rightarrow> bool" where
  "pg_holds cl tab t old ws ad \<longleftrightarrow> copy_laws cl tab \<and> pa_writer (fst ad) = Some t \<and>
     tab (snd ad) t = old + image_mset row_of_record (mset ws)"

lemma pg_rows_content:
  assumes "b \<noteq> []" and "list_all (has_columns cs) b"
  shows "map (copied (fst (pg_rows b))) (snd (pg_rows b)) = map row_of_record b"
proof -
  let ?cols = "map fst (rec_data (hd b))"
  have "copied ?cols (map (map_get (rec_data rc)) ?cols) = row_of_record rc" if "rc \<in> set b" for rc
  proof
    fix k
    have "set ?cols = fst ` set (rec_data rc)"
      using assms that hd_in_set [of b] by (auto simp: has_columns_def list_all_iff)
    moreover have "map_get (rec_data rc) k = VNil" if "k \<notin> fst ` set (rec_data rc)"
      using that by (simp add: map_get_def iffD2 [OF map_of_eq_None_iff])
    ultimately show "copied ?cols (map (map_get (rec_data rc)) ?cols) k = row_of_record rc k"
      by (auto simp: copied_row row_of_record_def simp del: map_map)
  qed
  then show ?thesis by (simp add: pg_rows_def Let_def comp_def)
qed

interpretation pgd: delivering_target "pg_target cl" "has_columns cs" "pg_holds cl tab t old"
  for cl :: "'d pg_client" and cs tab t old
proof unfold_locales
  fix ws b n and ad ad' :: "pg_adapter \<times> 'd"
  assume h: "pg_holds cl tab t old ws ad" and b: "b \<noteq> []" "list_all (has_columns cs) b"
  obtain cols rows where rows: "pg_rows b = (cols, rows)" by (cases "pg_rows b")
  have content: "image_mset (copied cols) (mset rows) = image_mset row_of_record (mset b)"
    using pg_rows_content [OF b] unfolding rows by (metis fst_conv snd_conv mset_map)
  obtain m err d' where c: "pg_copy cl (snd ad) t cols rows = (m, err, d')" by (cases "pg_copy cl (snd ad) t cols rows")
  then have d': "tab d' t = (if err = None then tab (snd ad) t + image_mset row_of_record (mset b) else tab (snd ad) t)"
    using h content by (simp add: pg_holds_def copy_laws_def)
  have w: "ta_write (pg_target cl) ad b = (if err = None then m else 0,
      map_option (Wrapf ''failed to copy from rows'') err, (fst ad)\<lparr>pa_writer := Some t\<rparr>, d')"
    using h b(1) c rows
    by (cases err) (simp_all add: pg_target_def pg_write_batch_def pg_write_rows_def pg_holds_def case_prod_unfold Let_def)
  show "pg_holds cl tab t old (b @ ws) ad'" if "ta_write (pg_target cl) ad b = (n, None, ad')"
    using that h d' unfolding w by (auto simp: pg_holds_def ac_simps)
  show "pg_holds cl tab t old ws ad'" if "ta_write (pg_target cl) ad b = (n, Some e, ad')" for e
    using that h d' unfolding w by (auto simp: pg_holds_def)
qed

lemma plan_nothing_done [simp]: "plan_partitions [] ps = ps"
  by (simp add: plan_partitions_def done_partitions_def map_idI)

text \<open>A migration without stored checkpoints reads every partition from its start.\<close>

lemma fresh_migration:
  assumes "migrate_from env src table st q = MRuns s0"
    and "known_checkpoints (env_db env) st (env_op env) = []"
  obtains ps where "sa_partitions src table (num_readers (env_cfg env)) = Inr ps" and "caps_ok env"
    and "s0 = start_pipeline env (\<lambda>p. script_of (sa_read src background p)) ps st q"
  using migrate_from_runs [OF assms(1)] assms(2) by (metis plan_nothing_done)

lemma row_map_keys: "length r = length cols \<Longrightarrow> fst ` set (row_map cols r) = set cols"
proof -
  assume len: "length r = length cols"
  have "fst ` set (row_map cols r) = dom (map_of (row_map cols r))" by (simp add: dom_map_of_conv_image_fst)
  also have "\<dots> = fst ` set (zip cols r)"
    unfolding row_map_def foldl_map_set by (simp add: dom_map_of_conv_image_fst)
  also have "\<dots> = set cols" using len by (metis list.set_map map_fst_zip)
  finally show ?thesis .
qed

text \<open>A row of the source as the target has it: masked, the columns by name.\<close>

definition masked_row :: "schema_mapper \<Rightarrow> string list \<Rightarrow> gval list \<Rightarrow> string \<Rightarrow> gval" where
  "masked_row sm cols r = map_get (apply_rules (masking sm) (row_map cols r))"

lemma masked_record: "row_of_record (map_record sm rc) = map_get (apply_rules (masking sm) (rec_data rc))"
  by (simp add: row_of_record_def map_record_def)

lemma masked_columns: "has_columns cs (map_record sm rc) = has_columns cs rc"
proof -
  have "fst ` set (apply_rules rs m) = fst ` set m" for rs m using apply_rules_keys by (metis list.set_map)
  then show ?thesis by (simp add: has_columns_def map_record_def)
qed

section \<open>From PostgreSQL to PostgreSQL\<close>

lemma pg_fresh_run:
  assumes source: "serves scl d table cols rows" "\<forall>r \<in> set rows. length r = length cols"
      "pg_min_max scl d (''SELECT MIN(id), MAX(id) FROM '' @ pg_sanitize scl table) = Inr (Some lo, Some hi)"
      "\<forall>r \<in> set rows. sint lo \<le> key_of cols r \<and> key_of cols r \<le> sint hi"
      "pg_safe lo hi (num_readers (env_cfg env))"
    and env: "env_map env = map_record sm" "known_checkpoints (env_db env) st (env_op env) = []"
    and target: "copy_laws tcl tab" "pa_writer ta = Some t"
    and run: "migrate_from env (pg_source scl sa d) table st q = MRuns s0"
      "run_from (deliver (pg_target tcl) env) es (s0, ta, td) = Some (s, ta', td')"
  obtains parts where "caps_ok env"
    and "s0 = start_pipeline env (\<lambda>p. script_of (pg_read_partition scl d background p)) parts st q"
    and "image_mset rec_data (mset (all_records (\<lambda>p. script_of (pg_read_partition scl d background p)) parts)) =
      image_mset (row_map cols) (mset rows)"
    and "pg_holds tcl tab t (tab td t) (written s) (ta', td')"
    and "list_all (\<lambda>p. rs_closes (script_of (pg_read_partition scl d background p)) \<and>
      rs_error (script_of (pg_read_partition scl d background p)) = None) parts"
proof -
  obtain ps where ps: "pg_partitions scl d table (num_readers (env_cfg env)) = Inr ps" "caps_ok env"
    and s0: "s0 = start_pipeline env (\<lambda>p. script_of (pg_read_partition scl d background p)) ps st q"
    using fresh_migration [OF run(1) env(2)] by (auto simp: pg_source_def)
  let ?all = "all_records (\<lambda>p. script_of (pg_read_partition scl d background p)) ps"
  have data: "image_mset rec_data (mset ?all) = image_mset (row_map cols) (mset rows)"
    using pg_reads_rows [OF source(1,3,4,5)] ps(1)
    by (simp add: all_records_def script_of_def mset_map [symmetric] map_concat comp_def del: mset_map)
  have "\<forall>x \<in> set ?all. has_columns (set cols) x"
  proof
    fix x assume "x \<in> set ?all"
    then have "rec_data x \<in># image_mset (row_map cols) (mset rows)"
      unfolding data [symmetric] by simp
    then obtain r where "r \<in> set rows" "rec_data x = row_map cols r" by auto
    then show "has_columns (set cols) x" using row_map_keys source(2) by (simp add: has_columns_def)
  qed
  then have fits: "\<forall>x \<in> set ?all. has_columns (set cols) (env_map env x)"
    unfolding env(1) masked_columns .
  have "pg_holds tcl tab t (tab td t) [] (ta, td)" using target by (simp add: pg_holds_def)
  from pgd.migration_delivers [OF ps(2) this fits run(2) [unfolded s0]]
  have "pg_holds tcl tab t (tab td t) (written s) (ta', td')" .
  moreover have "list_all (\<lambda>p. rs_closes (script_of (pg_read_partition scl d background p)) \<and>
      rs_error (script_of (pg_read_partition scl d background p)) = None) ps"
    using pg_reads_rows [OF source(1,3,4,5)] ps(1) by (simp add: script_of_def list_all_iff)
  ultimately show ?thesis by (rule that [OF ps(2) s0 data])
qed

text \<open>The rows of a multiset of records, when their data are those of rows.\<close>

lemma masked_rows:
  assumes "image_mset rec_data M = image_mset (row_map cols) R"
  shows "image_mset row_of_record (image_mset (map_record sm) M) = image_mset (masked_row sm cols) R"
proof -
  have "image_mset row_of_record (image_mset (map_record sm) M) =
      image_mset (\<lambda>m. map_get (apply_rules (masking sm) m)) (image_mset rec_data M)"
    by (simp add: multiset.map_comp comp_def masked_record)
  also have "\<dots> = image_mset (masked_row sm cols) R"
    unfolding assms by (simp add: multiset.map_comp comp_def masked_row_def [abs_def])
  finally show ?thesis .
qed

text \<open>What a run has written so far are rows of the source.\<close>

lemma pg_run_subset:
  assumes "env_map env = map_record sm"
    and "image_mset rec_data (mset (all_records source parts)) = image_mset (row_map cols) (mset rows)"
    and "reaches env source parts st q es s"
  shows "image_mset row_of_record (mset (written s)) \<subseteq># image_mset (masked_row sm cols) (mset rows)"
proof -
  have "mset (written s) \<subseteq># total env s"
    by (simp add: total_def subset_mset.add_increasing subset_mset.add_increasing2)
  then have "mset (written s) \<subseteq># image_mset (map_record sm) (mset (all_records source parts))"
    unfolding reaches_total [OF assms(3)] assms(1) .
  then have "image_mset row_of_record (mset (written s)) \<subseteq>#
      image_mset row_of_record (image_mset (map_record sm) (mset (all_records source parts)))"
    by (rule image_mset_subseteq_mono)
  then show ?thesis unfolding masked_rows [OF assms(2)] .
qed

lemma pg_migration_rows:
  assumes source: "serves scl d table cols rows" "\<forall>r \<in> set rows. length r = length cols"
      "pg_min_max scl d (''SELECT MIN(id), MAX(id) FROM '' @ pg_sanitize scl table) = Inr (Some lo, Some hi)"
      "\<forall>r \<in> set rows. sint lo \<le> key_of cols r \<and> key_of cols r \<le> sint hi"
      "pg_safe lo hi (num_readers (env_cfg env))"
    and env: "env_map env = map_record sm" "1 \<le> num_transformers (env_cfg env)"
      "known_checkpoints (env_db env) st (env_op env) = []"
    and target: "copy_laws tcl tab" "pa_writer ta = Some t"
    and run: "migrate_from env (pg_source scl sa d) table st q = MRuns s0"
      "run_from (deliver (pg_target tcl) env) es (s0, ta, td) = Some (s, ta', td')"
      "finished s" "first_err s = None"
  shows "tab td' t + image_mset row_of_record (mset (rejected s)) =
    tab td t + image_mset (masked_row sm cols) (mset rows)"
proof -
  obtain parts where ok: "caps_ok env"
    and s0: "s0 = start_pipeline env (\<lambda>p. script_of (pg_read_partition scl d background p)) parts st q"
    and data: "image_mset rec_data (mset (all_records (\<lambda>p. script_of (pg_read_partition scl d background p)) parts)) =
      image_mset (row_map cols) (mset rows)"
    and held: "pg_holds tcl tab t (tab td t) (written s) (ta', td')"
    by (rule pg_fresh_run [OF source env(1,3) target run(1,2)])
  let ?all = "all_records (\<lambda>p. script_of (pg_read_partition scl d background p)) parts"
  have "tab td' t + image_mset row_of_record (mset (rejected s)) =
      tab td t + image_mset row_of_record (mset (written s) + mset (rejected s))"
    using held by (simp add: pg_holds_def ac_simps)
  also have "mset (written s) + mset (rejected s) = image_mset (map_record sm) (mset ?all)"
    using migration_accounts [OF ok env(2) _ run(3,4)] deliver_run [OF run(2)] env(1)
    by (simp add: reaches_def s0)
  also have "image_mset row_of_record \<dots> = image_mset (masked_row sm cols) (mset rows)"
    using data by (rule masked_rows)
  finally show ?thesis .
qed

text \<open>C2: a whole migration from PostgreSQL to PostgreSQL, under every interleaving and whatever the target
  answers: when it returns nil, the target table has what it had and every row of the source exactly
  once, masked, except the rows that were rejected.\<close>

theorem pg_to_pg_migration:
  assumes source: "serves scl d table cols rows" "\<forall>r \<in> set rows. length r = length cols"
      "pg_min_max scl d (''SELECT MIN(id), MAX(id) FROM '' @ pg_sanitize scl table) = Inr (Some lo, Some hi)"
      "\<forall>r \<in> set rows. sint lo \<le> key_of cols r \<and> key_of cols r \<le> sint hi"
      "pg_safe lo hi (num_readers (env_cfg env))"
    and env: "env_map env = map_record sm" "1 \<le> num_transformers (env_cfg env)"
      "known_checkpoints (env_db env) st (env_op env) = []"
    and target: "copy_laws tcl tab" "pa_writer ta = Some t"
    and run: "migrate_from env (pg_source scl sa d) table st q = MRuns s0"
      "run_from (deliver (pg_target tcl) env) es (s0, ta, td) = Some (s, ta', td')"
      "finished s" "first_err s = None"
  shows "tab td' t + image_mset row_of_record (mset (rejected s)) =
    tab td t + image_mset (masked_row sm cols) (mset rows)"
  using assms by (rule pg_migration_rows)

text \<open>The two rows of \<^const>\<open>two_rows\<close>, their names redacted, in a database that is its tables.\<close>

definition table_client :: "pg_tables pg_client" where
  "table_client =
     \<lparr>pg_open = (\<lambda>dsn. Inr (\<lambda>t. {#})), pg_ping = (\<lambda>d. None), pg_sanitize = (\<lambda>t. t),
      pg_min_max = (\<lambda>d q. Inr (None, None)), pg_select = (\<lambda>d q a b. Inr ([], [], None)),
      pg_exec = (\<lambda>d q. (None, d)),
      pg_copy = (\<lambda>d t cols rows. (int (length rows), None, d(t := d t + image_mset (copied cols) (mset rows)))),
      pg_columns = (\<lambda>d t s. Inr ([], None)), pg_keys = (\<lambda>d t s. Inr ([], None))\<rparr>"

definition redact_names :: schema_mapper where
  "redact_names = new_schema_mapper ''postgres'' ''postgres'' [\<lparr>mask_column = ''name'', mask_strategy = ''redact''\<rparr>]"

definition two_env :: "(operation_meta option ref_bucket, stored_checkpoint option ref_bucket) env" where
  "two_env = (ex_env 1 1 2)\<lparr>env_map := map_record redact_names,
     env_cfg := (env_cfg (ex_env 1 1 2))\<lparr>flush_every_n_batches := 10\<rparr>\<rparr>"

definition two_run :: "event list" where
  "two_run =
     [SrcSend 0, SrcSend 0, SrcClose 0, SrcReturn 0, RTake 0, RSend 0, RTake 0, RSend 0, RTake 0, RFinish 0,
      TTake 0, TTake 0, TSend 0, WTake 0, WAck 0, CloseRecords, TTake 0, CloseBatches, WTake 0]"

definition two_target :: "pg_adapter \<times> pg_tables" where
  "two_target = (\<lparr>pa_writer = Some ''u'', pa_schema = ''public''\<rparr>, \<lambda>t. {#})"

lemma two_start:
  "migrate_from two_env (pg_source tiny_client new_postgres_adapter ()) ''t'' ref_store None =
     MRuns (start_pipeline two_env (\<lambda>p. script_of (pg_read_partition tiny_client () background p))
       [make_range ''t'' 0 3 9] ref_store None)"
  by (simp add: migrate_from_def migrate_def pg_source_def pg_partitions_def tiny_client_def split_range_def
      two_env_def ex_env_def caps_ok_def record_cap_def batch_cap_def known_checkpoints_def ref_eval)

lemma two_reads:
  "pg_read_partition tiny_client () background (make_range ''t'' 0 3 9) =
     closed_read (map (pg_record (make_range ''t'' 0 3 9) [''id'', ''name'']) two_rows, None)"
  by (simp add: pg_read_partition_def tiny_client_def make_range_def two_rows_def key_of_def pg_row_def background_def)

lemma two_run_ends:
  "\<exists>s ta td. run_from (deliver (pg_target table_client) two_env) two_run
     (start_pipeline two_env (\<lambda>p. script_of (pg_read_partition tiny_client () background p))
        [make_range ''t'' 0 3 9] ref_store None, two_target) = Some (s, ta, td) \<and>
     finished s \<and> first_err s = None \<and> rejected s = []"
  unfolding start_pipeline_def start_reader_def list.map two_reads
  by (simp add: two_run_def two_rows_def closed_read_def script_of_def two_env_def ex_defs deliver_def finished_def
      pg_target_def pg_write_batch_def pg_write_rows_def pg_rows_def table_client_def two_target_def Let_def
      case_prod_unfold)

theorem pg_to_pg_migration_witness:
  "\<exists>s ta td. run_from (deliver (pg_target table_client) two_env) two_run
     (start_pipeline two_env (\<lambda>p. script_of (pg_read_partition tiny_client () background p))
        [make_range ''t'' 0 3 9] ref_store None, two_target) = Some (s, ta, td) \<and>
     td ''u'' = image_mset (masked_row redact_names [''id'', ''name'']) (mset two_rows)"
proof -
  let ?cols = "[''id'', ''name'']"
  obtain s ta td where run: "run_from (deliver (pg_target table_client) two_env) two_run
     (start_pipeline two_env (\<lambda>p. script_of (pg_read_partition tiny_client () background p))
        [make_range ''t'' 0 3 9] ref_store None, two_target) = Some (s, ta, td)"
    and s: "finished s" "first_err s = None" "rejected s = []"
    using two_run_ends by blast
  have source: "serves tiny_client () ''t'' ?cols two_rows" "\<forall>r \<in> set two_rows. length r = length ?cols"
    "pg_min_max tiny_client () (''SELECT MIN(id), MAX(id) FROM '' @ pg_sanitize tiny_client ''t'') = Inr (Some 3, Some 8)"
    "\<forall>r \<in> set two_rows. sint (3 :: 64 word) \<le> key_of ?cols r \<and> key_of ?cols r \<le> sint (8 :: 64 word)"
    by (simp_all add: serves_def tiny_client_def two_rows_def key_of_def)
  have env: "pg_safe 3 8 (num_readers (env_cfg two_env))" "env_map two_env = map_record redact_names"
    "1 \<le> num_transformers (env_cfg two_env)"
    "known_checkpoints (env_db two_env) ref_store (env_op two_env) = []"
    by (simp_all add: pg_safe_def two_env_def ex_env_def known_checkpoints_def ref_eval)
  have target: "copy_laws table_client (\<lambda>d. d)" "pa_writer (fst two_target) = Some ''u''"
    by (simp_all add: copy_laws_def table_client_def two_target_def)
  have "run_from (deliver (pg_target table_client) two_env) two_run
     (start_pipeline two_env (\<lambda>p. script_of (pg_read_partition tiny_client () background p))
        [make_range ''t'' 0 3 9] ref_store None, fst two_target, snd two_target) = Some (s, ta, td)"
    using run by simp
  from pg_to_pg_migration [OF source env target two_start this s(1,2)] run s(3)
  show ?thesis by (auto simp: two_target_def)
qed

end
