(* ===== verification/Upserts.thy ===== *)
theory Upserts
  imports Delivery
begin

text \<open>
  Targets whose rows have a key and are written by upserts, MongoDB and Cassandra. A batch that fails
  may have written some of its records; the isolation that follows writes them again, and that does
  no harm: the second contract and what a migration leaves in such a target.
\<close>

section \<open>The contract\<close>

text \<open>
  \<open>stored t k\<close> is what the target has under the key \<open>k\<close>, and \<open>carries v rc\<close> that the stored value \<open>v\<close>
  tells the record \<open>rc\<close>.
\<close>

definition rewritten ::
  "(go_record \<Rightarrow> 'k) \<Rightarrow> ('v \<Rightarrow> go_record \<Rightarrow> bool) \<Rightarrow> go_record set \<Rightarrow> ('k \<Rightarrow> 'v option) \<Rightarrow> 'k \<Rightarrow> bool" where
  "rewritten key carries rs f k \<longleftrightarrow> (\<exists>rc \<in> rs. \<exists>v. key rc = k \<and> f k = Some v \<and> carries v rc)"

locale upserting_target =
  fixes ta :: "'t target_ops"
    and ready :: "'t \<Rightarrow> bool"
    and suits :: "go_record \<Rightarrow> bool"
    and stored :: "'t \<Rightarrow> 'k \<Rightarrow> 'v option"
    and key :: "go_record \<Rightarrow> 'k"
    and carries :: "'v \<Rightarrow> go_record \<Rightarrow> bool"
  assumes still_ready: "ready t \<Longrightarrow> b \<noteq> [] \<Longrightarrow> list_all suits b \<Longrightarrow> ta_write ta t b = (n, err, t') \<Longrightarrow> ready t'"
    and written_only: "ready t \<Longrightarrow> b \<noteq> [] \<Longrightarrow> list_all suits b \<Longrightarrow> ta_write ta t b = (n, err, t')
      \<Longrightarrow> stored t' k = stored t k \<or> rewritten key carries (set b) (stored t') k"
    and written_all: "ready t \<Longrightarrow> b \<noteq> [] \<Longrightarrow> list_all suits b \<Longrightarrow> ta_write ta t b = (n, None, t')
      \<Longrightarrow> rc \<in> set b \<Longrightarrow> rewritten key carries (set b) (stored t') (key rc)"
    and carries_same: "ready t \<Longrightarrow> suits rc \<Longrightarrow> suits rc' \<Longrightarrow> key rc = key rc' \<Longrightarrow> carries v rc \<Longrightarrow> carries v rc'"
begin

definition kept :: "'t \<Rightarrow> go_record list \<Rightarrow> 't \<Rightarrow> bool" where
  "kept t0 ws t \<longleftrightarrow> ready t \<and> list_all suits ws \<and>
     (\<forall>rc \<in> set ws. rewritten key carries {rc} (stored t) (key rc)) \<and>
     (\<forall>k. stored t k = stored t0 k \<or> rewritten key carries {rc. suits rc} (stored t) k)"

lemma kept_write:
  assumes "kept t0 ws t" and "b \<noteq> []" and "list_all suits b" and "ta_write ta t b = (n, err, t')"
  shows "kept t0 ws t'"
proof -
  have r: "ready t" using assms(1) by (simp add: kept_def)
  have same: "carries v rc \<longleftrightarrow> carries v rc'" if "suits rc" "suits rc'" "key rc = key rc'" for v rc rc'
    using carries_same [OF r that] carries_same [OF r that(2,1) that(3) [symmetric]] by blast
  have b: "suits rc" if "rc \<in> set b" for rc using that assms(3) by (simp add: list_all_iff)
  note only = written_only [OF r assms(2,3,4)]
  have "rewritten key carries {rc} (stored t') (key rc)" if "rc \<in> set ws" for rc
  proof -
    have s: "suits rc" using that assms(1) by (auto simp: kept_def list_all_iff)
    have old: "rewritten key carries {rc} (stored t) (key rc)" using that assms(1) by (simp add: kept_def)
    from only [of "key rc"] show ?thesis
    proof
      assume "stored t' (key rc) = stored t (key rc)"
      with old show ?thesis by (simp add: rewritten_def)
    next
      assume "rewritten key carries (set b) (stored t') (key rc)"
      with same s b show ?thesis unfolding rewritten_def by blast
    qed
  qed
  moreover have "stored t' k = stored t0 k \<or> rewritten key carries {rc. suits rc} (stored t') k" for k
  proof -
    have "stored t k = stored t0 k \<or> rewritten key carries {rc. suits rc} (stored t) k"
      using assms(1) by (simp add: kept_def)
    with only [of k] b show ?thesis unfolding rewritten_def by auto
  qed
  ultimately show ?thesis using assms(1) still_ready [OF r assms(2,3,4)] by (simp add: kept_def)
qed

lemma kept_acknowledged:
  assumes "kept t0 ws t" and "b \<noteq> []" and "list_all suits b" and "ta_write ta t b = (n, None, t')"
  shows "kept t0 (b @ ws) t'"
proof -
  have r: "ready t" using assms(1) by (simp add: kept_def)
  have "rewritten key carries {rc} (stored t') (key rc)" if "rc \<in> set b" for rc
    using written_all [OF r assms(2-4) that] carries_same [OF r] that assms(3)
    unfolding rewritten_def list_all_iff by blast
  with kept_write [OF assms] assms(3) show ?thesis by (auto simp: kept_def)
qed

end

sublocale upserting_target \<subseteq> up: delivering_target ta suits "kept t0" for t0
  by unfold_locales (rule kept_acknowledged kept_write; assumption)+

context upserting_target
begin

lemma kept_other: "kept t0 ws t \<Longrightarrow> stored t k = stored t0 k \<or> k \<in> key ` {rc. suits rc}"
  unfolding kept_def rewritten_def by blast

text \<open>Wherever a run stops, also half-way through a batch, it has touched no other key.\<close>

lemma interrupted_run:
  assumes "caps_ok env" and "ready t0" and "\<forall>x \<in> set (all_records source parts). suits (env_map env x)"
    and "run_from (deliver ta env) es (start_pipeline env source parts st q, t0) = Some (s, t)"
  shows "kept t0 (written s) t"
proof -
  have "kept t0 [] t0" using assms(2) by (simp add: kept_def)
  from up.migration_delivers [OF assms(1) this assms(3,4)] show ?thesis .
qed

lemma migration_upserts:
  assumes "caps_ok env" and "1 \<le> num_transformers (env_cfg env)"
    and "ready t0" and "\<forall>x \<in> set (all_records source parts). suits (env_map env x)"
    and "run_from (deliver ta env) es (start_pipeline env source parts st q, t0) = Some (s, t)"
    and "finished s" and "first_err s = None"
  shows "\<forall>x \<in> set (all_records source parts). env_map env x \<notin> set (rejected s) \<longrightarrow>
      (\<exists>v. stored t (key (env_map env x)) = Some v \<and> carries v (env_map env x))"
    and "stored t k = stored t0 k \<or> k \<in> key ` {rc. suits rc}"
proof -
  have kept: "kept t0 (written s) t" using assms(1,3,4,5) by (rule interrupted_run)
  have all: "mset (written s) + mset (rejected s) = image_mset (env_map env) (mset (all_records source parts))"
    using migration_accounts [OF assms(1,2) _ assms(6,7)] deliver_run [OF assms(5)] by (simp add: reaches_def)
  show "\<forall>x \<in> set (all_records source parts). env_map env x \<notin> set (rejected s) \<longrightarrow>
      (\<exists>v. stored t (key (env_map env x)) = Some v \<and> carries v (env_map env x))"
  proof (intro ballI impI)
    fix x assume "x \<in> set (all_records source parts)" "env_map env x \<notin> set (rejected s)"
    then have "env_map env x \<in># mset (written s) + mset (rejected s)" unfolding all by simp
    with \<open>env_map env x \<notin> set (rejected s)\<close> have "env_map env x \<in> set (written s)" by simp
    with kept show "\<exists>v. stored t (key (env_map env x)) = Some v \<and> carries v (env_map env x)"
      unfolding kept_def rewritten_def by auto
  qed
  show "stored t k = stored t0 k \<or> k \<in> key ` {rc. suits rc}"
    using kept by (rule kept_other)
qed

text \<open>A complete run after one that was interrupted.\<close>

lemma rerun_upserts:
  assumes "caps_ok env" and "caps_ok env'" and "1 \<le> num_transformers (env_cfg env')" and "ready t0"
    and "\<forall>x \<in> set (all_records source parts). suits (env_map env x)"
    and "\<forall>x \<in> set (all_records source' parts'). suits (env_map env' x)"
    and "run_from (deliver ta env) es (start_pipeline env source parts st q, t0) = Some (s1, t1)"
    and "run_from (deliver ta env') es' (start_pipeline env' source' parts' st' q', t1) = Some (s, t)"
    and "finished s" and "first_err s = None"
  shows "\<forall>x \<in> set (all_records source' parts'). env_map env' x \<notin> set (rejected s) \<longrightarrow>
      (\<exists>v. stored t (key (env_map env' x)) = Some v \<and> carries v (env_map env' x))"
    and "stored t k = stored t0 k \<or> k \<in> key ` {rc. suits rc}"
proof -
  have kept: "kept t0 (written s1) t1" using assms(1,4,5,7) by (rule interrupted_run)
  then have "ready t1" by (simp add: kept_def)
  note second = migration_upserts [OF assms(2,3) this assms(6,8-10)]
  show "\<forall>x \<in> set (all_records source' parts'). env_map env' x \<notin> set (rejected s) \<longrightarrow>
      (\<exists>v. stored t (key (env_map env' x)) = Some v \<and> carries v (env_map env' x))" by (rule second(1))
  show "stored t k = stored t0 k \<or> k \<in> key ` {rc. suits rc}"
    using second(2) [of k] kept_other [OF kept, of k] by auto
qed

end

section \<open>MongoDB\<close>

text \<open>
  What the writer relies on: a replacement with upsert leaves its document under its identifier; a
  bulk write that succeeds has done all of them, in some order, and one that fails some of them.
\<close>

type_synonym mg_collections = "string \<Rightarrow> string \<Rightarrow> gval \<Rightarrow> go_map option"

definition bulk_laws :: "'d mongo_client \<Rightarrow> ('d \<Rightarrow> mg_collections) \<Rightarrow> bool" where
  "bulk_laws cl coll \<longleftrightarrow>
     (\<forall>d db c ms n err d'. mg_bulk cl d db c ms = (n, err, d') \<longrightarrow>
        (\<forall>k. coll d' db c k = coll d db c k \<or> (\<exists>doc. (k, doc) \<in> set ms \<and> coll d' db c k = Some doc)) \<and>
        (err = None \<longrightarrow> (\<forall>k \<in> fst ` set ms. \<exists>doc. (k, doc) \<in> set ms \<and> coll d' db c k = Some doc)))"

definition same_collection :: "string \<Rightarrow> go_record set \<Rightarrow> bool" where
  "same_collection c rs \<longleftrightarrow> (\<forall>rc \<in> rs. source_table (rec_meta rc) = c)"

definition mongo_key :: "go_record \<Rightarrow> gval" where
  "mongo_key rc = fst (replacement rc)"

definition mongo_doc :: "go_record \<Rightarrow> go_map" where
  "mongo_doc rc = snd (replacement rc)"

text \<open>Records with the same key are the same record, as far as the target is concerned.\<close>

definition key_determines :: "(go_record \<Rightarrow> 'k) \<Rightarrow> (go_record \<Rightarrow> 'v) \<Rightarrow> go_record set \<Rightarrow> bool" where
  "key_determines key val rs \<longleftrightarrow> (\<forall>rc \<in> rs. \<forall>rc' \<in> rs. key rc = key rc' \<longrightarrow> val rc = val rc')"

definition mongo_ready ::
  "'d mongo_client \<Rightarrow> ('d \<Rightarrow> mg_collections) \<Rightarrow> string \<Rightarrow> go_record set \<Rightarrow> bool" where
  "mongo_ready cl coll c rs \<longleftrightarrow>
     bulk_laws cl coll \<and> same_collection c rs \<and> key_determines mongo_key mongo_doc rs"

lemma mongo_write:
  assumes "mongo_ready cl coll c rs" and "b \<noteq> []" and "set b \<subseteq> rs"
    and "mongo_write_batch cl db d b = (n, err, d')"
  shows "coll d' db c k = coll d db c k \<or> (\<exists>rc \<in> set b. mongo_key rc = k \<and> coll d' db c k = Some (mongo_doc rc))"
    and "err = None \<Longrightarrow> rc \<in> set b \<Longrightarrow>
      \<exists>rc' \<in> set b. mongo_key rc' = mongo_key rc \<and> coll d' db c (mongo_key rc) = Some (mongo_doc rc')"
proof -
  have c: "source_table (rec_meta (hd b)) = c"
    using assms(1) subsetD [OF assms(3) hd_in_set [OF assms(2)]] by (simp add: mongo_ready_def same_collection_def)
  obtain m e where b: "mg_bulk cl d db c (map replacement b) = (m, e, d')" "err = None \<longleftrightarrow> e = None"
    using assms(2,4) c by (auto simp: mongo_write_batch_def split: prod.splits option.splits)
  have laws: "\<forall>k. coll d' db c k = coll d db c k \<or>
        (\<exists>doc. (k, doc) \<in> set (map replacement b) \<and> coll d' db c k = Some doc)"
    "err = None \<Longrightarrow> \<forall>k \<in> fst ` set (map replacement b).
        \<exists>doc. (k, doc) \<in> set (map replacement b) \<and> coll d' db c k = Some doc"
    using assms(1) b unfolding mongo_ready_def bulk_laws_def by blast+
  have member: "(k, doc) \<in> set (map replacement b) \<longleftrightarrow> (\<exists>rc \<in> set b. mongo_key rc = k \<and> mongo_doc rc = doc)" for k doc
    by (auto simp: image_iff prod_eq_iff mongo_key_def mongo_doc_def)
  show "coll d' db c k = coll d db c k \<or> (\<exists>rc \<in> set b. mongo_key rc = k \<and> coll d' db c k = Some (mongo_doc rc))"
    using laws(1) unfolding member by blast
  show "\<exists>rc' \<in> set b. mongo_key rc' = mongo_key rc \<and> coll d' db c (mongo_key rc) = Some (mongo_doc rc')"
    if "err = None" "rc \<in> set b"
  proof -
    have "mongo_key rc \<in> fst ` set (map replacement b)" using that(2) by (simp add: mongo_key_def)
    with laws(2) [OF that(1)] show ?thesis unfolding member by blast
  qed
qed

interpretation mgd: upserting_target "mongo_target cl cfg" "\<lambda>d. mongo_ready cl coll c rs" "\<lambda>rc. rc \<in> rs"
    "\<lambda>d. coll d (db_database cfg) c" mongo_key "\<lambda>doc rc. doc = mongo_doc rc"
  for cl :: "'d mongo_client" and cfg coll c rs
proof unfold_locales
  fix t t' :: 'd and b n err k and rc rc' v
  assume r: "mongo_ready cl coll c rs"
  show "doc = mongo_doc rc'" if "rc \<in> rs" "rc' \<in> rs" "mongo_key rc = mongo_key rc'" "doc = mongo_doc rc" for doc
    using r that unfolding mongo_ready_def key_determines_def by blast
  assume b: "b \<noteq> []" "list_all (\<lambda>rc. rc \<in> rs) b" "ta_write (mongo_target cl cfg) t b = (n, err, t')"
  then have w: "set b \<subseteq> rs" "mongo_write_batch cl (db_database cfg) t b = (n, err, t')"
    by (auto simp: list_all_iff mongo_target_def)
  show "coll t' (db_database cfg) c k = coll t (db_database cfg) c k \<or>
      rewritten mongo_key (\<lambda>doc rc. doc = mongo_doc rc) (set b) (coll t' (db_database cfg) c) k"
    using mongo_write(1) [OF r b(1) w, of k] unfolding rewritten_def by blast
next
  fix t t' :: 'd and b n rc
  assume r: "mongo_ready cl coll c rs" and b: "b \<noteq> []" "list_all (\<lambda>rc. rc \<in> rs) b"
    "ta_write (mongo_target cl cfg) t b = (n, None, t')" "rc \<in> set b"
  then have w: "set b \<subseteq> rs" "mongo_write_batch cl (db_database cfg) t b = (n, None, t')"
    by (auto simp: list_all_iff mongo_target_def)
  show "rewritten mongo_key (\<lambda>doc rc. doc = mongo_doc rc) (set b) (coll t' (db_database cfg) c) (mongo_key rc)"
    using mongo_write(2) [OF r b(1) w refl b(4)] unfolding rewritten_def by blast
qed

text \<open>C11: a migration into MongoDB, from any source and under every interleaving: when it returns nil,
  every record that was not rejected is the document under its identifier, although bulk writes that
  failed half-way were repeated record by record, and every other document is as it was. Records
  with one identifier must agree in their data.\<close>

theorem mongo_migration_delivers:
  assumes "caps_ok env" and "1 \<le> num_transformers (env_cfg env)"
    and "mongo_ready cl coll c (env_map env ` set (all_records source parts))"
    and "run_from (deliver (mongo_target cl cfg) env) es (start_pipeline env source parts st q, d) = Some (s, d')"
    and "finished s" and "first_err s = None"
  shows "(\<forall>x \<in> env_map env ` set (all_records source parts). x \<notin> set (rejected s) \<longrightarrow>
      coll d' (db_database cfg) c (mongo_key x) = Some (mongo_doc x)) \<and>
    (\<forall>k. k \<notin> mongo_key ` env_map env ` set (all_records source parts) \<longrightarrow>
      coll d' (db_database cfg) c k = coll d (db_database cfg) c k)"
  using mgd.migration_upserts [OF assms(1-3) _ assms(4-6)] by blast+

text \<open>C12: a migration into MongoDB that crashed or failed, at any point and with any batches half written, can
  be run again from the start (a new run has a new operation ID and finds no checkpoints): when the
  second run returns nil, the collection is as after a single run: every record that was not
  rejected is the document under its identifier, and documents under other identifiers are what
  they were before the first run.\<close>

theorem mongo_rerun_after_crash:
  assumes "caps_ok env" and "caps_ok env'" and "1 \<le> num_transformers (env_cfg env')"
    and "env_map env' = env_map env"
    and "mongo_ready cl coll c (env_map env ` set (all_records source parts))"
    and "run_from (deliver (mongo_target cl cfg) env) es (start_pipeline env source parts st q, d) = Some (s1, d1)"
    and "run_from (deliver (mongo_target cl cfg) env') es' (start_pipeline env' source parts st' q', d1) = Some (s, d')"
    and "finished s" and "first_err s = None"
  shows "(\<forall>x \<in> env_map env ` set (all_records source parts). x \<notin> set (rejected s) \<longrightarrow>
      coll d' (db_database cfg) c (mongo_key x) = Some (mongo_doc x)) \<and>
    (\<forall>k. k \<notin> mongo_key ` env_map env ` set (all_records source parts) \<longrightarrow>
      coll d' (db_database cfg) c k = coll d (db_database cfg) c k)"
  using mgd.rerun_upserts [OF assms(1-3,5) _ _ assms(6-9)] unfolding assms(4) by blast

text \<open>Two records into a server that refuses every bulk write of more than one after its first.\<close>

definition picky_mongo :: "mg_collections mongo_client" where
  "picky_mongo =
     \<lparr>mg_connect = (\<lambda>u. Inr (\<lambda>db c k. None)), mg_ping = (\<lambda>d. None), mg_stats = (\<lambda>d db c. Inr (0, 0)),
      mg_split = (\<lambda>d c n. Inr ([], 1)), mg_sample = (\<lambda>d db c n. Inr []), mg_find = (\<lambda>d db c f. Inr ([], None)),
      mg_first = (\<lambda>d db c n. Inr ([], None)),
      mg_bulk = (\<lambda>d db c ms. (Some 1, if length ms \<le> 1 then None else Some (ErrMsg ''bulk''),
         d(db := (d db)(c := upsert_all (d db c) (take 1 ms))))),
      mg_names = (\<lambda>d db c. Inr []), mg_create = (\<lambda>d db c. (None, d)), mg_index = (\<lambda>d db c i. (None, d))\<rparr>"

definition shop_config :: db_config where
  "shop_config = \<lparr>db_type = ''mongo'', db_host = ''h'', db_hosts = [], db_port = 27017, db_user = [], db_password = [],
     db_database = ''shop'', db_keyspace = [], db_tables = [''users''], db_params = []\<rparr>"

lemma picky_mongo_laws: "bulk_laws picky_mongo (\<lambda>d. d)"
proof -
  have "upsert_all f (take 1 ms) k = f k \<or> (\<exists>doc. (k, doc) \<in> set ms \<and> upsert_all f (take 1 ms) k = Some doc)" for f ms k
    by (cases ms; cases "fst (hd ms) = k") auto
  moreover have "\<exists>doc. (k, doc) \<in> set ms \<and> upsert_all f (take 1 ms) k = Some doc"
    if "length ms \<le> 1" "k \<in> fst ` set ms" for f ms k
    using that by (cases ms) auto
  ultimately show ?thesis by (auto simp: bulk_laws_def picky_mongo_def)
qed

definition isolating_run :: "event list" where
  "isolating_run =
     [SrcSend 0, SrcSend 0, SrcClose 0, SrcReturn 0, RTake 0, RSend 0, RTake 0, RSend 0, RTake 0, RFinish 0,
      TTake 0, TTake 0, TSend 0, WTake 0, WFail 0, WAckOne 0, WAckOne 0, CloseRecords, TTake 0,
      CloseBatches, WTake 0]"

abbreviation two_records :: "(operation_meta option ref_bucket, stored_checkpoint option ref_bucket) pipeline" where
  "two_records \<equiv> start_pipeline (ex_env 1 1 2) (ex_source [1, 2]) [ex_part] ref_store None"

lemma picky_mongo_run:
  "\<exists>s d'. run_from (deliver (mongo_target picky_mongo shop_config) (ex_env 1 1 2)) isolating_run
     (two_records, \<lambda>db c k. None) = Some (s, d') \<and> finished s \<and> first_err s = None \<and> rejected s = []"
  by (simp add: isolating_run_def ex_defs deliver_def finished_def mongo_target_def mongo_write_batch_def picky_mongo_def)

lemma two_records_env: "env_map (ex_env 1 1 2) ` set (all_records (ex_source [1, 2]) [ex_part]) =
    {ex_record ''p0'' 1, ex_record ''p0'' 2}"
  by (simp add: ex_env_def all_records_def ex_source_def ex_part_def)

lemma two_records_ready:
  "mongo_ready picky_mongo (\<lambda>d. d) ''users'' (env_map (ex_env 1 1 2) ` set (all_records (ex_source [1, 2]) [ex_part]))"
  unfolding two_records_env
  by (simp add: mongo_ready_def picky_mongo_laws same_collection_def key_determines_def mongo_key_def
      replacement_def ex_record_def show_int_def)

theorem mongo_migration_delivers_witness:
  "\<exists>s d'. run_from (deliver (mongo_target picky_mongo shop_config) (ex_env 1 1 2)) isolating_run
     (two_records, \<lambda>db c k. None) = Some (s, d') \<and>
     d' ''shop'' ''users'' (VString (show_nat 2)) = Some [(''id'', VInt64 2)] \<and> d' ''shop'' ''users'' (VString (show_nat 3)) = None"
proof -
  obtain s d' where run: "run_from (deliver (mongo_target picky_mongo shop_config) (ex_env 1 1 2)) isolating_run
     (two_records, \<lambda>db c k. None) = Some (s, d')" "finished s" "first_err s = None" "rejected s = []"
    using picky_mongo_run by blast
  have env: "caps_ok (ex_env 1 1 2)" "1 \<le> num_transformers (env_cfg (ex_env 1 1 2))"
    by (simp_all add: caps_ok_def ex_env_def record_cap_def batch_cap_def)
  from mongo_migration_delivers [OF env two_records_ready run(1-3)] run(1,4)
  show ?thesis unfolding two_records_env
    by (auto simp: mongo_key_def mongo_doc_def replacement_def ex_record_def shop_config_def show_int_def
        map_del_def)
qed

text \<open>The same migration, killed after the first record of its batch was written again, and then repeated.\<close>

lemma picky_mongo_crash:
  "\<exists>s1 d1. run_from (deliver (mongo_target picky_mongo shop_config) (ex_env 1 1 2)) (take 16 isolating_run)
     (two_records, \<lambda>db c k. None) = Some (s1, d1) \<and> d1 ''shop'' ''users'' (VString (show_nat 2)) = None \<and>
   (\<exists>s d'. run_from (deliver (mongo_target picky_mongo shop_config) (ex_env 1 1 2)) isolating_run (two_records, d1) = Some (s, d') \<and>
     finished s \<and> first_err s = None \<and> rejected s = [])"
  by (simp add: isolating_run_def ex_defs deliver_def finished_def mongo_target_def mongo_write_batch_def picky_mongo_def
      shop_config_def replacement_def ex_record_def show_int_def map_del_def)

theorem mongo_rerun_after_crash_witness:
  "\<exists>s1 d1 s d'. run_from (deliver (mongo_target picky_mongo shop_config) (ex_env 1 1 2)) (take 16 isolating_run)
       (two_records, \<lambda>db c k. None) = Some (s1, d1) \<and> d1 ''shop'' ''users'' (VString (show_nat 2)) = None \<and>
     run_from (deliver (mongo_target picky_mongo shop_config) (ex_env 1 1 2)) isolating_run (two_records, d1) = Some (s, d') \<and>
     d' ''shop'' ''users'' (VString (show_nat 1)) = Some [(''id'', VInt64 1)] \<and>
     d' ''shop'' ''users'' (VString (show_nat 2)) = Some [(''id'', VInt64 2)] \<and> d' ''shop'' ''users'' (VString (show_nat 3)) = None"
proof -
  obtain s1 d1 s d' where crash: "run_from (deliver (mongo_target picky_mongo shop_config) (ex_env 1 1 2)) (take 16 isolating_run)
      (two_records, \<lambda>db c k. None) = Some (s1, d1)" "d1 ''shop'' ''users'' (VString (show_nat 2)) = None"
    and again: "run_from (deliver (mongo_target picky_mongo shop_config) (ex_env 1 1 2)) isolating_run (two_records, d1) = Some (s, d')"
      "finished s" "first_err s = None" "rejected s = []"
    using picky_mongo_crash by blast
  have env: "caps_ok (ex_env 1 1 2)" "1 \<le> num_transformers (env_cfg (ex_env 1 1 2))"
    by (simp_all add: caps_ok_def ex_env_def record_cap_def batch_cap_def)
  from mongo_rerun_after_crash [OF env(1,1,2) refl two_records_ready crash(1) again(1-3)]
  have "(\<forall>x \<in> {ex_record ''p0'' 1, ex_record ''p0'' 2}. d' ''shop'' ''users'' (mongo_key x) = Some (mongo_doc x)) \<and>
    (\<forall>k. k \<notin> mongo_key ` {ex_record ''p0'' 1, ex_record ''p0'' 2} \<longrightarrow> d' ''shop'' ''users'' k = None)"
    unfolding two_records_env by (simp add: again(4) shop_config_def)
  with crash again(1) show ?thesis
    by (auto simp: mongo_key_def mongo_doc_def replacement_def ex_record_def show_int_def map_del_def)
qed

section \<open>Cassandra\<close>

text \<open>
  What the writer relies on, for a table \<open>t\<close> with the columns \<open>cs\<close> whose primary key \<open>pk\<close> is read off a
  row: an \<open>INSERT\<close> sets the columns it names in the row with its key. A batch that succeeds has
  inserted all of its rows, one that fails some of them. Two different rows with one key in a batch
  have the same timestamp, and nothing is said of them.
\<close>

type_synonym 'k cass_rows = "'k \<Rightarrow> (string \<rightharpoonup> gval) option"

definition inserted :: "(string \<rightharpoonup> gval) option \<Rightarrow> go_record \<Rightarrow> string \<rightharpoonup> gval" where
  "inserted old rc = (case old of None \<Rightarrow> Map.empty | Some row \<Rightarrow> row) ++ map_of (rec_data rc)"

definition cass_key :: "((string \<rightharpoonup> gval) \<Rightarrow> 'k) \<Rightarrow> go_record \<Rightarrow> 'k" where
  "cass_key pk rc = pk (map_of (rec_data rc))"

definition full_rows :: "string set \<Rightarrow> go_record set \<Rightarrow> bool" where
  "full_rows cs rs \<longleftrightarrow> (\<forall>rc \<in> rs. distinct (map fst (rec_data rc)) \<and> fst ` set (rec_data rc) = cs)"

definition insert_laws ::
  "'d cql_client \<Rightarrow> string \<Rightarrow> string set \<Rightarrow> ((string \<rightharpoonup> gval) \<Rightarrow> 'k) \<Rightarrow> ('d \<Rightarrow> 'k cass_rows) \<Rightarrow> bool" where
  "insert_laws cl t cs pk tab \<longleftrightarrow>
     (\<forall>d b err d'. cq_batch cl d (map (insert_stmt t) b) = (err, d') \<longrightarrow> full_rows cs (set b) \<longrightarrow>
        key_determines (cass_key pk) (\<lambda>rc. map_of (rec_data rc)) (set b) \<longrightarrow>
        (\<forall>k. tab d' k = tab d k \<or>
           (\<exists>rc \<in> set b. cass_key pk rc = k \<and> tab d' k = Some (inserted (tab d k) rc))) \<and>
        (err = None \<longrightarrow> (\<forall>rc \<in> set b. tab d' (cass_key pk rc) = Some (inserted (tab d (cass_key pk rc)) rc))))"

definition cass_ready ::
  "'d cql_client \<Rightarrow> string \<Rightarrow> string set \<Rightarrow> ((string \<rightharpoonup> gval) \<Rightarrow> 'k) \<Rightarrow> ('d \<Rightarrow> 'k cass_rows)
   \<Rightarrow> go_record set \<Rightarrow> cass_adapter \<times> 'd \<Rightarrow> bool" where
  "cass_ready cl t cs pk tab rs ad \<longleftrightarrow>
     insert_laws cl t cs pk tab \<and> ca_writer (fst ad) = Some t \<and> full_rows cs rs \<and>
     key_determines (cass_key pk) (\<lambda>rc. map_of (rec_data rc)) rs"

definition cass_carries :: "(string \<rightharpoonup> gval) \<Rightarrow> go_record \<Rightarrow> bool" where
  "cass_carries row rc \<longleftrightarrow> map_of (rec_data rc) \<subseteq>\<^sub>m row"

lemma inserted_carries [simp]: "cass_carries (inserted old rc) rc"
  by (simp add: cass_carries_def inserted_def)

lemma key_determines_subset: "key_determines key val rs \<Longrightarrow> rs' \<subseteq> rs \<Longrightarrow> key_determines key val rs'"
  unfolding key_determines_def by blast

lemma full_rows_subset: "full_rows cs rs \<Longrightarrow> rs' \<subseteq> rs \<Longrightarrow> full_rows cs rs'"
  unfolding full_rows_def by blast

text \<open>One batch of statements, for records that are all among \<open>rs\<close>.\<close>

lemma cass_batch_effect:
  assumes "insert_laws cl t cs pk tab" and "full_rows cs rs"
    and "key_determines (cass_key pk) (\<lambda>rc. map_of (rec_data rc)) rs"
    and "set b \<subseteq> rs" and "cq_batch cl d (map (insert_stmt t) b) = (err, d')"
  shows "tab d' k = tab d k \<or> rewritten (cass_key pk) cass_carries (set b) (tab d') k"
    and "err = None \<Longrightarrow> rc \<in> set b \<Longrightarrow> rewritten (cass_key pk) cass_carries (set b) (tab d') (cass_key pk rc)"
proof -
  note ok = full_rows_subset [OF assms(2,4)] key_determines_subset [OF assms(3,4)]
  from assms(1,5) ok have laws:
    "tab d' k = tab d k \<or> (\<exists>rc \<in> set b. cass_key pk rc = k \<and> tab d' k = Some (inserted (tab d k) rc))"
    "err = None \<Longrightarrow> \<forall>rc \<in> set b. tab d' (cass_key pk rc) = Some (inserted (tab d (cass_key pk rc)) rc)" for k
    unfolding insert_laws_def by blast+
  show "tab d' k = tab d k \<or> rewritten (cass_key pk) cass_carries (set b) (tab d') k"
    using laws(1) [of k] inserted_carries unfolding rewritten_def by blast
  show "rewritten (cass_key pk) cass_carries (set b) (tab d') (cass_key pk rc)" if "err = None" "rc \<in> set b"
    using laws(2) [OF that(1)] that(2) inserted_carries unfolding rewritten_def by blast
qed

lemma rewritten_mono: "rewritten key carries rs f k \<Longrightarrow> rs \<subseteq> rs' \<Longrightarrow> rewritten key carries rs' f k"
  unfolding rewritten_def by blast

lemma exec_pieces_effect:
  assumes "insert_laws cl t cs pk tab" and "full_rows cs rs"
    and "key_determines (cass_key pk) (\<lambda>rc. map_of (rec_data rc)) rs"
    and "set (concat subs) \<subseteq> rs" and "exec_pieces cl d t subs w = (n, err, d')"
  shows "(\<forall>k. tab d' k = tab d k \<or> rewritten (cass_key pk) cass_carries (set (concat subs)) (tab d') k) \<and>
    (err = None \<longrightarrow> (\<forall>rc \<in> set (concat subs).
       rewritten (cass_key pk) cass_carries (set (concat subs)) (tab d') (cass_key pk rc)))"
  using assms(4,5)
proof (induction subs arbitrary: d w)
  case (Cons sub subs)
  let ?all = "set (concat (sub # subs))"
  obtain e d1 where b: "cq_batch cl d (map (insert_stmt t) sub) = (e, d1)" by fastforce
  have sub: "set sub \<subseteq> rs" "set (concat subs) \<subseteq> rs" using Cons.prems(1) by auto
  note one = cass_batch_effect [OF assms(1-3) sub(1) b]
  have mono: "rewritten (cass_key pk) cass_carries rs' f k \<Longrightarrow> rs' \<subseteq> ?all \<Longrightarrow>
      rewritten (cass_key pk) cass_carries ?all f k" for rs' and f :: "_ cass_rows" and k
    by (rule rewritten_mono)
  show ?case
  proof (cases e)
    case (Some x)
    with b Cons.prems(2) have "d' = d1" "err \<noteq> None" by auto
    with one(1) mono [of "set sub"] show ?thesis by auto
  next
    case None
    with b Cons.prems(2) have rest: "exec_pieces cl d1 t subs (w + length sub) = (n, err, d')" by simp
    from Cons.IH [OF sub(2) rest] have ih:
      "\<And>k. tab d' k = tab d1 k \<or> rewritten (cass_key pk) cass_carries ?all (tab d') k"
      "err = None \<Longrightarrow> \<forall>rc \<in> set (concat subs). rewritten (cass_key pk) cass_carries ?all (tab d') (cass_key pk rc)"
      using mono [of "set (concat subs)"] by auto
    have "tab d' k = tab d k \<or> rewritten (cass_key pk) cass_carries ?all (tab d') k" for k
      using ih(1) [of k] one(1) [of k] mono [of "set sub" "tab d1" k] by (auto simp: rewritten_def)
    moreover have "rewritten (cass_key pk) cass_carries ?all (tab d') (cass_key pk rc)" if "rc \<in> set sub" for rc
      using ih(1) [of "cass_key pk rc"] one(2) [OF None that] mono [of "set sub" "tab d1" "cass_key pk rc"]
      by (auto simp: rewritten_def)
    ultimately show ?thesis using ih(2) by auto
  qed
qed simp

lemma cass_write:
  assumes "cass_ready cl t cs pk tab rs ad" and "b \<noteq> []" and "set b \<subseteq> rs"
    and "ta_write (cass_target cl) ad b = (n, err, ad')"
  shows "cass_ready cl t cs pk tab rs ad'"
    and "tab (snd ad') k = tab (snd ad) k \<or> rewritten (cass_key pk) cass_carries (set b) (tab (snd ad')) k"
    and "err = None \<Longrightarrow> rc \<in> set b \<Longrightarrow> rewritten (cass_key pk) cass_carries (set b) (tab (snd ad')) (cass_key pk rc)"
proof -
  obtain m e d' where w: "cass_write_rows cl (snd ad) t b = (m, e, d')"
    by (cases "cass_write_rows cl (snd ad) t b") auto
  with assms(1,2,4) have ad': "ad' = ((fst ad)\<lparr>ca_writer := Some t\<rparr>, d')" "err = e"
    by (auto simp: cass_target_def cass_write_batch_def cass_ready_def case_prod_unfold Let_def)
  with assms(1) show "cass_ready cl t cs pk tab rs ad'" by (simp add: cass_ready_def)
  have pieces: "exec_pieces cl (snd ad) t (chunks_of 100 b) 0 = (m, e, d')" "concat (chunks_of 100 b) = b"
    using w cass_loop_pieces [of cl "snd ad" t b 0 0] assms(2) by (simp_all add: cass_write_rows_def chunks_of_concat)
  note laws = assms(1) [unfolded cass_ready_def]
  have effect: "(\<forall>k. tab d' k = tab (snd ad) k \<or> rewritten (cass_key pk) cass_carries (set b) (tab d') k) \<and>
    (e = None \<longrightarrow> (\<forall>rc \<in> set b. rewritten (cass_key pk) cass_carries (set b) (tab d') (cass_key pk rc)))"
    using exec_pieces_effect [of cl t cs pk tab rs "chunks_of 100 b", OF _ _ _ _ pieces(1)] laws assms(3)
    unfolding pieces(2) by blast
  then show "tab (snd ad') k = tab (snd ad) k \<or> rewritten (cass_key pk) cass_carries (set b) (tab (snd ad')) k"
    by (simp add: ad')
  show "rewritten (cass_key pk) cass_carries (set b) (tab (snd ad')) (cass_key pk rc)" if "err = None" "rc \<in> set b"
    using effect that by (simp add: ad')
qed

interpretation csd: upserting_target "cass_target cl" "cass_ready cl t cs pk tab rs" "\<lambda>rc. rc \<in> rs"
    "\<lambda>ad. tab (snd ad)" "cass_key pk" cass_carries
  for cl :: "'d cql_client" and t cs pk tab rs
proof unfold_locales
  fix ad ad' :: "cass_adapter \<times> 'd" and b n err
  assume "cass_ready cl t cs pk tab rs ad" "b \<noteq> []" "list_all (\<lambda>rc. rc \<in> rs) b"
    "ta_write (cass_target cl) ad b = (n, err, ad')"
  then have w: "cass_ready cl t cs pk tab rs ad" "b \<noteq> []" "set b \<subseteq> rs" "ta_write (cass_target cl) ad b = (n, err, ad')"
    by (auto simp: list_all_iff)
  from cass_write(1) [OF w] show "cass_ready cl t cs pk tab rs ad'" .
  from cass_write(2) [OF w] show "tab (snd ad') k = tab (snd ad) k \<or> rewritten (cass_key pk) cass_carries (set b) (tab (snd ad')) k" for k .
next
  fix ad ad' :: "cass_adapter \<times> 'd" and b n rc
  assume "cass_ready cl t cs pk tab rs ad" "b \<noteq> []" "list_all (\<lambda>rc. rc \<in> rs) b"
    "ta_write (cass_target cl) ad b = (n, None, ad')" and rc: "rc \<in> set b"
  then have w: "cass_ready cl t cs pk tab rs ad" "b \<noteq> []" "set b \<subseteq> rs" "ta_write (cass_target cl) ad b = (n, None, ad')"
    by (auto simp: list_all_iff)
  from cass_write(3) [OF w refl rc] show "rewritten (cass_key pk) cass_carries (set b) (tab (snd ad')) (cass_key pk rc)" .
next
  fix ad :: "cass_adapter \<times> 'd" and rc rc' v
  assume "cass_ready cl t cs pk tab rs ad" "rc \<in> rs" "rc' \<in> rs" "cass_key pk rc = cass_key pk rc'" "cass_carries v rc"
  then show "cass_carries v rc'" unfolding cass_ready_def key_determines_def cass_carries_def by metis
qed

text \<open>C14: a migration into Cassandra, from any source and under every interleaving: when it returns nil,
  every record that was not rejected has its values in the row under its key, although batches of
  100 that failed half-way were repeated record by record, and rows with other keys are as they
  were. Records with one key must agree in their data.\<close>

theorem cass_migration_delivers:
  assumes "caps_ok env" and "1 \<le> num_transformers (env_cfg env)"
    and "cass_ready cl t cs pk tab (env_map env ` set (all_records source parts)) (a, d)"
    and "run_from (deliver (cass_target cl) env) es (start_pipeline env source parts st q, a, d) = Some (s, a', d')"
    and "finished s" and "first_err s = None"
  shows "(\<forall>x \<in> env_map env ` set (all_records source parts). x \<notin> set (rejected s) \<longrightarrow>
      (\<exists>row. tab d' (cass_key pk x) = Some row \<and> map_of (rec_data x) \<subseteq>\<^sub>m row)) \<and>
    (\<forall>k. k \<notin> cass_key pk ` env_map env ` set (all_records source parts) \<longrightarrow> tab d' k = tab d k)"
  using csd.migration_upserts [OF assms(1-3) _ assms(4-6)] unfolding cass_carries_def by auto

text \<open>The same two records into a cluster that does only the first statement of a batch of several.\<close>

definition insert_id :: "gval option cass_rows \<Rightarrow> string \<times> gval list \<Rightarrow> gval option cass_rows" where
  "insert_id d stmt =
     (let v = hd (snd stmt) in
      d(Some v \<mapsto> (case d (Some v) of None \<Rightarrow> Map.empty | Some row \<Rightarrow> row)(''id'' \<mapsto> v)))"

definition picky_cluster :: "gval option cass_rows cql_client" where
  "picky_cluster =
     \<lparr>cq_connect = (\<lambda>hs p ks au. Inr (\<lambda>k. None)), cq_metadata = (\<lambda>d ks. Inr []),
      cq_select = (\<lambda>d q a b. ([], None)),
      cq_batch = (\<lambda>d ss. (if length ss \<le> 1 then None else Some (ErrMsg ''batch''), foldl insert_id d (take 1 ss))),
      cq_exec = (\<lambda>d q. (None, d))\<rparr>"

definition id_of :: "(string \<rightharpoonup> gval) \<Rightarrow> gval option" where
  "id_of row = row ''id''"

lemma one_column:
  assumes "full_rows {''id''} rs" and "rc \<in> rs"
  obtains v where "rec_data rc = [(''id'', v)]"
proof -
  from assms have d: "distinct (map fst (rec_data rc))" "fst ` set (rec_data rc) = {''id''}"
    by (auto simp: full_rows_def)
  then have "length (rec_data rc) = 1" using distinct_card [OF d(1)] by simp
  then obtain k v where "rec_data rc = [(k, v)]" by (cases "rec_data rc") auto
  with d(2) show ?thesis using that by simp
qed

lemma picky_cluster_laws: "insert_laws picky_cluster t {''id''} id_of (\<lambda>d. d)"
proof -
  have step: "insert_id d (insert_stmt t rc) = d(cass_key id_of rc \<mapsto> inserted (d (cass_key id_of rc)) rc)"
    if rc: "full_rows {''id''} rs" "rc \<in> rs" for d rs rc
  proof -
    obtain v where "rec_data rc = [(''id'', v)]" by (rule one_column [OF rc])
    then show ?thesis by (simp add: insert_id_def insert_stmt_def cass_key_def id_of_def inserted_def split: option.splits)
  qed
  show ?thesis unfolding insert_laws_def
  proof (intro allI impI)
    fix d d' :: "gval option cass_rows" and b err
    assume b: "cq_batch picky_cluster d (map (insert_stmt t) b) = (err, d')" "full_rows {''id''} (set b)"
    show "(\<forall>k. d' k = d k \<or> (\<exists>rc \<in> set b. cass_key id_of rc = k \<and> d' k = Some (inserted (d k) rc))) \<and>
      (err = None \<longrightarrow> (\<forall>rc \<in> set b. d' (cass_key id_of rc) = Some (inserted (d (cass_key id_of rc)) rc)))"
    proof (cases b)
      case Nil
      with b show ?thesis by (simp add: picky_cluster_def)
    next
      case (Cons rc rcs)
      with b step [OF b(2), of rc] have "d' = d(cass_key id_of rc \<mapsto> inserted (d (cass_key id_of rc)) rc)"
        "err = None \<longrightarrow> rcs = []"
        by (auto simp: picky_cluster_def split: if_splits)
      with Cons show ?thesis by auto
    qed
  qed
qed

definition cluster_target :: "cass_adapter \<times> gval option cass_rows" where
  "cluster_target = (\<lparr>ca_keyspace = ''ks'', ca_writer = Some ''users''\<rparr>, \<lambda>k. None)"

lemma cluster_run:
  "\<exists>s a d. run_from (deliver (cass_target picky_cluster) (ex_env 1 1 2)) isolating_run
     (two_records, cluster_target) = Some (s, a, d) \<and> finished s \<and> first_err s = None \<and> rejected s = []"
  by (simp add: isolating_run_def ex_defs deliver_def finished_def cass_target_def cass_write_batch_def
      cass_write_rows_def cass_loop.simps picky_cluster_def cluster_target_def case_prod_unfold
      Let_def)

theorem cass_migration_delivers_witness:
  "\<exists>s a d row. run_from (deliver (cass_target picky_cluster) (ex_env 1 1 2)) isolating_run
     (two_records, cluster_target) = Some (s, a, d) \<and>
     d (Some (VInt64 2)) = Some row \<and> row ''id'' = Some (VInt64 2) \<and> d (Some (VInt64 3)) = None"
proof -
  obtain s a d where run: "run_from (deliver (cass_target picky_cluster) (ex_env 1 1 2)) isolating_run
     (two_records, cluster_target) = Some (s, a, d)" "finished s" "first_err s = None" "rejected s = []"
    using cluster_run by blast
  have env: "caps_ok (ex_env 1 1 2)" "1 \<le> num_transformers (env_cfg (ex_env 1 1 2))"
    by (simp_all add: caps_ok_def ex_env_def record_cap_def batch_cap_def)
  have ready: "cass_ready picky_cluster ''users'' {''id''} id_of (\<lambda>d. d)
      (env_map (ex_env 1 1 2) ` set (all_records (ex_source [1, 2]) [ex_part])) (fst cluster_target, snd cluster_target)"
    unfolding two_records_env
    by (simp add: cass_ready_def picky_cluster_laws cluster_target_def full_rows_def key_determines_def cass_key_def
        id_of_def ex_record_def)
  have "run_from (deliver (cass_target picky_cluster) (ex_env 1 1 2)) isolating_run
     (two_records, fst cluster_target, snd cluster_target) = Some (s, a, d)" using run(1) by simp
  note result = cass_migration_delivers [OF env ready this run(2,3), unfolded two_records_env]
  have keys: "cass_key id_of (ex_record ''p0'' i) = Some (VInt64 (word_of_int i))" for i
    by (simp add: cass_key_def id_of_def ex_record_def)
  have "\<exists>row. d (cass_key id_of (ex_record ''p0'' 2)) = Some row \<and> map_of (rec_data (ex_record ''p0'' 2)) \<subseteq>\<^sub>m row"
    using conjunct1 [OF result] run(4) by simp
  then have "\<exists>row. d (Some (VInt64 2)) = Some row \<and> row ''id'' = Some (VInt64 2)"
    unfolding keys by (simp add: ex_record_def map_le_def) metis
  moreover have "d (Some (VInt64 3)) = None"
    using conjunct2 [OF result] by (simp add: keys cluster_target_def)
  ultimately show ?thesis using run(1) by blast
qed

end
