(* ===== verification/Open_Sources.thy ===== *)
theory Open_Sources
  imports Migrate Pipeline_Props Restore_Props Postgres Cassandra Mongo Iceberg_Props Fault
begin

text \<open>
  The contract of \<open>SourceAdapter.ReadPartition\<close>: it is responsible for closing the channel. The backup
  loop and the pipeline's readers both rely on it. The adapters that keep it, and what becomes of a
  migration whose source does not.
\<close>

section \<open>A reader whose source leaves the channel open\<close>

definition waits :: "reader \<Rightarrow> bool" where
  "waits r \<longleftrightarrow> \<not> src_closes r \<and> \<not> part_closed r \<and> r_phase r \<noteq> RAwait \<and> r_phase r \<noteq> RDone"

definition waiting :: "nat \<Rightarrow> ('m, 'p) pipeline \<Rightarrow> bool" where
  "waiting i s \<longleftrightarrow> i < length (readers s) \<and> waits (readers s ! i)"

lemma set_reader_waiting:
  "waiting i s \<Longrightarrow> (k = i \<Longrightarrow> waits r) \<Longrightarrow> waiting i (set_reader k r s)"
  by (cases "k = i") (simp_all add: waiting_def set_reader_def)

lemma waiting_other [simp]:
  "waiting i (s\<lparr>record_ch := xs\<rparr>) = waiting i s"
  "waiting i (s\<lparr>record_closed := b\<rparr>) = waiting i s"
  "waiting i (s\<lparr>transformers := ts\<rparr>) = waiting i s"
  "waiting i (s\<lparr>batch_ch := bs\<rparr>) = waiting i s"
  "waiting i (s\<lparr>batch_closed := b\<rparr>) = waiting i s"
  "waiting i (s\<lparr>cancelled := b\<rparr>) = waiting i s"
  "waiting i (s\<lparr>pending_errs := es\<rparr>) = waiting i s"
  "waiting i (s\<lparr>first_err := e\<rparr>) = waiting i s"
  "waiting i (s\<lparr>panicked := b\<rparr>) = waiting i s"
  "waiting i (s\<lparr>cp_store := st\<rparr>) = waiting i s"
  "waiting i (s\<lparr>dlq_log := q\<rparr>) = waiting i s"
  "waiting i (s\<lparr>written := ws\<rparr>) = waiting i s"
  "waiting i (s\<lparr>rejected := ws\<rparr>) = waiting i s"
  "waiting i (s\<lparr>dropped := ws\<rparr>) = waiting i s"
  "waiting i (set_transformer j t s) = waiting i s"
  "waiting i (set_writer k w s) = waiting i s"
  by (simp_all add: waiting_def setters)

lemma fire_waiting:
  assumes "waiting i s" and "fire env e s = Some s'"
  shows "waiting i s'"
proof -
  have w: "waits (readers s ! i)" using assms(1) by (simp add: waiting_def)
  from assms show ?thesis
    by (cases e)
      (auto simp: fire_def all_moves Let_def split: if_splits list.splits reader_phase.splits
         writer_phase.splits prod.splits option.splits
        intro!: set_reader_waiting; use w in \<open>auto simp: waits_def\<close>)+
qed

interpretation open_source: event_system "fire env" "waiting i" for env i
  by unfold_locales (rule fire_waiting)

lemma open_scripts_never_return:
  assumes "\<And>p. \<not> rs_closes (source p)" and "parts \<noteq> []"
    and "run_from (fire env) es (start_pipeline env source parts st q) = Some s"
  shows "\<not> finished s"
proof -
  have "waiting 0 (start_pipeline env source parts st q)" using assms(1,2)
    by (simp add: waiting_def waits_def start_pipeline_def start_reader_def)
  then have "waiting 0 s" using assms(3) by (rule open_source.run_inv)
  then show ?thesis by (auto simp: waiting_def waits_def finished_def list_all_length)
qed

lemma open_source_never_returns:
  assumes "\<And>p. \<not> pr_closes (sa_read src background p)"
    and "migrate_from env src table st q = MRuns s0" and "run_from (fire env) es s0 = Some s"
  shows "\<not> finished s"
proof -
  from migrate_from_runs [OF assms(2)] obtain parts where "parts \<noteq> []"
    and s0: "s0 = start_pipeline env (\<lambda>p. script_of (sa_read src background p)) parts st q" by metis
  with open_scripts_never_return [OF _ this(1) assms(3) [unfolded s0]] assms(1)
  show ?thesis by (simp add: script_of_def)
qed

text \<open>Nor does one whose source is wrapped for fault injection, wherever its counter stands.\<close>

lemma wrapped_source_never_returns:
  "parts \<noteq> [] \<Longrightarrow>
   run_from (fire env) es (start_pipeline env
     (\<lambda>p. script_of (fst (fault_read fc background (seen p) (inner p)))) parts st q) = Some s \<Longrightarrow> \<not> finished s"
  by (rule open_scripts_never_return) (simp_all add: script_of_def fault_read_open)

text \<open>C17: a migration from Iceberg that has a data file to read never returns, neither with success nor
  with an error, also when it is cancelled: the source does not close its channel, so the reader of
  the first file waits in its loop for ever.\<close>

theorem iceberg_migration_never_returns:
  assumes "migrate_from env (ice_source hc pq a ws) table st q = MRuns s0"
    and "run_from (fire env) es s0 = Some s"
  shows "\<not> finished s"
  by (rule open_source_never_returns [OF _ assms])
    (simp add: ice_source_def ice_read_partition_def split: prod.splits)

definition one_file_source :: "unit pq_ops \<Rightarrow> source_ops" where
  "one_file_source pq = ice_source tiny_http pq
     \<lparr>ia_base = ''u'', ia_namespace = ''ns'', ia_writer = None, ia_storage = data_dir\<rparr>
     ((), \<lparr>fs_files = [([''d'', ''ns'', ''t'', ''data'', ''1.parquet''], [])], fs_dirs = [], fs_device = reliable\<rparr>)"

theorem iceberg_migration_never_returns_witness:
  "\<exists>s0 s. migrate_from (ex_env 1 1 2) (one_file_source tiny_parquet) ''t'' ref_store None = MRuns s0 \<and>
     run_from (fire (ex_env 1 1 2)) [Cancel] s0 = Some s \<and> \<not> finished s"
proof -
  have "sa_partitions (one_file_source tiny_parquet) ''t'' 1 = Inr [file_part ''t'' 0 ''ns/t/data/1.parquet'']"
    using one_file by (simp add: one_file_source_def ice_source_def)
  then obtain s0 where s0: "migrate_from (ex_env 1 1 2) (one_file_source tiny_parquet) ''t'' ref_store None = MRuns s0"
    "\<not> panicked s0" "\<not> cancelled s0"
    by (simp add: migrate_from_def migrate_def ex_env_def caps_ok_def record_cap_def batch_cap_def
        known_checkpoints_def ref_eval plan_partitions_def done_partitions_def start_pipeline_def)
  then obtain s where s: "run_from (fire (ex_env 1 1 2)) [Cancel] s0 = Some s"
    by (simp add: fire_def cancel_def)
  have "\<not> finished s" by (rule iceberg_migration_never_returns [OF s0(1) [unfolded one_file_source_def] s])
  with s0(1) s show ?thesis by blast
qed

section \<open>Sources that close their channel\<close>

locale closing_source =
  fixes src :: source_ops
  assumes closes: "pr_closes (sa_read src c p)"
begin

lemma backup_partitions_return: "backup_partitions en (si_read (info_of src table)) cm ps \<noteq> None"
proof (induction ps arbitrary: cm)
  case (Cons p ps)
  then show ?case
    by (auto simp: backup_partition_def info_of_def closes split: sum.splits option.splits)
qed simp

lemma backup_returns: "backup en now op_id (info_of src table) table sz z s \<noteq> None"
  by (auto simp: backup_def Let_def backup_partitions_return split: sum.splits option.splits)

end

interpretation pg_closing: closing_source "pg_source cl a d" for cl a d
  by unfold_locales (simp add: pg_source_def pg_read_partition_def closed_read_def)

interpretation cass_closing: closing_source "cass_source cl a d" for cl a d
  by unfold_locales (simp add: cass_source_def cass_read_partition_def closed_read_def)

interpretation mongo_closing: closing_source "mongo_source cl cfg d" for cl cfg d
  by unfold_locales (simp add: mongo_source_def mongo_read_partition_def closed_read_def)

end
