(* ===== verification/Resume.thy ===== *)
theory Resume
  imports Delivery
begin

text \<open>
  A migration that is resumed: a partition with a checkpoint starts again at the offset that the
  checkpoint names, which is that of a record already written, and the range queries include their
  lower bound. And one that is run again without its checkpoints, as the command does it.
\<close>

section \<open>The plan\<close>

lemma resume_start_single:
  assumes "filter (\<lambda>cp. cp_partition_id cp = part_id p) cps = [cp]" and "cp_last_committed cp \<noteq> VNil"
  shows "resume_start cps p = p\<lparr>part_start := cp_last_committed cp\<rparr>"
  using assms
proof (induction cps)
  case (Cons c cps)
  then show ?case by (cases "cp_partition_id c = part_id p") (auto split: if_splits)
qed simp

lemma resumed_partition:
  assumes "p \<in> set ps" and "filter (\<lambda>cp. cp_partition_id cp = part_id p) cps = [cp]"
    and "cp_status cp = StatusInProgress" and "cp_last_committed cp \<noteq> VNil"
  shows "p\<lparr>part_start := cp_last_committed cp\<rparr> \<in> set (plan_partitions cps ps)"
proof -
  have "c = cp" if "c \<in> set cps" "cp_partition_id c = part_id p" for c
    using that assms(2) filter_set [of "\<lambda>c. cp_partition_id c = part_id p" cps] by auto
  then have "part_id p \<notin> done_partitions cps" using assms(3) by (auto simp: done_partitions_def)
  with assms(1) resume_start_single [OF assms(2,4)] show ?thesis
    unfolding plan_partitions_def by force
qed

section \<open>Reading from a checkpoint\<close>

text \<open>
  A checkpoint read from the store has its offset as a JSON number. As a query parameter it stands for
  that number.
\<close>

definition serves_number :: "'d pg_client \<Rightarrow> 'd \<Rightarrow> string \<Rightarrow> string list \<Rightarrow> gval list list \<Rightarrow> bool" where
  "serves_number cl d table cols rows \<longleftrightarrow>
     (\<forall>k b. pg_select cl d (''SELECT * FROM '' @ pg_sanitize cl table @ '' WHERE id >= $1 AND id < $2'')
          (VNumber (LInt k)) (VInt64 b) =
        Inr (cols, map Inr (filter (\<lambda>r. k \<le> key_of cols r \<and> key_of cols r < sint b) rows), None))"

lemma pg_reads_from_number:
  assumes "serves_number cl d (part_table p) cols rows"
    and "part_start p = VNumber (LInt k)" and "part_end p = VInt64 b"
  shows "pr_records (pg_read_partition cl d background p) =
    map (pg_record p cols) (filter (\<lambda>r. k \<le> key_of cols r \<and> key_of cols r < sint b) rows)"
  using assms by (simp add: pg_read_partition_def serves_number_def closed_read_def)

lemma pg_partition_table: "pg_partitions cl d table n = Inr ps \<Longrightarrow> p \<in> set ps \<Longrightarrow> part_table p = table"
  by (auto simp: pg_partitions_def split_range_def make_range_def Let_def
      split: sum.splits option.splits if_splits)

text \<open>C16: a resumed migration from PostgreSQL reads the row at its checkpoint again, although it has been
  written: when it returns nil, that row has been written once more, or rejected. (With \<open>COPY\<close> as the
  target's way of writing it is then there twice, or the whole batch fails on the primary key.)\<close>

theorem resume_repeats_committed_row:
  assumes "migrate_from env (pg_source cl a d) table st q = MRuns s0"
    and "1 \<le> num_transformers (env_cfg env)"
    and "pg_partitions cl d table (num_readers (env_cfg env)) = Inr ps" and "p \<in> set ps"
    and "filter (\<lambda>cp. cp_partition_id cp = part_id p) (known_checkpoints (env_db env) st (env_op env)) = [cp]"
    and "cp_status cp = StatusInProgress" and "cp_last_committed cp = VNumber (LInt k)"
    and "part_end p = VInt64 b" and "k < sint b"
    and "serves_number cl d table cols rows" and "r \<in> set rows" and "key_of cols r = k"
    and "run_from (fire env) es s0 = Some s" and "finished s" and "first_err s = None"
  shows "\<exists>rc. rec_data rc = row_map cols r \<and> partition_id (rec_meta rc) = part_id p \<and>
    env_map env rc \<in> set (written s) \<union> set (rejected s)"
proof -
  let ?p = "p\<lparr>part_start := cp_last_committed cp\<rparr>"
  let ?source = "\<lambda>p. script_of (pg_read_partition cl d background p)"
  obtain ps' parts where "sa_partitions (pg_source cl a d) table (num_readers (env_cfg env)) = Inr ps'"
    and parts: "parts = plan_partitions (known_checkpoints (env_db env) st (env_op env)) ps'" "caps_ok env"
    and s0: "s0 = start_pipeline env (\<lambda>p. script_of (sa_read (pg_source cl a d) background p)) parts st q"
    by (rule migrate_from_runs [OF assms(1)])
  with assms(3) have ps': "ps' = ps" by (simp add: pg_source_def)
  have in_plan: "?p \<in> set parts"
    unfolding parts(1) ps' using assms(4,5,6) by (rule resumed_partition) (simp add: assms(7))
  let ?rc = "pg_record ?p cols r"
  have "pr_records (pg_read_partition cl d background ?p) =
      map (pg_record ?p cols) (filter (\<lambda>r. k \<le> key_of cols r \<and> key_of cols r < sint b) rows)"
    using assms(7,8,10) pg_partition_table [OF assms(3,4)] by (intro pg_reads_from_number) simp_all
  with assms(9,11,12) have "?rc \<in> set (rs_records (?source ?p))" by (simp add: script_of_def)
  with in_plan have "?rc \<in> set (all_records ?source parts)" by (auto simp: all_records_def)
  moreover have "mset (written s) + mset (rejected s) = image_mset (env_map env) (mset (all_records ?source parts))"
    using migration_accounts [OF parts(2) assms(2) _ assms(14,15)] assms(13)
    by (simp add: reaches_def s0 pg_source_def)
  ultimately have "env_map env ?rc \<in># mset (written s) + mset (rejected s)" by simp
  then have "env_map env ?rc \<in> set (written s) \<union> set (rejected s)" by simp
  moreover have "partition_id (rec_meta ?rc) = part_id p" by (simp add: pg_record_def split: prod.splits)
  ultimately show ?thesis using pg_record_data [of ?p cols r] by blast
qed

text \<open>The two rows of \<^const>\<open>two_rows\<close> again, the first of which an earlier run has committed.\<close>

definition numbering_client :: "unit pg_client" where
  "numbering_client = tiny_client
     \<lparr>pg_select := (\<lambda>d q a b. case (a, b) of
          (VNumber (LInt k), VInt64 y) \<Rightarrow> Inr ([''id'', ''name''], map Inr (filter (\<lambda>r.
             k \<le> key_of [''id'', ''name''] r \<and> key_of [''id'', ''name''] r < sint y) two_rows), None)
        | _ \<Rightarrow> Inl (ErrMsg ''type''))\<rparr>"

definition committed_store :: "(operation_meta option ref_bucket, stored_checkpoint option ref_bucket) store" where
  "committed_store =
     (case save_partition ref_db ref_store ''mig-1'' (sample_checkpoint ''p0'' 3) of Inr st \<Rightarrow> st | Inl e \<Rightarrow> ref_store)"

lemma committed_checkpoint:
  "\<exists>cp. known_checkpoints ref_db committed_store ''mig-1'' = [cp] \<and> cp_partition_id cp = ''p0'' \<and>
     cp_status cp = StatusInProgress \<and> cp_last_committed cp = VNumber (LInt 3)"
  by (simp add: committed_store_def known_checkpoints_def ref_eval)

abbreviation resumed_p0 :: partition where
  "resumed_p0 \<equiv> (make_range ''t'' 0 3 9)\<lparr>part_start := VNumber (LInt 3)\<rparr>"

lemma p0_id: "part_id (make_range ''t'' 0 3 9) = ''p0''"
  by (simp add: make_range_def show_nat.simps digit_char_def char_of_def bit_0)

lemma numbering_partitions: "pg_partitions numbering_client () ''t'' 1 = Inr [make_range ''t'' 0 3 9]"
  by (simp add: pg_partitions_def numbering_client_def tiny_client_def split_range_def)

lemma resumed_start:
  "migrate_from two_env (pg_source numbering_client new_postgres_adapter ()) ''t'' committed_store None =
     MRuns (start_pipeline two_env (\<lambda>p. script_of (pg_read_partition numbering_client () background p))
       [resumed_p0] committed_store None)"
proof -
  obtain cp where cp: "known_checkpoints ref_db committed_store ''mig-1'' = [cp]" "cp_partition_id cp = ''p0''"
    "cp_status cp = StatusInProgress" "cp_last_committed cp = VNumber (LInt 3)"
    using committed_checkpoint by blast
  then have "plan_partitions [cp] [make_range ''t'' 0 3 9] = [resumed_p0]"
    by (simp add: plan_partitions_def done_partitions_def p0_id)
  then show ?thesis using cp(1) numbering_partitions
    by (simp add: migrate_from_def migrate_def pg_source_def two_env_def ex_env_def caps_ok_def record_cap_def batch_cap_def)
qed

lemma resumed_run:
  "\<exists>s. run_from (fire two_env) two_run
     (start_pipeline two_env (\<lambda>p. script_of (pg_read_partition numbering_client () background p))
       [resumed_p0] committed_store None) = Some s \<and> finished s \<and> first_err s = None \<and> rejected s = []"
proof -
  have "pg_read_partition numbering_client () background resumed_p0 =
      closed_read (map (pg_record resumed_p0 [''id'', ''name'']) two_rows, None)"
    by (simp add: pg_read_partition_def numbering_client_def tiny_client_def make_range_def two_rows_def key_of_def
        pg_row_def background_def)
  then show ?thesis
    by (simp add: two_run_def two_rows_def closed_read_def script_of_def two_env_def ex_defs finished_def)
qed

theorem resume_repeats_committed_row_witness:
  "\<exists>s. run_from (fire two_env) two_run
     (start_pipeline two_env (\<lambda>p. script_of (pg_read_partition numbering_client () background p))
       [resumed_p0] committed_store None) = Some s \<and>
     (\<exists>rc. rec_data rc = row_map [''id'', ''name''] [VInt64 3, VString ''a''] \<and>
       map_record redact_names rc \<in> set (written s))"
proof -
  let ?cols = "[''id'', ''name'']"
  obtain s where s: "run_from (fire two_env) two_run
     (start_pipeline two_env (\<lambda>p. script_of (pg_read_partition numbering_client () background p))
       [resumed_p0] committed_store None) = Some s" "finished s" "first_err s = None" "rejected s = []"
    using resumed_run by blast
  obtain cp where cp: "known_checkpoints ref_db committed_store ''mig-1'' = [cp]" "cp_partition_id cp = ''p0''"
    "cp_status cp = StatusInProgress" "cp_last_committed cp = VNumber (LInt 3)"
    using committed_checkpoint by blast
  have env: "1 \<le> num_transformers (env_cfg two_env)" "num_readers (env_cfg two_env) = 1" "env_map two_env = map_record redact_names"
    "filter (\<lambda>c. cp_partition_id c = part_id (make_range ''t'' 0 3 9))
       (known_checkpoints (env_db two_env) committed_store (env_op two_env)) = [cp]"
    using cp(1,2) by (simp_all add: two_env_def ex_env_def p0_id)
  have parts: "pg_partitions numbering_client () ''t'' (num_readers (env_cfg two_env)) = Inr [make_range ''t'' 0 3 9]"
    "make_range ''t'' 0 3 9 \<in> set [make_range ''t'' 0 3 9]"
    unfolding env(2) by (simp_all add: numbering_partitions)
  have rows: "serves_number numbering_client () ''t'' ?cols two_rows" "[VInt64 3, VString ''a''] \<in> set two_rows"
    "key_of ?cols [VInt64 3, VString ''a''] = 3" "part_end (make_range ''t'' 0 3 9) = VInt64 9" "(3 :: int) < sint (9 :: 64 word)"
    by (simp_all add: serves_number_def numbering_client_def two_rows_def key_of_def make_range_def)
  from resume_repeats_committed_row [OF resumed_start env(1) parts env(4) cp(3,4) rows(4,5,1,2,3) s(1-3)] s(1,4) env(3)
  show ?thesis by auto
qed

section \<open>A migration that is run again\<close>

text \<open>C13: a migration from PostgreSQL to PostgreSQL that was killed anywhere and is run again, as the command
  does it, with a new operation ID and so without the checkpoints of the first run: a second run that
  is not cancelled ends only without an error. Then the target has what it had, every row that the first
  run had written, and every row of the source once more, but for the records that the second run
  rejected; what the first run had written are rows of the source. If the table refuses no row, having
  no key, the second run rejects nothing and reports nothing, and every row that the first had written is
  there twice.\<close>

theorem pg_rerun_duplicates:
  assumes source: "serves scl d table cols rows" "\<forall>r \<in> set rows. length r = length cols"
      "pg_min_max scl d (''SELECT MIN(id), MAX(id) FROM '' @ pg_sanitize scl table) = Inr (Some lo, Some hi)"
      "\<forall>r \<in> set rows. sint lo \<le> key_of cols r \<and> key_of cols r \<le> sint hi"
      "pg_safe lo hi (num_readers (env_cfg env))"
    and env: "env_map env = map_record sm" "1 \<le> num_transformers (env_cfg env)"
      "1 \<le> num_writers (env_cfg env)" "known_checkpoints (env_db env) st (env_op env) = []"
    and again: "env' = env\<lparr>env_op := op_id\<rparr>" "known_checkpoints (env_db env) st' op_id = []"
    and target: "copy_laws tcl tab" "pa_writer ta = Some t" "pa_writer ta1 = Some t"
    and first: "migrate_from env (pg_source scl sa d) table st q = MRuns s0"
      "run_from (deliver (pg_target tcl) env) es (s0, ta, td) = Some (s1, ta', td1)"
    and second: "migrate_from env' (pg_source scl sa d) table st' q' = MRuns s0'"
      "run_from (deliver (pg_target tcl) env') es' (s0', ta1, td1) = Some (s, ta'', td')"
      "finished s" "Cancel \<notin> set es'"
  shows "first_err s = None \<and>
    image_mset row_of_record (mset (written s1)) \<subseteq># image_mset (masked_row sm cols) (mset rows) \<and>
    tab td' t + image_mset row_of_record (mset (rejected s)) =
      tab td t + image_mset row_of_record (mset (written s1)) + image_mset (masked_row sm cols) (mset rows) \<and>
    (never_refuses tcl \<longrightarrow> rejected s = [] \<and>
      tab td' t = tab td t + image_mset row_of_record (mset (written s1)) + image_mset (masked_row sm cols) (mset rows))"
proof -
  let ?source = "\<lambda>p. script_of (pg_read_partition scl d background p)"
  obtain parts where s0: "s0 = start_pipeline env ?source parts st q"
    and data: "image_mset rec_data (mset (all_records ?source parts)) = image_mset (row_map cols) (mset rows)"
    and held: "pg_holds tcl tab t (tab td t) (written s1) (ta', td1)"
    by (rule pg_fresh_run [OF source env(1,4) target(1,2) first])
  from held have td1: "tab td1 t = tab td t + image_mset row_of_record (mset (written s1))" by (simp add: pg_holds_def)
  have "reaches env ?source parts st q es s1" using deliver_run [OF first(2)] by (simp add: reaches_def s0)
  note subset = pg_run_subset [OF env(1) data this]
  have env': "pg_safe lo hi (num_readers (env_cfg env'))" "env_map env' = map_record sm"
      "1 \<le> num_transformers (env_cfg env')" "1 \<le> num_writers (env_cfg env')"
      "known_checkpoints (env_db env') st' (env_op env') = []"
    using source(5) env again by simp_all
  obtain parts' where caps: "caps_ok env'" and s0': "s0' = start_pipeline env' ?source parts' st' q'"
    and fair: "list_all (\<lambda>p. rs_closes (?source p) \<and> rs_error (?source p) = None) parts'"
    by (rule pg_fresh_run [OF source(1-4) env'(1,2,5) target(1,3) second(1,2)])
  have "healthy s0'" unfolding s0' by (rule start_healthy) (simp add: well_behaved_def caps env'(3,4) fair)
  from run_healthy [OF this second(4) deliver_run [OF second(2)]]
  have ok: "first_err s = None" by (simp add: healthy_def)
  have rows: "tab td' t + image_mset row_of_record (mset (rejected s)) =
      tab td t + image_mset row_of_record (mset (written s1)) + image_mset (masked_row sm cols) (mset rows)"
    using pg_migration_rows [OF source(1-4) env'(1,2,3,5) target(1,3) second(1-3) ok] td1 by simp
  have "rejected s = []" if "never_refuses tcl"
    using accepting_rejects_nothing [OF pg_accepting [OF that] second(2) [unfolded s0']] .
  then have "never_refuses tcl \<longrightarrow> rejected s = [] \<and>
      tab td' t = tab td t + image_mset row_of_record (mset (written s1)) + image_mset (masked_row sm cols) (mset rows)"
    using rows by auto
  with ok subset rows show ?thesis by blast
qed

text \<open>The first run is killed when its only batch has been written.\<close>

abbreviation first_start :: "(operation_meta option ref_bucket, stored_checkpoint option ref_bucket) pipeline" where
  "first_start \<equiv> start_pipeline two_env (\<lambda>p. script_of (pg_read_partition tiny_client () background p))
     [make_range ''t'' 0 3 9] ref_store None"

abbreviation second_env :: "(operation_meta option ref_bucket, stored_checkpoint option ref_bucket) env" where
  "second_env \<equiv> two_env\<lparr>env_op := ''mig-2''\<rparr>"

abbreviation second_start :: "(operation_meta option ref_bucket, stored_checkpoint option ref_bucket) pipeline" where
  "second_start \<equiv> start_pipeline second_env (\<lambda>p. script_of (pg_read_partition tiny_client () background p))
     [make_range ''t'' 0 3 9] ref_store None"

lemma second_plan:
  "migrate_from second_env (pg_source tiny_client new_postgres_adapter ()) ''t'' ref_store None = MRuns second_start"
  by (simp add: migrate_from_def migrate_def pg_source_def pg_partitions_def tiny_client_def split_range_def
      two_env_def ex_env_def caps_ok_def record_cap_def batch_cap_def known_checkpoints_def ref_eval)

lemma killed_run:
  "\<exists>s1 ta td1. run_from (deliver (pg_target table_client) two_env) (take 15 two_run) (first_start, two_target) = Some (s1, ta, td1) \<and>
     mset (written s1) = image_mset (map_record redact_names) (mset (map (pg_record (make_range ''t'' 0 3 9) [''id'', ''name'']) two_rows))"
  unfolding start_pipeline_def start_reader_def list.map two_reads
  by (simp add: two_run_def two_rows_def closed_read_def script_of_def two_env_def ex_defs deliver_def
      pg_target_def pg_write_batch_def pg_write_rows_def pg_rows_def table_client_def two_target_def Let_def
      case_prod_unfold)

lemma repeated_run:
  "\<exists>s ta td. run_from (deliver (pg_target table_client) second_env) two_run (second_start, fst two_target, td1) = Some (s, ta, td) \<and>
     finished s"
  unfolding start_pipeline_def start_reader_def list.map two_reads
  by (simp add: two_run_def two_rows_def closed_read_def script_of_def two_env_def ex_defs deliver_def finished_def
      pg_target_def pg_write_batch_def pg_write_rows_def pg_rows_def table_client_def two_target_def Let_def
      case_prod_unfold)

theorem pg_rerun_duplicates_witness:
  "\<exists>s1 ta td1 s ta' td. run_from (deliver (pg_target table_client) two_env) (take 15 two_run) (first_start, two_target) =
       Some (s1, ta, td1) \<and>
     run_from (deliver (pg_target table_client) second_env) two_run (second_start, fst two_target, td1) = Some (s, ta', td) \<and>
     finished s \<and> first_err s = None \<and>
     td ''u'' = image_mset (masked_row redact_names [''id'', ''name'']) (mset two_rows + mset two_rows)"
proof -
  let ?cols = "[''id'', ''name'']"
  obtain s1 ta td1 where first: "run_from (deliver (pg_target table_client) two_env) (take 15 two_run) (first_start, two_target) =
       Some (s1, ta, td1)"
    and w: "mset (written s1) = image_mset (map_record redact_names) (mset (map (pg_record (make_range ''t'' 0 3 9) ?cols) two_rows))"
    using killed_run by blast
  obtain s ta' td where second: "run_from (deliver (pg_target table_client) second_env) two_run (second_start, fst two_target, td1) =
      Some (s, ta', td)" "finished s"
    using repeated_run by blast
  have source: "serves tiny_client () ''t'' ?cols two_rows" "\<forall>r \<in> set two_rows. length r = length ?cols"
    "pg_min_max tiny_client () (''SELECT MIN(id), MAX(id) FROM '' @ pg_sanitize tiny_client ''t'') = Inr (Some 3, Some 8)"
    "\<forall>r \<in> set two_rows. sint (3 :: 64 word) \<le> key_of ?cols r \<and> key_of ?cols r \<le> sint (8 :: 64 word)"
    by (simp_all add: serves_def tiny_client_def two_rows_def key_of_def)
  have env: "pg_safe 3 8 (num_readers (env_cfg two_env))" "env_map two_env = map_record redact_names"
    "1 \<le> num_transformers (env_cfg two_env)" "1 \<le> num_writers (env_cfg two_env)"
    "known_checkpoints (env_db two_env) ref_store (env_op two_env) = []"
    "known_checkpoints (env_db two_env) ref_store ''mig-2'' = []"
    by (simp_all add: pg_safe_def two_env_def ex_env_def known_checkpoints_def ref_eval)
  have target: "copy_laws table_client (\<lambda>d. d)" "pa_writer (fst two_target) = Some ''u''"
    by (simp_all add: copy_laws_def table_client_def two_target_def)
  have run: "run_from (deliver (pg_target table_client) two_env) (take 15 two_run) (first_start, fst two_target, snd two_target) =
      Some (s1, ta, td1)" using first by simp
  have "Cancel \<notin> set two_run" "never_refuses table_client" by (simp_all add: two_run_def never_refuses_def table_client_def)
  with pg_rerun_duplicates [OF source env(1-5) refl env(6) target(1,2,2) two_start run second_plan second(1,2)]
  have after: "first_err s = None" "td ''u'' = snd two_target ''u'' +
      image_mset row_of_record (mset (written s1)) + image_mset (masked_row redact_names ?cols) (mset two_rows)"
    by blast+
  moreover have "image_mset row_of_record (mset (written s1)) = image_mset (masked_row redact_names ?cols) (mset two_rows)"
    unfolding w by (simp add: multiset.map_comp comp_def masked_record pg_record_data masked_row_def [abs_def])
  ultimately have "td ''u'' = image_mset (masked_row redact_names ?cols) (mset two_rows + mset two_rows)"
    using after(2) by (simp add: two_target_def)
  with first second after(1) show ?thesis by blast
qed

end
