(* ===== verification/Dead_Letters.thy ===== *)
theory Dead_Letters
  imports Pipeline_Props Cli_Props
begin

text \<open>
  From the pipeline to the dead-letter file and back: what \<open>handleWriteFailure\<close> has written to the file
  when a migration ends, and what \<open>replay\<close> makes of it.
\<close>

section \<open>One letter\<close>

text \<open>A line of the file that tells a record.\<close>

definition letter_of :: "dlq_record \<Rightarrow> go_record \<Rightarrow> bool" where
  "letter_of d rc \<longleftrightarrow> dlq_record_id d = rec_id rc \<and> dlq_table d = source_table (rec_meta rc) \<and>
     dlq_attempts d = 1 \<and> to_json (VMap (rec_data rc)) = Inr (dlq_payload d)"

definition marshals :: "go_record \<Rightarrow> bool" where
  "marshals rc \<longleftrightarrow> (\<exists>j. to_json (VMap (rec_data rc)) = Inr j)"

lemma dead_letter_appends:
  "marshals rc \<Longrightarrow> \<exists>d. dead_letter now None rc err (Some q) = Some (q @ [d]) \<and> letter_of d rc"
  by (auto simp: marshals_def dead_letter_def dlq_write_def letter_of_def)

section \<open>What a replayed value is\<close>

text \<open>
  A value after \<open>json.Marshal\<close> into the line and \<open>Decode\<close> out of it, without \<open>UseNumber\<close>: every number is
  the nearest float64, bytes and times are text, the keys of an object are in order.
\<close>

fun as_replayed :: "gval \<Rightarrow> gval" where
  "as_replayed VNil = VNil"
| "as_replayed (VBool b) = VBool b"
| "as_replayed (VInt w) = VFloat64 (f64_round (of_int (sint w)))"
| "as_replayed (VInt32 w) = VFloat64 (f64_round (of_int (sint w)))"
| "as_replayed (VInt64 w) = VFloat64 (f64_round (of_int (sint w)))"
| "as_replayed (VFloat32 x) = VFloat64 (f64_round (shortest_decimal 24 x))"
| "as_replayed (VFloat64 x) = VFloat64 (f64_round (shortest_decimal 53 x))"
| "as_replayed (VString s) = VString s"
| "as_replayed (VBytes bs) = VString (base64 bs)"
| "as_replayed (VTime t) = VString (rfc3339_nano t)"
| "as_replayed (VNumber n) = VFloat64 (f64_round (lit_value n))"
| "as_replayed (VMap m) = VMap (sort_key fst (map (\<lambda>(k, v). (k, as_replayed v)) m))"
| "as_replayed (VArr vs) = VArr (map as_replayed vs)"
| "as_replayed (VOther ty txt None) = VNil"
| "as_replayed (VOther ty txt (Some j)) = from_json False j"

lemma lit_value_float_lit [simp]: "lit_value (float_lit p x) = shortest_decimal p x"
  by (simp add: float_lit_def Let_def)

lemma insort_map_snd:
  "insort_key fst (k, f v) (map (\<lambda>(k, v). (k, f v)) m) = map (\<lambda>(k, v). (k, f v)) (insort_key fst (k, v) m)"
  by (induction m) auto

lemma sort_map_snd:
  "map (\<lambda>(k, v). (k, f v)) (sort_key fst m) = sort_key fst (map (\<lambda>(k, v). (k, f v)) m)"
proof (induction m)
  case (Cons p m)
  obtain k v where p: "p = (k, v)" by (cases p)
  show ?case using insort_map_snd [of k f v "sort_key fst m"] by (simp add: p Cons.IH)
qed simp

lemma json_and_back:
  "to_json v = Inr j \<Longrightarrow> from_json False j = as_replayed v"
  "to_json_list vs = Inr js \<Longrightarrow> map (from_json False) js = map as_replayed vs"
  "to_json_fields m = Inr fs \<Longrightarrow>
     map (\<lambda>(k, j). (k, from_json False j)) fs = map (\<lambda>(k, v). (k, as_replayed v)) m"
  by (induction v and vs and m arbitrary: j and js and fs rule: to_json_to_json_list_to_json_fields.induct)
    (auto elim!: rbind_Inr_elim simp: sort_map_snd)

text \<open>Nil, booleans, strings and float64 numbers come back as they were, and an integer of at most 53
  bits as the float64 of the same value.\<close>

fun plain :: "gval \<Rightarrow> bool" where
  "plain VNil \<longleftrightarrow> True"
| "plain (VBool b) \<longleftrightarrow> True"
| "plain (VString s) \<longleftrightarrow> True"
| "plain (VFloat64 x) \<longleftrightarrow> f64_round x = x"
| "plain _ \<longleftrightarrow> False"

lemma plain_replayed: "plain v \<Longrightarrow> as_replayed v = v"
  by (cases v) (simp_all add: f64_round_def shortest_decimal_reads_back)

lemma small_int_replayed: "\<bar>sint w\<bar> \<le> 2 ^ 53 \<Longrightarrow> as_replayed (VInt64 w) = VFloat64 (of_int (sint w))"
  by (simp add: f64_round_int del: of_int_sint)

section \<open>Replaying letters\<close>

definition replayed :: "go_record \<Rightarrow> go_record" where
  "replayed rc =
     \<lparr>rec_id = rec_id rc, rec_data = sort_key fst (map (\<lambda>(k, v). (k, as_replayed v)) (rec_data rc)),
      rec_meta = zero_metadata\<lparr>source_table := source_table (rec_meta rc)\<rparr>\<rparr>"

lemma replay_letter:
  assumes "letter_of d rc"
  shows "replay_record d = Inr (replayed rc)"
proof -
  obtain fs where fs: "to_json_fields (rec_data rc) = Inr fs" "dlq_payload d = JObj (sort_key fst fs)"
    using assms by (auto simp: letter_of_def elim!: rbind_Inr_elim)
  have "map (\<lambda>(k, j). (k, from_json False j)) (sort_key fst fs) =
      sort_key fst (map (\<lambda>(k, v). (k, as_replayed v)) (rec_data rc))"
    unfolding sort_map_snd json_and_back(3) [OF fs(1)] ..
  with assms show ?thesis
    by (simp add: replay_record_def object_of_json_def letter_of_def replayed_def fs(2))
qed

lemma replay_letters: "list_all2 letter_of ds rcs \<Longrightarrow> map replay_record ds = map Inr (map replayed rcs)"
  by (induction ds rcs rule: list_all2_induct) (simp_all add: replay_letter)

lemma map_get_sorted: "distinct (map fst m) \<Longrightarrow> map_get (sort_key fst m) k = map_get m k"
proof -
  assume "distinct (map fst m)"
  moreover have "mset (map fst (sort_key fst m)) = mset (map fst m)" by simp
  ultimately have "distinct (map fst (sort_key fst m))" using mset_eq_imp_distinct_iff by blast
  then have "map_of (sort_key fst m) = map_of m"
    using \<open>distinct (map fst m)\<close> by (intro map_of_inject_set [THEN iffD2]) simp_all
  then show ?thesis by (simp add: map_get_def)
qed

text \<open>Column by column.\<close>

lemma replayed_get:
  assumes "map_ok (rec_data rc)"
  shows "map_get (rec_data (replayed rc)) k = as_replayed (map_get (rec_data rc) k)"
proof -
  let ?m = "map (\<lambda>(k, v). (k, as_replayed v)) (rec_data rc)"
  have "map fst ?m = map fst (rec_data rc)" by (simp add: case_prod_unfold comp_def)
  with assms have "distinct (map fst ?m)" by (simp only: map_ok_def)
  then have "map_get (sort_key fst ?m) k = map_get ?m k" by (rule map_get_sorted)
  also have "\<dots> = as_replayed (map_get (rec_data rc) k)"
    by (simp add: map_get_def map_of_map split: option.splits)
  finally show ?thesis by (simp add: replayed_def)
qed

section \<open>The file at the end of a migration\<close>

text \<open>The events in which the operating system accepts the line.\<close>

fun line_accepted :: "event \<Rightarrow> bool" where
  "line_accepted (WFailOne k err now we) \<longleftrightarrow> we = None"
| "line_accepted _ \<longleftrightarrow> True"

fun fails_single :: "event \<Rightarrow> bool" where
  "fails_single (WFailOne k err now we) \<longleftrightarrow> True"
| "fails_single _ \<longleftrightarrow> False"

lemma fire_no_letter:
  "fire env e s = Some s' \<Longrightarrow> \<not> fails_single e \<Longrightarrow> rejected s' = rejected s \<and> dlq_log s' = dlq_log s"
  by (cases e)
    (auto simp: fire_def all_moves setters Let_def split: if_splits list.splits reader_phase.splits
      writer_phase.splits prod.splits)

definition letters_ok :: "('m, 'p) env \<Rightarrow> ('m, 'p) pipeline \<Rightarrow> bool" where
  "letters_ok env s \<longleftrightarrow> (\<forall>x \<in># total env s. marshals x) \<and>
     (\<exists>ds. dlq_log s = Some ds \<and> list_all2 letter_of ds (rev (rejected s)))"

lemma letters_step:
  assumes "letters_ok env s" and "line_accepted e" and "fire env e s = Some s'"
  shows "letters_ok env s'"
proof -
  have tot: "total env s' = total env s" using assms(3) by (rule fire_total)
  from assms(1) obtain ds where ds: "dlq_log s = Some ds" "list_all2 letter_of ds (rev (rejected s))"
    by (auto simp: letters_ok_def)
  show ?thesis
  proof (cases "fails_single e")
    case True
    then obtain k err now where e: "e = WFailOne k err now None" using assms(2) by (cases e) auto
    then obtain x where x: "rejected s' = x # rejected s" "dlq_log s' = dead_letter now None x err (dlq_log s)"
      using assms(3) by (auto simp: fire_def w_fail_one_def set_writer_def Let_def
          split: if_splits list.splits writer_phase.splits)
    have "x \<in># total env s'" by (simp add: total_def x(1))
    then have "marshals x" using assms(1) tot by (simp add: letters_ok_def)
    then obtain d where "dlq_log s' = Some (ds @ [d])" "letter_of d x"
      using dead_letter_appends x(2) ds(1) by metis
    with ds(2) x(1) tot assms(1) show ?thesis
      by (auto simp: letters_ok_def intro: list_all2_appendI)
  next
    case False
    with fire_no_letter [OF assms(3)] assms(1) tot show ?thesis by (simp add: letters_ok_def)
  qed
qed

lemma letters_run:
  "letters_ok env s \<Longrightarrow> list_all line_accepted es \<Longrightarrow> run_from (fire env) es s = Some s' \<Longrightarrow> letters_ok env s'"
proof (induction es arbitrary: s)
  case (Cons e es)
  then show ?case by (auto split: option.splits intro: letters_step)
qed simp

lemma accepting_acks: "accepting ta \<Longrightarrow> acked ta t bs (write_all ta t bs)"
proof (induction bs arbitrary: t)
  case (Cons b bs)
  obtain t' where "ta_write ta t b = (int (length b), None, t')" using Cons.prems by (rule acceptingE)
  with Cons show ?case by simp
qed simp

text \<open>C15: when a migration with a fresh dead-letter file returns nil, and every line was accepted by the
  operating system, every record of the source has been written or stands in the file, once: the lines
  are those of the rejected records, in the order of their rejection. \<open>replay\<close> of the file returns nil
  and hands the target exactly these records, in this order and in batches, and a target that accepts
  every batch acknowledges them all. A replayed record has the table, the key and the columns of the one rejected,
  with each value as JSON gives it back: nil, booleans, strings and float64 numbers are the same,
  integers are float64 numbers. (A batch that the target refuses is dropped, \<open>replay_writes_batches\<close>.)\<close>

theorem replay_completes_migration:
  assumes "caps_ok env" and "1 \<le> num_transformers (env_cfg env)"
    and "\<forall>x \<in> set (all_records source parts). marshals (env_map env x)"
    and "reaches env source parts st (Some []) es s" and "list_all line_accepted es"
    and "finished s" and "first_err s = None" and "failed_file \<noteq> []"
  shows "\<exists>ds bs t'. dlq_log s = Some ds \<and> list_all2 letter_of ds (rev (rejected s)) \<and>
    run_replay cfg failed_file (Inr (map Inr ds)) (Inr t) ta = (None, Some t') \<and>
    t' = write_all ta t bs \<and> (accepting ta \<longrightarrow> acked ta t bs t') \<and>
    concat bs = map replayed (rev (rejected s)) \<and>
    (\<forall>rc \<in> set (rejected s). map_ok (rec_data rc) \<longrightarrow>
       (\<forall>k. plain (map_get (rec_data rc) k) \<longrightarrow> map_get (rec_data (replayed rc)) k = map_get (rec_data rc) k)) \<and>
    mset (written s) + mset (rejected s) = image_mset (env_map env) (mset (all_records source parts))"
proof -
  have "letters_ok env (start_pipeline env source parts st (Some []))"
    using assms(3) by (simp add: letters_ok_def start_total) (simp add: start_pipeline_def)
  then have "letters_ok env s" using assms(5,4) unfolding reaches_def by (rule letters_run)
  then obtain ds where ds: "dlq_log s = Some ds" "list_all2 letter_of ds (rev (rejected s))"
    by (auto simp: letters_ok_def)
  let ?rcs = "map replayed (rev (rejected s))"
  let ?bs = "chunks_of (nat (replay_size cfg)) ?rcs"
  have "map (\<lambda>d. rbind d replay_record) (map Inr ds) = map Inr ?rcs"
    using replay_letters [OF ds(2)] by (simp add: comp_def)
  note replay = replay_result [OF assms(8) this, of cfg t ta]
  have plain: "map_get (rec_data (replayed rc)) k = map_get (rec_data rc) k"
    if "map_ok (rec_data rc)" "plain (map_get (rec_data rc) k)" for rc k
    using replayed_get [OF that(1)] plain_replayed [OF that(2)] by simp
  have "mset (written s) + mset (rejected s) = image_mset (env_map env) (mset (all_records source parts))"
    using migration_accounts [OF assms(1,2,4,6,7)] by simp
  with ds replay plain accepting_acks [of ta t ?bs] show ?thesis by (intro exI [of _ ds] exI [of _ ?bs] exI) blast
qed

text \<open>One record that the target refuses, and takes when it is replayed.\<close>

definition refused_run :: "event list" where
  "refused_run =
     [SrcSend 0, RTake 0, RSend 0, TTake 0, TSend 0, WTake 0, WFail 0, WFailOne 0 (ErrMsg ''no'') 7 None,
      SrcClose 0, SrcReturn 0, RTake 0, RFinish 0, CloseRecords, TTake 0, CloseBatches, WTake 0]"

lemma refused_run_reaches:
  "\<exists>s. reaches (ex_env 1 1 1) (ex_source [1]) [ex_part] ref_store (Some []) refused_run s \<and> finished s \<and>
     first_err s = None \<and> written s = []"
  by (simp add: reaches_def refused_run_def ex_defs finished_def)

definition collecting :: "go_record list list target_ops" where
  "collecting = \<lparr>ta_apply = (\<lambda>t s. (None, t)), ta_write = (\<lambda>t b. (int (length b), None, t @ [b]))\<rparr>"

lemma collecting_writes: "write_all collecting t bs = t @ bs"
  by (induction bs arbitrary: t) (simp_all add: collecting_def)

theorem replay_completes_migration_witness:
  "\<exists>s ds bs. reaches (ex_env 1 1 1) (ex_source [1]) [ex_part] ref_store (Some []) refused_run s \<and> written s = [] \<and>
     dlq_log s = Some ds \<and> run_replay sample_config ''f'' (Inr (map Inr ds)) (Inr []) collecting = (None, Some bs) \<and>
     concat bs = [replayed (ex_record ''p0'' 1)] \<and> acked collecting [] bs bs"
proof -
  obtain s where s: "reaches (ex_env 1 1 1) (ex_source [1]) [ex_part] ref_store (Some []) refused_run s"
    "finished s" "first_err s = None" "written s = []"
    using refused_run_reaches by blast
  have env: "1 \<le> num_transformers (env_cfg (ex_env 1 1 1))" "list_all line_accepted refused_run" "''f'' \<noteq> []"
    by (simp_all add: ex_env_def refused_run_def)
  have all: "map (env_map (ex_env 1 1 1)) (all_records (ex_source [1]) [ex_part]) = [ex_record ''p0'' 1]"
    by (simp add: ex_env_def all_records_def ex_source_def ex_part_def)
  have "\<forall>x \<in> set (map (env_map (ex_env 1 1 1)) (all_records (ex_source [1]) [ex_part])). marshals x"
    unfolding all by (simp add: marshals_def ex_record_def)
  then have "\<forall>x \<in> set (all_records (ex_source [1]) [ex_part]). marshals (env_map (ex_env 1 1 1) x)" by simp
  from replay_completes_migration [OF ex_env_ok(1) env(1) this s(1) env(2) s(2,3) env(3), of sample_config "[]" collecting]
  obtain ds bs t' where r: "dlq_log s = Some ds"
    "run_replay sample_config ''f'' (Inr (map Inr ds)) (Inr []) collecting = (None, Some t')"
    "t' = write_all collecting [] bs" "accepting collecting \<longrightarrow> acked collecting [] bs t'"
    "concat bs = map replayed (rev (rejected s))"
    "mset (written s) + mset (rejected s) =
      mset (map (env_map (ex_env 1 1 1)) (all_records (ex_source [1]) [ex_part]))"
    by (auto simp del: set_map list.set_map)
  have t': "t' = bs" unfolding r(3) collecting_writes by simp
  have "mset (rejected s) = {#ex_record ''p0'' 1#}" using r(6) s(4) unfolding all by simp
  then have "rejected s = [ex_record ''p0'' 1]" by (simp add: mset_single_iff)
  moreover have "accepting collecting" by (simp add: accepting_def collecting_def)
  ultimately show ?thesis using s(1,4) r(1,2,4,5)
    by (intro exI [of _ s] exI [of _ ds] exI [of _ bs] conjI) (simp_all add: t')
qed

text \<open>
  What a replayed record does not keep: its integers come back as floating-point numbers, and a large
  one as another number.
\<close>

lemma replay_rounds_integers:
  assumes "letter_of d \<lparr>rec_id = i, rec_data = [(''id'', VInt64 9007199254740993)], rec_meta = m\<rparr>"
    and "replay_record d = Inr rc"
  shows "map_get (rec_data rc) ''id'' = VFloat64 9007199254740992"
proof -
  have "rec_data rc = [(''id'', VFloat64 (f64_round (of_int (sint (9007199254740993 :: 64 word)))))]"
    using assms(2) replay_letter [OF assms(1)] by (auto simp: replayed_def sort_key_def)
  then show ?thesis by (simp add: map_get_def f64_round_2p53_plus_1)
qed

end
