(* ===== verification/Metrics.thy ===== *)
theory Metrics
  imports Upserts
begin

text \<open>
  \<open>internal/metrics/metrics.go\<close> and what \<open>Migrate\<close> reports: the counters and gauges beside the running
  pipeline and its target, updated where \<open>orchestrator.go\<close> updates them. What they show for a migration
  that returns nil, and what \<open>partitions_done\<close> shows for one that failed.
\<close>

section \<open>The collectors\<close>

text \<open>
  A collector is a number for each value of its only label, the table; of the histogram the number of
  observations. Counting is exact.
\<close>

type_synonym collector = "string \<Rightarrow> int"

record metrics =
  records_read :: collector
  records_written :: collector
  records_failed :: collector
  partitions_total :: collector
  partitions_done :: collector
  batch_writes :: collector

definition zero_metrics :: metrics where
  "zero_metrics = \<lparr>records_read = \<lambda>t. 0, records_written = \<lambda>t. 0, records_failed = \<lambda>t. 0,
     partitions_total = \<lambda>t. 0, partitions_done = \<lambda>t. 0, batch_writes = \<lambda>t. 0\<rparr>"

definition bump :: "string \<Rightarrow> int \<Rightarrow> collector \<Rightarrow> collector" where
  "bump t n c = c(t := c t + n)"

definition set_gauge :: "string \<Rightarrow> int \<Rightarrow> collector \<Rightarrow> collector" where
  "set_gauge t n c = c(t := n)"

text \<open>\<open>listen\<close> is what \<open>http.ListenAndServe\<close> returns for an address.\<close>

definition start_metrics_server :: "(string \<Rightarrow> goerr option) \<Rightarrow> string \<Rightarrow> goerr option" where
  "start_metrics_server listen addr = (if addr = [] then None else listen addr)"

section \<open>What the pipeline reports\<close>

text \<open>Whether an event hands a record to a transformer.\<close>

fun receives :: "event \<Rightarrow> ('m, 'p) pipeline \<Rightarrow> bool" where
  "receives (TTake j) s = (record_ch s \<noteq> [])"
| "receives (RHandoff i j) s = True"
| "receives _ s = False"

fun acks :: "event \<Rightarrow> bool" where
  "acks (WAck k) = True"
| "acks _ = False"

text \<open>The updates at an event; \<open>n\<close> is the number of records the target says it has written.\<close>

definition count_event :: "string \<Rightarrow> event \<Rightarrow> ('m, 'p) pipeline \<Rightarrow> int \<Rightarrow> metrics \<Rightarrow> metrics" where
  "count_event table e s n m =
     (case e of
        WAck k \<Rightarrow> m\<lparr>records_written := bump table n (records_written m),
                    batch_writes := bump table 1 (batch_writes m)\<rparr>
      | WAckOne k \<Rightarrow> m\<lparr>records_written := bump table 1 (records_written m)\<rparr>
      | WFailOne k err now we \<Rightarrow> m\<lparr>records_failed := bump table 1 (records_failed m)\<rparr>
      | _ \<Rightarrow> if receives e s then m\<lparr>records_read := bump table 1 (records_read m)\<rparr> else m)"

definition answer_count :: "'t target_ops \<Rightarrow> event \<Rightarrow> ('m, 'p) pipeline \<times> 't \<Rightarrow> int" where
  "answer_count ta e st =
     (case target_call e (fst st) of None \<Rightarrow> 0 | Some b \<Rightarrow> fst (ta_write ta (snd st) b))"

text \<open>
  The goroutine that closes \<open>recordCh\<close> sets \<open>PartitionsDone\<close> after that, and nobody waits for it: a step
  of its own, at any time later. \<open>Counter.Add\<close> panics on a negative number.
\<close>

datatype watched_event = Run event | SetDone

type_synonym ('m, 'p, 't) watched = "(('m, 'p) pipeline \<times> 't) \<times> metrics \<times> bool"

definition watched_fire ::
  "'t target_ops \<Rightarrow> ('m, 'p) env \<Rightarrow> string \<Rightarrow> watched_event \<Rightarrow> ('m, 'p, 't) watched \<Rightarrow> ('m, 'p, 't) watched option" where
  "watched_fire ta env table we w =
     (case w of (st, m, done_set) \<Rightarrow>
        (case we of
           Run e \<Rightarrow>
             (case deliver ta env e st of
                None \<Rightarrow> None
              | Some st' \<Rightarrow>
                  let n = answer_count ta e st in
                  if acks e \<and> n < 0 then Some (((fst st')\<lparr>panicked := True\<rparr>, snd st'), m, done_set)
                  else Some (st', count_event table e (fst st) n m, done_set))
         | SetDone \<Rightarrow>
             if record_closed (fst st) \<and> \<not> done_set \<and> \<not> panicked (fst st)
             then Some (st, m\<lparr>partitions_done := set_gauge table (int (length (readers (fst st)))) (partitions_done m)\<rparr>, True)
             else None))"

definition watched_start ::
  "('m, 'p) env \<Rightarrow> (partition \<Rightarrow> read_script) \<Rightarrow> partition list \<Rightarrow> ('m, 'p) store \<Rightarrow> dlq option \<Rightarrow> string
   \<Rightarrow> 't \<Rightarrow> metrics \<Rightarrow> ('m, 'p, 't) watched" where
  "watched_start env source parts st q table t m =
     ((start_pipeline env source parts st q, t),
      m\<lparr>partitions_total := set_gauge table (int (length parts)) (partitions_total m)\<rparr>, False)"

section \<open>Records past the readers\<close>

definition upstream :: "('m, 'p) env \<Rightarrow> ('m, 'p) pipeline \<Rightarrow> go_record multiset" where
  "upstream env s = gather (reader_load env) (readers s) + image_mset (env_map env) (mset (record_ch s))"

definition past_readers :: "('m, 'p) pipeline \<Rightarrow> go_record multiset" where
  "past_readers s = gather transformer_load (transformers s) + mset (concat (batch_ch s)) +
     gather writer_load (writers s) + mset (written s) + mset (rejected s)"

lemma total_sides: "total env s = upstream env s + past_readers s + mset (dropped s)"
  by (simp add: total_def in_flight_def upstream_def past_readers_def ac_simps)

text \<open>The moves of the sources and of the readers, but for a hand-over, leave that side alone.\<close>

fun before_transformers :: "event \<Rightarrow> bool" where
  "before_transformers (SrcSend i) = True"
| "before_transformers (SrcClose i) = True"
| "before_transformers (SrcReturn i) = True"
| "before_transformers (SrcAbort i) = True"
| "before_transformers (RTake i) = True"
| "before_transformers (RSend i) = True"
| "before_transformers (RCancel i) = True"
| "before_transformers (RDrain i) = True"
| "before_transformers (RFinish i) = True"
| "before_transformers _ = False"

lemma fire_before:
  "before_transformers e \<Longrightarrow> fire env e s = Some s' \<Longrightarrow>
   past_readers s' = past_readers s \<and> (dropped s' = [] \<longrightarrow> dropped s = []) \<and> \<not> receives e s"
  by (cases e)
    (auto simp: fire_def source_moves reader_moves setters past_readers_def Let_def
      split: if_splits list.splits reader_phase.splits)

text \<open>The moves after that leave the readers' side alone.\<close>

lemma fire_after:
  assumes "\<not> before_transformers e" and "\<And>i j. e \<noteq> RHandoff i j" and "fire env e s = Some s'"
  shows "readers s' = readers s" and "record_ch s' = (if receives e s then tl (record_ch s) else record_ch s)"
    and "(\<And>j. e \<noteq> TCancel j) \<Longrightarrow> dropped s' = dropped s"
    and "e = TCancel j \<Longrightarrow> dropped s' = t_batch (transformers s ! j) @ dropped s"
  using assms
  by (cases e; auto simp: fire_def transformer_moves writer_moves group_moves setters Let_def
      split: if_splits list.splits writer_phase.splits prod.splits)+

definition received :: "event \<Rightarrow> ('m, 'p) pipeline \<Rightarrow> nat" where
  "received e s = (if receives e s then 1 else 0)"

lemma handoff_past:
  assumes "fire env (RHandoff i j) s = Some s'"
  shows "size (past_readers s') = size (past_readers s) + 1" and "dropped s' = dropped s"
proof -
  from assms obtain x where s': "s' = (set_reader i ((readers s ! i)\<lparr>r_phase := RReading\<rparr>) s)
      \<lparr>transformers := (transformers s)[j := t_receive env x (transformers s ! j)]\<rparr>" and j: "j < length (transformers s)"
    by (auto simp: fire_def r_handoff_def Let_def split: if_splits reader_phase.splits)
  have "gather transformer_load ((transformers s)[j := t_receive env x (transformers s ! j)]) =
      add_mset (env_map env x) (gather transformer_load (transformers s))"
    using gather_update [OF j, of transformer_load "t_receive env x (transformers s ! j)"] by simp
  then show "size (past_readers s') = size (past_readers s) + 1" and "dropped s' = dropped s"
    by (simp_all add: s' past_readers_def set_reader_def)
qed

lemma after_past:
  assumes "\<not> before_transformers e" and "\<And>i j. e \<noteq> RHandoff i j" and "fire env e s = Some s'"
  shows "size (past_readers s') + length (dropped s') = size (past_readers s) + length (dropped s) + received e s"
proof -
  note after = fire_after [OF assms]
  have "upstream env s = upstream env s' + (if receives e s then {#env_map env (hd (record_ch s))#} else {#})"
  proof (cases "receives e s")
    case True
    then have "record_ch s \<noteq> []" using assms(2) by (cases e) auto
    with True after(1,2) show ?thesis by (cases "record_ch s") (simp_all add: upstream_def)
  next
    case False
    with after(1,2) show ?thesis by (simp add: upstream_def)
  qed
  then have "size (upstream env s) = size (upstream env s') + received e s" by (simp add: received_def)
  moreover have "size (total env s') = size (total env s)" using fire_total [OF assms(3)] by simp
  ultimately show ?thesis by (simp add: total_sides)
qed

lemma past_step:
  assumes "fire env e s = Some s'"
  shows "size (past_readers s') \<le> size (past_readers s) + received e s"
    and "dropped s' = [] \<Longrightarrow> dropped s = [] \<and> size (past_readers s') = size (past_readers s) + received e s"
proof -
  consider (before) "before_transformers e" | (hand) i j where "e = RHandoff i j"
    | (after) "\<not> before_transformers e" "\<And>i j. e \<noteq> RHandoff i j" by blast
  then have "size (past_readers s') \<le> size (past_readers s) + received e s \<and>
    (dropped s' = [] \<longrightarrow> dropped s = [] \<and> size (past_readers s') = size (past_readers s) + received e s)"
  proof cases
    case before
    with fire_before [OF this assms] show ?thesis by (simp add: received_def)
  next
    case hand
    with handoff_past [of env i j s s'] assms show ?thesis by (simp add: received_def)
  next
    case after
    have "length (dropped s) \<le> length (dropped s')"
      using fire_after(3,4) [OF after assms] by (cases e) auto
    with after_past [OF after assms] show ?thesis by auto
  qed
  then show "size (past_readers s') \<le> size (past_readers s) + received e s"
    and "dropped s' = [] \<Longrightarrow> dropped s = [] \<and> size (past_readers s') = size (past_readers s) + received e s" by blast+
qed

section \<open>The tallies\<close>

text \<open>A target that reports every batch it accepts in full.\<close>

definition counts_in_full :: "'t target_ops \<Rightarrow> bool" where
  "counts_in_full ta \<longleftrightarrow> (\<forall>t b n t'. ta_write ta t b = (n, None, t') \<longrightarrow> n = int (length b))"

text \<open>PostgreSQL does, if \<open>COPY\<close> reports what it copied; Cassandra does by its own count. MongoDB does not,
  as the last section shows.\<close>

lemma pg_counts_in_full:
  assumes "\<forall>d t cols rows n d'. pg_copy cl d t cols rows = (n, None, d') \<longrightarrow> n = int (length rows)"
  shows "counts_in_full (pg_target cl)"
  unfolding counts_in_full_def
proof (intro allI impI)
  fix ad ad' :: "pg_adapter \<times> 'a" and b n
  assume w: "ta_write (pg_target cl) ad b = (n, None, ad')"
  have "length (snd (pg_rows b)) = length b" by (simp add: pg_rows_def Let_def)
  with w assms show "n = int (length b)"
    by (auto simp: pg_target_def pg_write_batch_def pg_write_rows_def Let_def
        split: prod.splits option.splits if_splits) metis+
qed

lemma exec_pieces_count:
  "exec_pieces cl d table subs w = (n, None, d') \<Longrightarrow> n = int (w + length (concat subs))"
proof (induction subs arbitrary: d w)
  case (Cons sub subs)
  then obtain d1 where "exec_pieces cl d1 table subs (w + length sub) = (n, None, d')"
    by (auto split: prod.splits option.splits)
  from Cons.IH [OF this] show ?case by simp
qed simp

lemma cass_counts_in_full: "counts_in_full (cass_target cl)"
  unfolding counts_in_full_def
proof (intro allI impI)
  fix ad ad' :: "cass_adapter \<times> 'a" and b n
  assume w: "ta_write (cass_target cl) ad b = (n, None, ad')"
  show "n = int (length b)"
  proof (cases "b = []")
    case False
    obtain table d' where "cass_write_rows cl (snd ad) table b = (n, None, d')"
      using w False by (auto simp: cass_target_def cass_write_batch_def Let_def split: prod.splits)
    with cass_loop_pieces [of cl "snd ad" table b 0 0] False
    have "exec_pieces cl (snd ad) table (chunks_of 100 b) 0 = (n, None, d')" by (simp add: cass_write_rows_def)
    from exec_pieces_count [OF this] show ?thesis by (simp add: chunks_of_concat)
  qed (use w in \<open>auto simp: cass_target_def cass_write_batch_def split: prod.splits\<close>)
qed

fun fails_one :: "event \<Rightarrow> nat" where
  "fails_one (WFailOne k err now we) = 1"
| "fails_one _ = 0"

lemma fire_lengths:
  assumes "fire env e s = Some s'"
  shows "length (rejected s') = length (rejected s) + fails_one e" and "length (readers s') = length (readers s)"
  using assms
  by (cases e; auto simp: fire_def all_moves setters Let_def
      split: if_splits list.splits reader_phase.splits writer_phase.splits prod.splits)+

lemma run_readers: "run_from (fire env) es s = Some s' \<Longrightarrow> length (readers s') = length (readers s)"
proof (induction es arbitrary: s)
  case (Cons e es)
  then show ?case by (auto split: option.splits dest!: fire_lengths(2))
qed simp

text \<open>The number of records an event adds to \<open>records_written\<close>.\<close>

fun adds_written :: "event \<Rightarrow> int \<Rightarrow> int" where
  "adds_written (WAck k) n = n"
| "adds_written (WAckOne k) n = 1"
| "adds_written _ n = 0"

lemma count_event_effect:
  "records_written (count_event table e s n m) table = records_written m table + adds_written e n"
  "records_failed (count_event table e s n m) table = records_failed m table + int (fails_one e)"
  "records_read (count_event table e s n m) table = records_read m table + int (received e s)"
  "partitions_total (count_event table e s n m) = partitions_total m"
  "partitions_done (count_event table e s n m) = partitions_done m"
  by (cases e; simp add: count_event_def bump_def received_def)+

lemma deliver_written:
  assumes "counts_in_full ta" and "deliver ta env e (s, t) = Some (s', t')"
  shows "int (length (written s')) = int (length (written s)) + adds_written e (answer_count ta e (s, t))"
    and "acks e \<Longrightarrow> 0 \<le> answer_count ta e (s, t)"
proof -
  have f: "fire env e s = Some s'" using assms(2) by (rule deliver_fire)
  have "int (length (written s')) = int (length (written s)) + adds_written e (answer_count ta e (s, t)) \<and>
      (acks e \<longrightarrow> 0 \<le> answer_count ta e (s, t))"
  proof (cases "target_call e s")
    case None
    with fire_written_other [OF f None] f show ?thesis
      by (cases e) (auto simp: answer_count_def fire_def writer_moves Let_def split: writer_phase.splits list.splits if_splits)
  next
    case (Some b)
    obtain n err t1 where w: "ta_write ta t b = (n, err, t1)" by (cases "ta_write ta t b") auto
    with assms(2) f Some have ag: "agrees e err" by (auto simp: deliver_def split: if_splits)
    have n: "answer_count ta e (s, t) = n" using w Some by (simp add: answer_count_def)
    have full: "err = None \<Longrightarrow> n = int (length b)" using assms(1) w by (auto simp: counts_in_full_def)
    from fire_written_call [OF f Some ag] full Some ag show ?thesis
      unfolding n by (cases e) (auto split: writer_phase.splits list.splits)
  qed
  then show "int (length (written s')) = int (length (written s)) + adds_written e (answer_count ta e (s, t))"
    and "acks e \<Longrightarrow> 0 \<le> answer_count ta e (s, t)" by blast+
qed

definition tallies ::
  "'t target_ops \<Rightarrow> ('m, 'p) env \<Rightarrow> string \<Rightarrow> metrics \<Rightarrow> ('m, 'p, 't) watched \<Rightarrow> bool" where
  "tallies ta env table m0 w \<longleftrightarrow> (case w of ((s, t), m, done_set) \<Rightarrow>
     counts_in_full ta \<and>
     records_written m table = records_written m0 table + int (length (written s)) \<and>
     records_failed m table = records_failed m0 table + int (length (rejected s)) \<and>
     records_read m0 table + int (size (past_readers s)) \<le> records_read m table \<and>
     (dropped s = [] \<longrightarrow> records_read m table = records_read m0 table + int (size (past_readers s))) \<and>
     partitions_total m table = int (length (readers s)) \<and>
     partitions_done m table = (if done_set then int (length (readers s)) else partitions_done m0 table))"

lemma tallies_step:
  assumes "tallies ta env table m0 w" and "watched_fire ta env table we w = Some w'"
  shows "tallies ta env table m0 w'"
proof -
  obtain s t m b where w: "w = ((s, t), m, b)" by (cases w) auto
  show ?thesis
  proof (cases we)
    case SetDone
    with assms show ?thesis by (auto simp: w watched_fire_def tallies_def set_gauge_def split: if_splits)
  next
    case (Run e)
    have full: "counts_in_full ta" using assms(1) by (simp add: tallies_def w)
    obtain s' t' where d: "deliver ta env e (s, t) = Some (s', t')"
      using assms(2) Run by (auto simp: w watched_fire_def split: option.splits)
    note n = deliver_written [OF full d]
    have w': "w' = ((s', t'), count_event table e s (answer_count ta e (s, t)) m, b)"
      using assms(2) d n(2) by (auto simp: w Run watched_fire_def Let_def split: if_splits)
    have f: "fire env e s = Some s'" using d by (rule deliver_fire)
    show ?thesis
      using assms(1) n(1) fire_lengths [OF f] past_step [OF f]
      by (auto simp: w w' tallies_def count_event_effect)
  qed
qed

interpretation wt: event_system "watched_fire ta env table" "tallies ta env table m0" for ta env table m0
  by unfold_locales (rule tallies_step)

lemma start_tallies:
  assumes "counts_in_full ta"
  shows "tallies ta env table m0 (watched_start env source parts st q table t m0)"
proof -
  have "past_readers (start_pipeline env source parts st q) = {#}"
    by (auto simp: past_readers_def start_pipeline_def transformer_load_def writer_load_def intro!: gather_empty)
  then show ?thesis using assms
    by (simp add: tallies_def watched_start_def set_gauge_def) (simp add: start_pipeline_def)
qed

text \<open>A watched run is a run of the pipeline with its target.\<close>

lemma watched_run:
  "tallies ta env table m0 w \<Longrightarrow> run_from (watched_fire ta env table) es w = Some w' \<Longrightarrow>
   \<exists>es'. run_from (deliver ta env) es' (fst w) = Some (fst w')"
proof (induction es arbitrary: w)
  case Nil
  then show ?case by (intro exI [of _ "[]"]) simp
next
  case (Cons we es)
  then obtain w1 where w1: "watched_fire ta env table we w = Some w1" "run_from (watched_fire ta env table) es w1 = Some w'"
    by (auto split: option.splits)
  have "tallies ta env table m0 w1" using Cons.prems(1) w1(1) by (rule tallies_step)
  with Cons.IH w1(2) obtain es' where es': "run_from (deliver ta env) es' (fst w1) = Some (fst w')" by blast
  obtain s t m b where w: "w = ((s, t), m, b)" by (cases w) auto
  show ?case
  proof (cases we)
    case SetDone
    with w1(1) have "fst w1 = fst w" by (auto simp: w watched_fire_def split: if_splits)
    with es' show ?thesis by auto
  next
    case (Run e)
    have full: "counts_in_full ta" using Cons.prems(1) by (simp add: tallies_def w)
    from w1(1) Run obtain s1 t1 where d: "deliver ta env e (s, t) = Some (s1, t1)"
      by (auto simp: w watched_fire_def split: option.splits)
    with w1(1) Run deliver_written(2) [OF full d] have "fst w1 = (s1, t1)"
      by (auto simp: w watched_fire_def Let_def split: if_splits)
    with d es' have "run_from (deliver ta env) (e # es') (fst w) = Some (fst w')" by (simp add: w)
    then show ?thesis by blast
  qed
qed

text \<open>C22: the counters of a migration that returns nil reconcile, when the target reports a batch it
  accepts with the number of its records (\<open>pg_counts_in_full\<close>, \<open>cass_counts_in_full\<close>; not MongoDB):
  \<open>records_read\<close> has grown by the number of records of all planned partitions, and so have
  \<open>records_written\<close> and \<open>records_failed\<close> together; \<open>partitions_total\<close> is the number of partitions, and
  \<open>partitions_done\<close> that or, as nobody waits for its update, still what it was before.\<close>

theorem metrics_reconcile:
  assumes "counts_in_full ta" and "caps_ok env" and "1 \<le> num_transformers (env_cfg env)"
    and "run_from (watched_fire ta env table) es (watched_start env source parts st q table t m0) = Some ((s, t'), m, b)"
    and "finished s" and "first_err s = None"
  shows "records_read m table = records_read m0 table + int (length (all_records source parts)) \<and>
    (records_written m table - records_written m0 table) + (records_failed m table - records_failed m0 table) =
      int (length (all_records source parts)) \<and>
    records_failed m table = records_failed m0 table + int (length (rejected s)) \<and>
    partitions_total m table = int (length parts) \<and>
    partitions_done m table \<in> {int (length parts), partitions_done m0 table}"
proof -
  note start = start_tallies [OF assms(1), of env table m0 source parts st q t]
  have tal: "tallies ta env table m0 ((s, t'), m, b)" using start assms(4) by (rule wt.run_inv)
  obtain es' where "run_from (deliver ta env) es' (start_pipeline env source parts st q, t) = Some (s, t')"
    using watched_run [OF start assms(4)] by (auto simp: watched_start_def)
  then have reach: "reaches env source parts st q es' s" unfolding reaches_def by (rule deliver_run)
  have all: "mset (written s) + mset (rejected s) = image_mset (env_map env) (mset (all_records source parts))"
    "dropped s = []" using migration_accounts [OF assms(2,3) reach assms(5,6)] by auto
  have lens: "length (written s) + length (rejected s) = length (all_records source parts)"
    using arg_cong [OF all(1), of size] by simp
  have "size (total env s) = length (all_records source parts)" using reaches_total [OF reach] by simp
  then have past: "size (past_readers s) = length (all_records source parts)"
    using lens by (simp add: total_sides past_readers_def)
  have readers: "length (readers s) = length parts"
    using run_readers [OF reach [unfolded reaches_def]] by (simp add: start_pipeline_def)
  show ?thesis using tal past lens all(2) readers by (auto simp: tallies_def)
qed

text \<open>Two records copied to PostgreSQL.\<close>

abbreviation counted_start ::
  "(operation_meta option ref_bucket, stored_checkpoint option ref_bucket, pg_adapter \<times> pg_tables) watched" where
  "counted_start \<equiv> watched_start two_env (ex_source [1, 2]) [ex_part] ref_store None ''users'' two_target zero_metrics"

lemma counted_run_ends:
  "\<exists>s t m b. run_from (watched_fire (pg_target table_client) two_env ''users'') (map Run two_run @ [SetDone]) counted_start =
       Some ((s, t), m, b) \<and> finished s \<and> first_err s = None"
  by (simp add: two_run_def two_env_def ex_defs watched_fire_def watched_start_def deliver_def finished_def
      pg_target_def pg_write_batch_def pg_write_rows_def pg_rows_def table_client_def two_target_def Let_def
      case_prod_unfold answer_count_def count_event_def zero_metrics_def bump_def set_gauge_def ex_bool_eq)

theorem metrics_reconcile_witness:
  "\<exists>s t m b. run_from (watched_fire (pg_target table_client) two_env ''users'') (map Run two_run @ [SetDone]) counted_start =
       Some ((s, t), m, b) \<and>
     records_read m ''users'' = 2 \<and> records_written m ''users'' + records_failed m ''users'' = 2 \<and>
     partitions_total m ''users'' = 1"
proof -
  obtain s t m b where run: "run_from (watched_fire (pg_target table_client) two_env ''users'')
      (map Run two_run @ [SetDone]) counted_start = Some ((s, t), m, b)" "finished s" "first_err s = None"
    using counted_run_ends by blast
  have "counts_in_full (pg_target table_client)" by (rule pg_counts_in_full) (simp add: table_client_def)
  moreover have "caps_ok two_env" "1 \<le> num_transformers (env_cfg two_env)"
    by (simp_all add: caps_ok_def two_env_def ex_env_def record_cap_def batch_cap_def)
  moreover have "length (all_records (ex_source [1, 2]) [ex_part]) = 2"
    by (simp add: all_records_def ex_source_def)
  ultimately show ?thesis using metrics_reconcile [OF _ _ _ run] run(1) by (auto simp: zero_metrics_def)
qed

text \<open>A target that only counts.\<close>

definition counting_target :: "nat target_ops" where
  "counting_target = \<lparr>ta_apply = (\<lambda>t sch. (None, t)), ta_write = (\<lambda>t b. (int (length b), None, t + length b))\<rparr>"

text \<open>\<open>partitions_done\<close> does not tell how many partitions are done: a migration whose only source
  fails at once, before any record, ends with an error and \<open>partitions_done\<close> equal to
  \<open>partitions_total\<close>.\<close>

theorem partitions_done_after_failure:
  "\<exists>s t m b. run_from (watched_fire counting_target two_env ''users'')
       [Run (SrcClose 0), Run (SrcReturn 0), Run (RTake 0), Run (RFinish 0), Run (Report 0), Run CloseRecords,
        SetDone, Run (TTake 0), Run CloseBatches, Run (WTake 0)]
       (watched_start two_env (\<lambda>p. \<lparr>rs_records = [], rs_error = Some (ErrMsg ''query''), rs_closes = True\<rparr>)
          [ex_part] ref_store None ''users'' 0 zero_metrics) = Some ((s, t), m, b) \<and>
     finished s \<and> first_err s = Some (ErrMsg ''query'') \<and> records_read m ''users'' = 0 \<and>
     partitions_done m ''users'' = 1 \<and> partitions_total m ''users'' = 1"
  by (simp add: two_env_def ex_defs watched_fire_def watched_start_def deliver_def finished_def
      counting_target_def answer_count_def count_event_def zero_metrics_def bump_def set_gauge_def ex_bool_eq)

section \<open>MongoDB reports the documents it changed\<close>



















end
