(* ===== verification/Command.thy ===== *)
theory Command
  imports Delivery Cli_Props
begin

text \<open>
  The command \<open>migrate\<close> with the orchestrator it starts: from the configuration to the rows of the
  target and the entry in the audit log.
\<close>

section \<open>What the orchestrator may answer\<close>

text \<open>
  \<open>Migrate\<close> has returned \<open>err\<close> and left the target in \<open>t'\<close>: some interleaving of the pipeline with the target
  ends in \<open>s\<close> with that error.
\<close>

definition migrate_returns ::
  "'t target_ops \<Rightarrow> ('m, 'p) env \<Rightarrow> source_ops \<Rightarrow> string \<Rightarrow> ('m, 'p) store \<Rightarrow> dlq option \<Rightarrow> 't
   \<Rightarrow> goerr option \<Rightarrow> 't \<Rightarrow> ('m, 'p) pipeline \<Rightarrow> bool" where
  "migrate_returns ta env src table st q t err t' s \<longleftrightarrow>
     (\<exists>es s0. migrate_from env src table st q = MRuns s0 \<and> run_from (deliver ta env) es (s0, t) = Some (s, t') \<and>
        finished s \<and> first_err s = err)"

text \<open>The orchestrator that \<open>migrate\<close> makes of the configuration.\<close>

definition migrate_env :: "host \<Rightarrow> config \<Rightarrow> string \<Rightarrow> string \<Rightarrow> ('m, 'p) bolt_db \<Rightarrow> ('m, 'p) env" where
  "migrate_env ho cfg from_ty to_ty db =
     new_orchestrator (cf_concurrency cfg) db
       (Some (new_schema_mapper from_ty to_ty (mc_masking (cf_migration cfg)))) (''mig-'' @ show_int (ho_pid ho))"

lemma migrate_env_simps [simp]:
  "env_cfg (migrate_env ho cfg x y db) = cf_concurrency cfg"
  "env_map (migrate_env ho cfg x y db) = map_record (new_schema_mapper x y (mc_masking (cf_migration cfg)))"
  "env_db (migrate_env ho cfg x y db) = db"
  "env_op (migrate_env ho cfg x y db) = ''mig-'' @ show_int (ho_pid ho)"
  by (simp_all add: migrate_env_def new_orchestrator_def)

section \<open>The steps before the orchestrator\<close>

text \<open>A command that succeeds has a table, a schema, a target that took the schema, and an orchestrator that
  returned nil.\<close>

lemma run_migrate_success:
  assumes "run_migrate ho cfg store_err dlq_err (Inr src) ty (Inr t) ta orch lg = (None, lg', t')"
  obtains table tables sch t1 t2 where "db_tables (cf_source cfg) = table # tables"
    and "sa_schema src table = Inr sch" and "ta_apply ta t sch = (None, t1)"
    and "orch (''mig-'' @ show_int (ho_pid ho))
           (new_schema_mapper (sa_type src) ty (mc_masking (cf_migration cfg))) src t1 table = (None, t2)"
    and "t' = Some t2"
    and "lg' = write_audit_entry ho True (end_entry ho ''migrate'' (endpoint (cf_source cfg)) (endpoint (cf_target cfg))
           (table # tables) 0 None) (write_audit_entry ho False (start_entry ho cfg ''migrate''
           (endpoint (cf_source cfg)) (endpoint (cf_target cfg)) (table # tables)) lg)"
  using assms
  by (auto simp: run_migrate_def Let_def case_prod_unfold prod_eq_iff split: option.splits list.splits sum.splits)

section \<open>From the configuration to the rows\<close>

text \<open>C3: the command \<open>migrate\<close> from PostgreSQL to PostgreSQL, from the configuration on: when it succeeds
  (with a process number that has no checkpoints, and whatever interleaving the orchestrator went
  through), the target's table of the first configured name has what it had and every row of the
  source once, masked by the configured rules, except rejected ones; and the audit log has gained an
  entry of the start and one of the success.\<close>

theorem migrate_command_delivers:
  assumes source: "serves scl d table cols rows" "\<forall>r \<in> set rows. length r = length cols"
      "pg_min_max scl d (''SELECT MIN(id), MAX(id) FROM '' @ pg_sanitize scl table) = Inr (Some lo, Some hi)"
      "\<forall>r \<in> set rows. sint lo \<le> key_of cols r \<and> key_of cols r \<le> sint hi"
      "pg_safe lo hi (num_readers (cf_concurrency cfg))"
    and config: "db_tables (cf_source cfg) = table # tables" "1 \<le> num_transformers (cf_concurrency cfg)"
      "known_checkpoints db st (''mig-'' @ show_int (ho_pid ho)) = []" "ho_audit_err ho = (\<lambda>second. None)"
    and target: "copy_laws tcl tab" "create_laws tcl tab"
    and orch: "\<forall>sch t1 t2. pg_apply tcl (new_postgres_adapter, td) sch = (None, t1) \<longrightarrow> schema_name sch = table \<longrightarrow>
      orch (''mig-'' @ show_int (ho_pid ho)) mapper (pg_source scl sa d) t1 table = (None, t2) \<longrightarrow>
      (\<exists>s. migrate_returns (pg_target tcl) (migrate_env ho cfg ''postgres'' ''postgres'' db) (pg_source scl sa d) table st q t1 None t2 s)"
    and mapper: "mapper = new_schema_mapper ''postgres'' ''postgres'' (mc_masking (cf_migration cfg))"
    and run: "run_migrate ho cfg store_err dlq_err (Inr (pg_source scl sa d)) ''postgres'' (Inr (new_postgres_adapter, td))
        (pg_target tcl) orch (Some es) = (None, lg, t')"
  shows "\<exists>t1 ta td' s a b. t' = Some (ta, td') \<and> lg = Some (es @ [a, b]) \<and>
    ae_operation a = ''migrate'' \<and> ae_operation b = ''migrate'' \<and> ae_outcome b = ''success'' \<and>
    migrate_returns (pg_target tcl) (migrate_env ho cfg ''postgres'' ''postgres'' db) (pg_source scl sa d) table st q t1 None (ta, td') s \<and>
    tab td' table + image_mset row_of_record (mset (rejected s)) =
      tab td table + image_mset (masked_row mapper cols) (mset rows)"
proof -
  have ty: "sa_type (pg_source scl sa d) = ''postgres''" by (simp add: pg_source_def)
  obtain table' tables' sch t1 t2 where same: "db_tables (cf_source cfg) = table' # tables'"
    and sch: "sa_schema (pg_source scl sa d) table' = Inr sch"
    and applied: "ta_apply (pg_target tcl) (new_postgres_adapter, td) sch = (None, t1)"
    and o: "orch (''mig-'' @ show_int (ho_pid ho)) (new_schema_mapper (sa_type (pg_source scl sa d)) ''postgres''
      (mc_masking (cf_migration cfg))) (pg_source scl sa d) t1 table' = (None, t2)" "t' = Some t2"
    and lg: "lg = write_audit_entry ho True (end_entry ho ''migrate'' (endpoint (cf_source cfg)) (endpoint (cf_target cfg))
           (table' # tables') 0 None) (write_audit_entry ho False (start_entry ho cfg ''migrate''
           (endpoint (cf_source cfg)) (endpoint (cf_target cfg)) (table' # tables')) (Some es))"
    by (rule run_migrate_success [OF run])
  have [simp]: "table' = table" "tables' = tables" using same config(1) by simp_all
  have name: "schema_name sch = table" using sch by (auto simp: pg_source_def intro: pg_schema_name)
  obtain d1 where t1: "t1 = (new_postgres_adapter\<lparr>pa_writer := Some table\<rparr>, d1)" "tab d1 = tab td"
    using pg_apply_ready [of tcl new_postgres_adapter td sch t1] applied target(2) name
    by (auto simp: pg_target_def create_laws_def)
  have "orch (''mig-'' @ show_int (ho_pid ho)) mapper (pg_source scl sa d) t1 table = (None, t2)"
    using o(1) by (simp add: ty mapper)
  moreover have "pg_apply tcl (new_postgres_adapter, td) sch = (None, t1)" using applied by (simp add: pg_target_def)
  ultimately obtain s where
    s: "migrate_returns (pg_target tcl) (migrate_env ho cfg ''postgres'' ''postgres'' db) (pg_source scl sa d) table st q t1 None t2 s"
    using orch name by blast
  obtain ta td' where t2: "t2 = (ta, td')" by (cases t2)
  let ?env = "migrate_env ho cfg ''postgres'' ''postgres'' db"
  from s obtain evs s0 where run': "migrate_from ?env (pg_source scl sa d) table st q = MRuns s0"
    "run_from (deliver (pg_target tcl) ?env) evs (s0, new_postgres_adapter\<lparr>pa_writer := Some table\<rparr>, d1) = Some (s, ta, td')"
    "finished s" "first_err s = None"
    unfolding migrate_returns_def t1(1) t2 by blast
  have env: "pg_safe lo hi (num_readers (env_cfg ?env))" "env_map ?env = map_record mapper"
    "1 \<le> num_transformers (env_cfg ?env)" "known_checkpoints (env_db ?env) st (env_op ?env) = []"
    using source(5) config(2,3) by (simp_all add: mapper)
  have "pa_writer (new_postgres_adapter\<lparr>pa_writer := Some table\<rparr>) = Some table" by simp
  from pg_migration_rows [OF source(1-4) env target(1) this run']
  have "tab td' table + image_mset row_of_record (mset (rejected s)) = tab d1 table + image_mset (masked_row mapper cols) (mset rows)" .
  moreover have no_err: "ho_audit_err ho False = None" "ho_audit_err ho True = None" using config(4) by simp_all
  moreover obtain a where a: "write_audit_entry ho False (start_entry ho cfg ''migrate'' (endpoint (cf_source cfg))
      (endpoint (cf_target cfg)) (table # tables)) (Some es) = Some (es @ [a])" "ae_operation a = ''migrate''"
    using start_appended [OF no_err(1)] by blast
  moreover obtain b where "write_audit_entry ho True (end_entry ho ''migrate'' (endpoint (cf_source cfg))
      (endpoint (cf_target cfg)) (table # tables) 0 None) (Some (es @ [a])) = Some (es @ [a] @ [b])"
      "ae_operation b = ''migrate''" "ae_outcome b = ''success''"
    using end_appended [OF no_err(2), of "''migrate''" "endpoint (cf_source cfg)" "endpoint (cf_target cfg)" "table # tables" 0 None "es @ [a]"]
    by auto
  ultimately show ?thesis using o(2) s lg t1(2) t2
    by (intro exI [of _ t1] exI [of _ ta] exI [of _ td'] exI [of _ s] exI [of _ a] exI [of _ b]) simp
qed

text \<open>The two rows of \<^const>\<open>two_rows\<close>, by the command, their names redacted.\<close>

definition described_client :: "unit pg_client" where
  "described_client = tiny_client\<lparr>pg_columns := (\<lambda>d t s. Inr ([Inr (''id'', ''bigint'', ''NO'')], None))\<rparr>"

definition redacting_config :: config where
  "redacting_config = sample_config
     \<lparr>cf_concurrency := (cf_concurrency sample_config)\<lparr>flush_every_n_batches := 10\<rparr>,
      cf_migration := (cf_migration sample_config)\<lparr>mc_masking := [\<lparr>mask_column = ''name'', mask_strategy = ''redact''\<rparr>]\<rparr>\<rparr>"

abbreviation command_env :: "(operation_meta option ref_bucket, stored_checkpoint option ref_bucket) env" where
  "command_env \<equiv> migrate_env sample_host redacting_config ''postgres'' ''postgres'' ref_db"

abbreviation described_source :: source_ops where
  "described_source \<equiv> pg_source described_client new_postgres_adapter ()"

definition ready_target :: "pg_adapter \<times> pg_tables" where
  "ready_target = (new_postgres_adapter\<lparr>pa_writer := Some ''t''\<rparr>, \<lambda>t. {#})"

lemma described_reads:
  "pg_read_partition described_client () background (make_range ''t'' 0 3 9) =
     closed_read (map (pg_record (make_range ''t'' 0 3 9) [''id'', ''name'']) two_rows, None)"
  by (simp add: pg_read_partition_def described_client_def tiny_client_def make_range_def two_rows_def key_of_def
      pg_row_def background_def)

lemma described_start:
  "migrate_from command_env described_source ''t'' ref_store None =
     MRuns (start_pipeline command_env (\<lambda>p. script_of (pg_read_partition described_client () background p))
       [make_range ''t'' 0 3 9] ref_store None)"
  by (simp add: migrate_from_def migrate_def pg_source_def pg_partitions_def described_client_def tiny_client_def
      split_range_def redacting_config_def sample_config_def caps_ok_def record_cap_def batch_cap_def
      known_checkpoints_def ref_eval)

lemma command_run:
  "\<exists>s t2. migrate_returns (pg_target table_client) command_env described_source ''t'' ref_store None ready_target None t2 s \<and>
     rejected s = []"
proof -
  have "\<exists>s t2. run_from (deliver (pg_target table_client) command_env) two_run
     (start_pipeline command_env (\<lambda>p. script_of (pg_read_partition described_client () background p))
        [make_range ''t'' 0 3 9] ref_store None, ready_target) = Some (s, t2) \<and>
     finished s \<and> first_err s = None \<and> rejected s = []"
    unfolding start_pipeline_def start_reader_def list.map described_reads
    by (simp add: two_run_def two_rows_def closed_read_def script_of_def redacting_config_def sample_config_def ex_defs
        deliver_def finished_def pg_target_def pg_write_batch_def pg_write_rows_def pg_rows_def table_client_def
        ready_target_def Let_def case_prod_unfold)
  then show ?thesis unfolding migrate_returns_def described_start by blast
qed

lemma described_schema:
  "sa_schema described_source ''t'' = Inr \<lparr>schema_name = ''t'',
     columns = [\<lparr>col_name = ''id'', col_type = ''int64'', nullable = False, primary_key = False\<rparr>]\<rparr>"
  by (simp add: pg_source_def pg_get_schema_def described_client_def tiny_client_def new_postgres_adapter_def
      rows_end_def column_info_def map_postgres_type_def mark_keys_def)

theorem migrate_command_delivers_witness:
  "\<exists>orch lg ta td. run_migrate sample_host redacting_config None None (Inr described_source) ''postgres''
       (Inr (new_postgres_adapter, \<lambda>t. {#})) (pg_target table_client) orch (Some []) = (None, Some lg, Some (ta, td)) \<and>
     map ae_operation lg = [''migrate'', ''migrate''] \<and>
     (\<exists>rej. td ''t'' + rej = image_mset (masked_row redact_names [''id'', ''name'']) (mset two_rows))"
proof -
  let ?cols = "[''id'', ''name'']"
  obtain s t2 where s: "migrate_returns (pg_target table_client) command_env described_source ''t'' ref_store None ready_target None t2 s"
    using command_run by blast
  define orch :: "string \<Rightarrow> schema_mapper \<Rightarrow> source_ops \<Rightarrow> pg_adapter \<times> pg_tables \<Rightarrow> string \<Rightarrow> goerr option \<times> pg_adapter \<times> pg_tables"
    where "orch = (\<lambda>op m src t table. (None, t2))"
  have source: "serves described_client () ''t'' ?cols two_rows" "\<forall>r \<in> set two_rows. length r = length ?cols"
    "pg_min_max described_client () (''SELECT MIN(id), MAX(id) FROM '' @ pg_sanitize described_client ''t'') = Inr (Some 3, Some 8)"
    "\<forall>r \<in> set two_rows. sint (3 :: 64 word) \<le> key_of ?cols r \<and> key_of ?cols r \<le> sint (8 :: 64 word)"
    "pg_safe 3 8 (num_readers (cf_concurrency redacting_config))"
    by (simp_all add: serves_def described_client_def tiny_client_def two_rows_def key_of_def pg_safe_def
        redacting_config_def sample_config_def)
  have config: "db_tables (cf_source redacting_config) = [''t'']" "1 \<le> num_transformers (cf_concurrency redacting_config)"
    "known_checkpoints ref_db ref_store (''mig-'' @ show_int (ho_pid sample_host)) = []"
    "ho_audit_err sample_host = (\<lambda>second. None)"
    by (simp_all add: redacting_config_def sample_config_def sample_db_def sample_host_def known_checkpoints_def ref_eval)
  have target: "copy_laws table_client (\<lambda>d. d)" "create_laws table_client (\<lambda>d. d)"
    by (simp_all add: copy_laws_def create_laws_def table_client_def)
  have mapper: "redact_names = new_schema_mapper ''postgres'' ''postgres'' (mc_masking (cf_migration redacting_config))"
    by (simp add: redact_names_def redacting_config_def)
  have "t1 = ready_target" if "pg_apply table_client (new_postgres_adapter, \<lambda>t. {#}) sch = (None, t1)" "schema_name sch = ''t''" for sch t1
    using that by (simp add: pg_apply_def pg_apply_schema_def table_client_def ready_target_def)
  then have orch: "\<forall>sch t1 t2. pg_apply table_client (new_postgres_adapter, \<lambda>t. {#}) sch = (None, t1) \<longrightarrow> schema_name sch = ''t'' \<longrightarrow>
      orch (''mig-'' @ show_int (ho_pid sample_host)) redact_names described_source t1 ''t'' = (None, t2) \<longrightarrow>
      (\<exists>s. migrate_returns (pg_target table_client) command_env described_source ''t'' ref_store None t1 None t2 s)"
    using s unfolding orch_def by (metis prod.inject)
  obtain lg where run: "run_migrate sample_host redacting_config None None (Inr described_source) ''postgres''
      (Inr (new_postgres_adapter, \<lambda>t. {#})) (pg_target table_client) orch (Some []) = (None, lg, Some t2)"
    using described_schema config(1)
    by (simp add: run_migrate_def orch_def Let_def pg_target_def pg_apply_def pg_apply_schema_def table_client_def)
  from migrate_command_delivers [OF source config target orch mapper run]
  show ?thesis using run by (intro exI [of _ orch]) fastforce
qed

end
