(* ===== verification/Archive.thy ===== *)
theory Archive
  imports Delivery Restore_Props
begin

text \<open>
  A backup of a PostgreSQL table and its restore into PostgreSQL: the adapter's reads, the serializer,
  the chunks in the storage and the adapter's writes, end to end.
\<close>

section \<open>What the archive keeps\<close>

lemma backup_schema:
  "backup en now op_id src table sz z s = Some (Inr (m, s')) \<Longrightarrow> si_schema src = Inr sch \<Longrightarrow> mf_schema m = sch"
  by (auto simp: backup_def Let_def wrap_err_def rbind_Inr_iff split: sum.splits option.splits)

text \<open>
  A table fits a schema if its columns are the schema's and every value is null or of the Go type that
  the column's Parquet type reads back.
\<close>

definition archivable :: "column list \<Rightarrow> string list \<Rightarrow> gval list list \<Rightarrow> bool" where
  "archivable sc cols rows \<longleftrightarrow>
     distinct (map col_name sc) \<and> set (map col_name sc) = set cols \<and>
     (\<forall>r \<in> set rows. length r = length cols \<and>
        (\<forall>c \<in> set sc. keeps_value c (map_get (row_map cols r) (col_name c)) \<and>
           (\<not> nullable c \<longrightarrow> map_get (row_map cols r) (col_name c) \<noteq> VNil)))"

text \<open>A record that came back from an archivable one is the same row.\<close>

lemma came_back_row:
  assumes "archivable sc cols rows" and "r \<in> set rows" and "rec_data rc = row_map cols r" and "came_back sc rc out"
  shows "row_of_record out = map_get (row_map cols r)" and "has_columns (set cols) out"
proof -
  have "length r = length cols" and names: "set (map col_name sc) = set cols"
    using assms(1,2) by (auto simp: archivable_def)
  have "map fst (rec_data out) = map col_name sc" using assms(4) by (simp add: came_back_def)
  then have "set (map fst (rec_data out)) = set cols" unfolding names [symmetric] by simp
  then have keys: "fst ` set (rec_data out) = set cols" "fst ` set (row_map cols r) = set cols"
    using row_map_keys \<open>length r = length cols\<close> by simp_all
  then show "has_columns (set cols) out" by (simp add: has_columns_def)
  show "row_of_record out = map_get (row_map cols r)"
  proof
    fix k
    show "row_of_record out k = map_get (row_map cols r) k"
    proof (cases "k \<in> set cols")
      case True
      then have "k \<in> col_name ` set sc" using names by simp
      then obtain c where c: "c \<in> set sc" "col_name c = k" by blast
      with assms(1,2) have "keeps_value c (map_get (row_map cols r) k)" by (auto simp: archivable_def)
      with assms(3,4) c show ?thesis by (auto simp: came_back_def row_of_record_def)
    next
      case False
      with keys have "k \<notin> dom (map_of (rec_data out))" "k \<notin> dom (map_of (row_map cols r))"
        by (simp_all add: dom_map_of_conv_image_fst)
      then show ?thesis by (simp add: row_of_record_def map_get_def domIff)
    qed
  qed
qed

lemma came_back_rows:
  assumes "list_all2 (came_back sc) rcs outs" and "archivable sc cols rows"
    and "\<forall>rc \<in> set rcs. \<exists>r \<in> set rows. rec_data rc = row_map cols r"
  shows "map row_of_record outs = map row_of_record rcs" and "\<forall>out \<in> set outs. has_columns (set cols) out"
proof -
  have each: "row_of_record out = row_of_record rc \<and> has_columns (set cols) out"
    if rc: "rc \<in> set rcs" and b: "came_back sc rc out" for rc out
  proof -
    obtain r where r: "r \<in> set rows" "rec_data rc = row_map cols r" using assms(3) rc by blast
    from came_back_row [OF assms(2) r b] r(2) show ?thesis by (simp add: row_of_record_def [of rc])
  qed
  show "map row_of_record outs = map row_of_record rcs"
    using assms(1) each by (intro nth_equalityI) (auto simp: list_all2_conv_all_nth)
  show "\<forall>out \<in> set outs. has_columns (set cols) out"
    using assms(1) each by (fastforce simp: list_all2_conv_all_nth in_set_conv_nth)
qed

section \<open>From table to table\<close>

text \<open>C18: backup and restore between PostgreSQL databases: when a Parquet backup of a table finishes and a
  restore from its manifest returns nil, the table in the target has what it had and every row of the
  source exactly once, with every value as it was. The values have to be null or of the Go types that
  the Parquet columns give back (64-bit integers and floats, booleans, text), the key span has to fit
  the range partitions, and COPY and CREATE TABLE to behave as documented.\<close>

theorem pg_archive_roundtrip:
  assumes source: "serves scl d table cols rows"
      "pg_min_max scl d (''SELECT MIN(id), MAX(id) FROM '' @ pg_sanitize scl table) = Inr (Some lo, Some hi)"
      "\<forall>r \<in> set rows. sint lo \<le> key_of cols r \<and> key_of cols r \<le> sint hi"
      "pg_safe lo hi (if workers \<le> 0 then 16 else workers)"
      "pg_get_schema scl d table (pa_schema sa) = Inr sch" "archivable (columns sch) cols rows"
    and library: "pq_laws pq" "zstd_laws zs" "blob_store ops" "copy_laws tcl tab" "create_laws tcl tab"
    and saved: "backup (new_engine ops (parquet_ops pq) zs workers) now op_id (info_of (pg_source scl sa d) table) table sz
           (new_parquet_serializer (columns sch) rows_per_group) s = Some (Inr (m, s'))"
    and restored: "restore (new_restore_engine ops (pg_target tcl) zs pq) s' ''manifest.json'' (ta, td) = (None, ta', td')"
  shows "tab td' table = tab td table + image_mset (\<lambda>r. map_get (row_map cols r)) (mset rows)"
proof -
  let ?src = "info_of (pg_source scl sa d) table" and ?re = "new_restore_engine ops (pg_target tcl) zs pq"
  let ?en = "new_engine ops (parquet_ops pq) zs workers" and ?sc = "columns sch"
  have idle: "pq_idle ?sc (new_parquet_serializer ?sc rows_per_group)"
    by (simp add: pq_idle_def new_parquet_serializer_def)
  have con: "contracts ?en (pq_idle ?sc) (pq_renders pq ?sc)"
    using parquet_chunk_serializer [OF library(1)] library(2,3) by (simp add: contracts_def new_engine_def)
  from backup_accounts [OF con idle saved] obtain ps rss where
    ps: "pg_partitions scl d table (if workers \<le> 0 then 16 else workers) = Inr ps"
    and recs: "concat rss = concat (map (\<lambda>p. pr_records (pg_read_partition scl d background p)) ps)"
    and stored: "chunks_stored ?en (pq_renders pq ?sc) s' rss (mf_chunks m)"
    and man: "st_get ops s' ''manifest.json'' = Inr (BManifest m)"
    by (auto simp: new_engine_def info_of_def pg_source_def)
  have "mf_schema m = sch" using backup_schema [OF saved] source(5) by (simp add: info_of_def pg_source_def)
  have data: "mset (map rec_data (concat rss)) = mset (map (row_map cols) rows)"
    using pg_reads_rows [OF source(1-4)] ps unfolding recs by (simp add: map_concat comp_def)
  have from_rows: "\<forall>rc \<in> set (concat rss). \<exists>r \<in> set rows. rec_data rc = row_map cols r"
  proof
    fix rc assume "rc \<in> set (concat rss)"
    then have "rec_data rc \<in> set (map (row_map cols) rows)"
      using mset_eq_setD [OF data] by (metis image_eqI list.set_map)
    then show "\<exists>r \<in> set rows. rec_data rc = row_map cols r" by auto
  qed
  have required: "\<forall>rc \<in> set (concat rss). has_required ?sc rc"
    using from_rows source(6) by (fastforce simp: has_required_def archivable_def)
  obtain t1 where t1: "pg_apply tcl (ta, td) sch = (None, t1)" "restore_chunks ?re s' (mf_chunks m) t1 = (None, ta', td')"
    using restored man \<open>mf_schema m = sch\<close>
    by (auto simp: restore_def new_restore_engine_def pg_target_def split: prod.splits option.splits)
  obtain d1 where d1: "t1 = (ta\<lparr>pa_writer := Some table\<rparr>, d1)" "tab d1 = tab td"
    using pg_apply_ready [OF t1(1)] pg_schema_name [OF source(5)] library(5) by (auto simp: create_laws_def)
  have same: "reads_back ?en ?re" by (simp add: reads_back_def new_engine_def new_restore_engine_def)
  have fields: "re_target ?re = pg_target tcl" "re_parquet ?re = pq" by (simp_all add: new_restore_engine_def)
  have distinct: "distinct (map col_name ?sc)" using source(6) by (simp add: archivable_def)
  have chunks: "length rss = length (mf_chunks m)"
    "\<forall>i < length (mf_chunks m). chunk_stored ?en (pq_renders (re_parquet ?re) ?sc) s' (0 + i) (rss ! i) (mf_chunks m ! i)"
    using stored by (simp_all add: chunks_stored_def fields)
  obtain bs where bs: "acked (pg_target tcl) t1 bs (ta', td')" "batches_ok bs"
      "list_all2 (came_back ?sc) (concat rss) (concat bs)"
    using restore_chunks_acked [OF same distinct chunks required t1(2)] unfolding fields by blast
  note out = came_back_rows [OF bs(3) source(6) from_rows]
  have held: "pg_holds tcl tab table (tab td table) [] t1" using d1 library(4) by (simp add: pg_holds_def)
  have "\<forall>b \<in> set bs. b \<noteq> [] \<and> list_all (has_columns (set cols)) b"
    using bs(2) out(2) by (auto simp: batches_ok_def list_all_iff)
  from pgd.acked_holds [OF held bs(1) this] obtain ws where
    ws: "pg_holds tcl tab table (tab td table) ws (ta', td')" "mset ws = mset (concat bs)" by auto
  have "mset (map row_of_record (concat bs)) = image_mset (\<lambda>r. map_get (row_map cols r)) (mset rows)"
    using arg_cong [OF data, of "image_mset map_get"] unfolding out(1)
    by (simp add: row_of_record_def [abs_def] multiset.map_comp comp_def)
  with ws show ?thesis by (simp add: pg_holds_def flip: mset_map)
qed

text \<open>
  A file format for tables of an \<open>id\<close> below 256 and a flag, two bytes a row, which refuses other rows; and a
  database with such a table.
\<close>

fun pair_code :: "cell list \<Rightarrow> 8 word list result" where
  "pair_code [CInt w, CBool b] =
     (if uint w < 256 then Inr [word_of_int (uint w), if b then 1 else 0] else Inl (ErrMsg ''unsupported''))"
| "pair_code _ = Inl (ErrMsg ''unsupported'')"

fun pair_rows :: "sym list \<Rightarrow> cell list list" where
  "pair_rows (PByte a # s # ss) = [CInt (word_of_int (uint a)), CBool (s = PByte 1)] # pair_rows ss"
| "pair_rows _ = []"

definition pair_parquet :: "unit pq_ops" where
  "pair_parquet =
     \<lparr>pq_new = (\<lambda>fs. if map fst fs = [''id'', ''ok''] then Inr ([], ()) else Inl (ErrMsg ''unsupported'')),
      pq_write = (\<lambda>q rows. rbind (collect pair_code rows) (\<lambda>bs. Inr (concat bs, ()))),
      pq_finish = (\<lambda>q. Inr []), pq_read = (\<lambda>data. Inr ([''id'', ''ok''], pair_rows data, None))\<rparr>"

lemma pair_row:
  assumes "pair_code row = Inr x"
  shows "pair_rows (map PByte x @ rest) = row # pair_rows rest"
proof -
  from assms obtain w b where row: "row = [CInt w, CBool b]" "uint w < 256" "x = [word_of_int (uint w), if b then 1 else 0]"
    by (cases row rule: pair_code.cases) (auto split: if_splits)
  have "uint (ucast w :: 8 word) = uint w" using row(2) by (simp add: unsigned_ucast_eq take_bit_int_eq_self_iff)
  with row show ?thesis by simp
qed

lemma pair_rows_batch: "collect pair_code rows = Inr bs \<Longrightarrow> pair_rows (map PByte (concat bs) @ rest) = rows @ pair_rows rest"
proof (induction rows arbitrary: bs)
  case (Cons row rows)
  then obtain x xs where "pair_code row = Inr x" "collect pair_code rows = Inr xs" "bs = x # xs"
    by (auto simp: rbind_Inr_iff)
  with Cons.IH pair_row [of row x] show ?case by simp
qed simp

lemma pair_write_all: "pq_write_all pair_parquet q bs = Inr (o1, q1) \<Longrightarrow> pair_rows (map PByte o1) = concat bs"
proof (induction bs arbitrary: q o1)
  case (Cons b bs)
  then obtain ob o2 where "collect pair_code b = Inr ob" "pq_write_all pair_parquet () bs = Inr (o2, q1)" "o1 = concat ob @ o2"
    by (auto simp: rbind_Inr_iff pair_parquet_def)
  with Cons.IH pair_rows_batch [of b ob "map PByte o2"] show ?case by simp
qed simp

lemma pair_parquet_laws: "pq_laws pair_parquet"
  unfolding pq_laws_def
proof (intro allI impI)
  fix fs o0 q0 bs o1 q1 o2
  assume new: "pq_new pair_parquet fs = Inr (o0, q0)" and all: "pq_write_all pair_parquet q0 bs = Inr (o1, q1)"
    and "pq_finish pair_parquet q1 = Inr o2"
  then have "o0 = []" "o2 = []" "map fst fs = [''id'', ''ok'']" by (auto simp: pair_parquet_def split: if_splits)
  then show "pq_read pair_parquet (map PByte (o0 @ o1 @ o2)) = Inr (map fst fs, concat bs, None)"
    using pair_write_all [OF all] by (simp add: pair_parquet_def)
qed

definition flag_rows_table :: "gval list list" where
  "flag_rows_table = [[VInt64 3, VBool True], [VInt64 8, VBool False]]"

definition flag_client :: "unit pg_client" where
  "flag_client = tiny_client
     \<lparr>pg_columns := (\<lambda>d t s. Inr ([Inr (''id'', ''bigint'', ''NO''), Inr (''ok'', ''boolean'', ''YES'')], None)),
      pg_select := (\<lambda>d q a b. case (a, b) of
          (VInt64 x, VInt64 y) \<Rightarrow> Inr ([''id'', ''ok''], map Inr (filter (\<lambda>r.
             sint x \<le> key_of [''id'', ''ok''] r \<and> key_of [''id'', ''ok''] r < sint y) flag_rows_table), None)
        | _ \<Rightarrow> Inl (ErrMsg ''type''))\<rparr>"

abbreviation flag_source :: source_info where
  "flag_source \<equiv> info_of (pg_source flag_client new_postgres_adapter ()) ''t''"

definition flag_schema :: db_schema where
  "flag_schema = \<lparr>schema_name = ''t'',
     columns = [\<lparr>col_name = ''id'', col_type = ''int64'', nullable = False, primary_key = False\<rparr>,
                \<lparr>col_name = ''ok'', col_type = ''bool'', nullable = True, primary_key = False\<rparr>]\<rparr>"

lemma flag_get_schema: "pg_get_schema flag_client () ''t'' s = Inr flag_schema"
  by (simp add: pg_get_schema_def flag_client_def tiny_client_def flag_schema_def rows_end_def column_info_def
      map_postgres_type_def mark_keys_def)

lemma flag_read:
  "pg_read_partition flag_client () background (make_range ''t'' 0 3 9) =
     closed_read (map (pg_record (make_range ''t'' 0 3 9) [''id'', ''ok'']) flag_rows_table, None)"
  by (simp add: pg_read_partition_def flag_client_def tiny_client_def make_range_def flag_rows_table_def key_of_def
      pg_row_def background_def)

lemma flag_archive:
  "\<exists>m s'. backup (new_engine disk (parquet_ops pair_parquet) tiny_zstd 1) 0 ''op'' flag_source ''t'' 0
     (new_parquet_serializer (columns flag_schema) 0) empty_disk = Some (Inr (m, s'))"
proof -
  have src: "flag_source = \<lparr>si_type = ''postgres'', si_schema = Inr flag_schema, si_partitions = pg_partitions flag_client () ''t'',
      si_read = pg_read_partition flag_client () background\<rparr>"
    by (simp add: info_of_def pg_source_def flag_get_schema)
  have parts: "pg_partitions flag_client () ''t'' 1 = Inr [make_range ''t'' 0 3 9]"
    by (simp add: pg_partitions_def flag_client_def tiny_client_def split_range_def)
  show ?thesis
    unfolding src
    by (simp add: backup_def Let_def new_engine_def parts effective_size_def wrap_err_def flag_read
     open_chunk_def new_chunk_manager_def ps_open_def backup_partition_def closed_read_def flag_rows_table_def
     add_record_def emit_def tiny_zstd_def flush_final_chunk_def
     flush_chunk_def save_manifest_def parquet_ops_def ps_serialize_def ps_close_def ps_flush_def
     new_parquet_serializer_def flag_schema_def pair_parquet_def convert_to_arrow_schema_def 
     build_column_def make_cell_def map_get_def get_arrow_type_def append_value_def rows_of_def
     pg_record_def pg_assign_def
     disk_put [OF chunk_name_plain] disk_put [OF manifest_plain] empty_disk_def mkdir_all_def)
qed

lemma flag_archivable: "archivable (columns flag_schema) [''id'', ''ok''] flag_rows_table"
  by (auto simp: archivable_def flag_schema_def flag_rows_table_def row_map_def keeps_value_def get_arrow_type_def map_get_def)

lemma flag_required:
  "\<forall>p. \<forall>rc \<in> set (pr_records (si_read flag_source p)). has_required (columns flag_schema) rc"
proof (intro allI ballI)
  fix p rc assume rc: "rc \<in> set (pr_records (si_read flag_source p))"
  have "pr_records (si_read flag_source p) =
    (case (part_start p, part_end p) of
       (VInt64 x, VInt64 y) \<Rightarrow> map (pg_record p [''id'', ''ok'']) (filter (\<lambda>r.
          sint x \<le> key_of [''id'', ''ok''] r \<and> key_of [''id'', ''ok''] r < sint y) flag_rows_table)
     | _ \<Rightarrow> [])"
    by (simp add: info_of_def pg_source_def pg_read_partition_def flag_client_def tiny_client_def closed_read_def
        split: gval.splits)
  then obtain r where "r \<in> set flag_rows_table" "rc = pg_record p [''id'', ''ok''] r"
    using rc by (auto split: gval.splits)
  then show "has_required (columns flag_schema) rc"
    by (auto simp: has_required_def flag_schema_def flag_rows_table_def pg_record_def pg_assign_def map_get_def)
qed

lemma table_accepting: "accepting (pg_target table_client)"
  by (auto simp: accepting_def pg_target_def pg_write_batch_def pg_write_rows_def pg_rows_def table_client_def Let_def)

theorem pg_archive_roundtrip_witness:
  "\<exists>m s' ta td. backup (new_engine disk (parquet_ops pair_parquet) tiny_zstd 1) 0 ''op'' flag_source ''t'' 0
       (new_parquet_serializer (columns flag_schema) 0) empty_disk = Some (Inr (m, s')) \<and>
     restore (new_restore_engine disk (pg_target table_client) tiny_zstd pair_parquet) s' ''manifest.json''
       (new_postgres_adapter, \<lambda>t. {#}) = (None, ta, td) \<and>
     td ''t'' = {#map_get [(''id'', VInt64 3), (''ok'', VBool True)], map_get [(''id'', VInt64 8), (''ok'', VBool False)]#}"
proof -
  obtain m s' where b: "backup (new_engine disk (parquet_ops pair_parquet) tiny_zstd 1) 0 ''op'' flag_source ''t'' 0
     (new_parquet_serializer (columns flag_schema) 0) empty_disk = Some (Inr (m, s'))"
    using flag_archive by blast
  have library: "blob_store disk" "copy_laws table_client (\<lambda>d. d)" "create_laws table_client (\<lambda>d. d)"
    by (simp_all add: disk_def local_blob_store copy_laws_def create_laws_def table_client_def)
  have fits: "archivable (columns flag_schema) [''id'', ''ok''] flag_rows_table" by (rule flag_archivable)
  obtain t1 where t1: "ta_apply (pg_target table_client) (new_postgres_adapter, \<lambda>t. {#}) (mf_schema m) = (None, t1)"
    by (simp add: pg_target_def pg_apply_def pg_apply_schema_def table_client_def)
  have "distinct (map col_name (columns flag_schema))" using fits by (simp add: archivable_def)
  from archive_restores [OF pair_parquet_laws tiny_zstd_laws library(1) table_accepting this flag_required b t1]
  obtain t2 where "restore (new_restore_engine disk (pg_target table_client) tiny_zstd pair_parquet) s' ''manifest.json''
      (new_postgres_adapter, \<lambda>t. {#}) = (None, t2)" by blast
  then obtain ta td where r: "restore (new_restore_engine disk (pg_target table_client) tiny_zstd pair_parquet) s'
      ''manifest.json'' (new_postgres_adapter, \<lambda>t. {#}) = (None, ta, td)" by (cases t2) simp
  have source: "serves flag_client () ''t'' [''id'', ''ok''] flag_rows_table"
    "pg_min_max flag_client () (''SELECT MIN(id), MAX(id) FROM '' @ pg_sanitize flag_client ''t'') = Inr (Some 3, Some 8)"
    "\<forall>r \<in> set flag_rows_table. sint (3 :: 64 word) \<le> key_of [''id'', ''ok''] r \<and> key_of [''id'', ''ok''] r \<le> sint (8 :: 64 word)"
    "pg_safe 3 8 (if (1 :: int) \<le> 0 then 16 else 1)"
    by (simp_all add: serves_def flag_client_def tiny_client_def flag_rows_table_def key_of_def pg_safe_def)
  have "td ''t'' = {#} + image_mset (\<lambda>r. map_get (row_map [''id'', ''ok''] r)) (mset flag_rows_table)"
    using pg_archive_roundtrip [OF source flag_get_schema fits pair_parquet_laws tiny_zstd_laws library b r] by simp
  then have "td ''t'' = {#map_get [(''id'', VInt64 3), (''ok'', VBool True)], map_get [(''id'', VInt64 8), (''ok'', VBool False)]#}"
    by (simp add: flag_rows_table_def row_map_def)
  with b r show ?thesis by blast
qed

end
