(* ===== verification/Mock_Adapter.thy ===== *)
theory Mock_Adapter
  imports Delivery Open_Sources
begin

text \<open>
  \<open>test/e2e/mock_adapter.go\<close>, the in-memory adapter of the end-to-end tests, and what the test of
  resumability (\<open>test/e2e/resumability_test.go\<close>) gets from it.
\<close>

section \<open>The adapter\<close>

record mock_adapter =
  mk_records :: "go_record list"
  mk_written :: "64 word"

definition mock_record :: "nat \<Rightarrow> go_record" where
  "mock_record i =
     \<lparr>rec_id = show_nat i, rec_data = [(''val'', VInt (of_nat i))],
      rec_meta = \<lparr>source_table = ''test'', source_db = [], partition_id = ''p0'', offset = VInt64 (of_nat i)\<rparr>\<rparr>"

definition new_mock_adapter :: "nat \<Rightarrow> mock_adapter" where
  "new_mock_adapter n = \<lparr>mk_records = map mock_record [0..<n], mk_written = 0\<rparr>"

definition mock_partitions :: "mock_adapter \<Rightarrow> partition list result" where
  "mock_partitions a =
     Inr [\<lparr>part_id = ''p0'', part_table = ''test'', part_start = VInt64 0,
           part_end = VInt64 (of_nat (length (mk_records a)))\<rparr>]"

text \<open>
  \<open>json.Number.Int64\<close> with its error ignored: zero for what is not an integer, the nearest bound for what
  is out of range.
\<close>

definition number_or_bound :: "numlit \<Rightarrow> 64 word" where
  "number_or_bound l =
     (case l of LInt i \<Rightarrow> word_of_int (max (- (2 ^ 63)) (min i (2 ^ 63 - 1))) | LDec d \<Rightarrow> 0)"

definition mock_start :: "gval \<Rightarrow> 64 word" where
  "mock_start v =
     (case v of VInt64 w \<Rightarrow> w + 1 | VInt w \<Rightarrow> w + 1 | VNumber l \<Rightarrow> number_or_bound l + 1
      | VFloat64 x \<Rightarrow> word_of_int (trunc_rat x) + 1 | _ \<Rightarrow> 0)"

fun mock_send :: "ctx \<Rightarrow> nat \<Rightarrow> go_record list \<Rightarrow> partition_read" where
  "mock_send c i [] = \<lparr>pr_records = [], pr_error = None, pr_closes = True\<rparr>"
| "mock_send c i (rc # rcs) =
     (if snd (c i) then \<lparr>pr_records = [], pr_error = Some (Sentinel ContextCanceled), pr_closes = False\<rparr>
      else let rest = mock_send c (Suc i) rcs in rest\<lparr>pr_records := rc # pr_records rest\<rparr>)"

text \<open>A negative start is an index out of range at once: \<^const>\<open>None\<close>, a panic.\<close>

definition mock_read_partition :: "mock_adapter \<Rightarrow> ctx \<Rightarrow> partition \<Rightarrow> partition_read option" where
  "mock_read_partition a c p =
     (let start = mock_start (part_start p) in
      if start <s 0 then None else Some (mock_send c 0 (drop (unat start) (mk_records a))))"

text \<open>The process does not survive a panic; as a source, it then never answers.\<close>

definition mock_source :: "mock_adapter \<Rightarrow> source_ops" where
  "mock_source a =
     \<lparr>sa_type = ''mock'', sa_partitions = (\<lambda>table n. mock_partitions a),
      sa_read = (\<lambda>c p. case mock_read_partition a c p of
         None \<Rightarrow> \<lparr>pr_records = [], pr_error = None, pr_closes = False\<rparr> | Some r \<Rightarrow> r),
      sa_schema = (\<lambda>table. Inr \<lparr>schema_name = ''test'', columns = []\<rparr>)\<rparr>"

definition mock_write_batch :: "mock_adapter \<Rightarrow> go_record list \<Rightarrow> int \<times> goerr option \<times> mock_adapter" where
  "mock_write_batch a batch =
     (int (length batch), None, a\<lparr>mk_written := mk_written a + of_nat (length batch)\<rparr>)"

definition mock_target :: "mock_adapter target_ops" where
  "mock_target = \<lparr>ta_apply = (\<lambda>a s. (None, a)), ta_write = mock_write_batch\<rparr>"

lemma mock_accepting: "accepting mock_target"
  by (simp add: accepting_def mock_target_def mock_write_batch_def)

lemma mock_send_background [simp]:
  "mock_send background i rcs = \<lparr>pr_records = rcs, pr_error = None, pr_closes = True\<rparr>"
  by (induction rcs arbitrary: i) (simp_all add: background_def)

section \<open>A migration between two mocks\<close>

interpretation mkd: delivering_target mock_target "\<lambda>rc. True" "\<lambda>ws a. mk_written a = w0 + of_nat (length ws)" for w0
  by unfold_locales (auto simp: mock_target_def mock_write_batch_def)

lemma mock_migration_count:
  assumes "caps_ok env" and "1 \<le> num_transformers (env_cfg env)"
    and "run_from (deliver mock_target env) es (start_pipeline env source parts st q, t) = Some (s, t')"
    and "finished s" and "first_err s = None"
  shows "mk_written t' = mk_written t + of_nat (length (all_records source parts))"
    and "mset (written s) = image_mset (env_map env) (mset (all_records source parts))"
proof -
  have "rejected s = []" using mock_accepting assms(3) by (rule accepting_rejects_nothing)
  with migration_accounts [OF assms(1,2) _ assms(4,5)] deliver_run [OF assms(3)]
  show all: "mset (written s) = image_mset (env_map env) (mset (all_records source parts))"
    by (simp add: reaches_def)
  have "mk_written t' = mk_written t + of_nat (length (written s))"
    using mkd.migration_delivers [OF assms(1) _ _ assms(3), of "mk_written t"] by simp
  moreover have "length (written s) = length (all_records source parts)"
    using arg_cong [OF all, of size] by simp
  ultimately show "mk_written t' = mk_written t + of_nat (length (all_records source parts))" by simp
qed

text \<open>
  A fresh migration between mocks never copies the first record: \<open>Partitions\<close> gives the start 0, which
  \<open>ReadPartition\<close> takes for the offset of a record already committed.
\<close>

theorem mock_first_record_lost:
  assumes "migrate_from env (mock_source (new_mock_adapter n)) table st q = MRuns s0"
    and "known_checkpoints (env_db env) st (env_op env) = []" and "1 \<le> num_transformers (env_cfg env)"
    and "run_from (deliver mock_target env) es (s0, t) = Some (s, t')" and "finished s" and "first_err s = None"
  shows "mk_written t' = mk_written t + of_nat (n - 1)"
    and "mset (written s) = image_mset (env_map env) (mset (map mock_record [1..<n]))"
proof -
  obtain ps where ps: "sa_partitions (mock_source (new_mock_adapter n)) table (num_readers (env_cfg env)) = Inr ps"
      "caps_ok env"
    and s0: "s0 = start_pipeline env (\<lambda>p. script_of (sa_read (mock_source (new_mock_adapter n)) background p)) ps st q"
    by (rule fresh_migration [OF assms(1,2)])
  from ps(1) have "all_records (\<lambda>p. script_of (sa_read (mock_source (new_mock_adapter n)) background p)) ps
      = map mock_record [1..<n]"
    by (auto simp: mock_source_def mock_partitions_def new_mock_adapter_def all_records_def script_of_def
        mock_read_partition_def mock_start_def drop_map word_sless_alt)
  with mock_migration_count [OF ps(2) assms(3) assms(4) [unfolded s0] assms(5,6)]
  show "mk_written t' = mk_written t + of_nat (n - 1)"
    and "mset (written s) = image_mset (env_map env) (mset (map mock_record [1..<n]))" by simp_all
qed

text \<open>Three records, of which two arrive.\<close>

abbreviation mock_env :: "(operation_meta option ref_bucket, stored_checkpoint option ref_bucket) env" where
  "mock_env \<equiv> (ex_env 1 1 2)\<lparr>env_cfg := (env_cfg (ex_env 1 1 2))\<lparr>flush_every_n_batches := 10\<rparr>\<rparr>"

lemma mock_three:
  "\<exists>s0 s t'. migrate_from mock_env (mock_source (new_mock_adapter 3)) ''test'' ref_store None = MRuns s0 \<and>
     run_from (deliver mock_target mock_env)
       [SrcSend 0, SrcSend 0, SrcClose 0, SrcReturn 0, RTake 0, RSend 0, RTake 0, RSend 0, RTake 0, RFinish 0,
        TTake 0, TTake 0, TSend 0, WTake 0, WAck 0, CloseRecords, TTake 0, CloseBatches, WTake 0]
       (s0, new_mock_adapter 0) = Some (s, t') \<and>
     finished s \<and> first_err s = None \<and> mk_written t' = 2"
  by (simp add: migrate_from_def migrate_def mock_source_def mock_partitions_def new_mock_adapter_def
      mock_read_partition_def mock_start_def word_sless_alt mock_record_def upt_rec script_of_def caps_ok_def
      known_checkpoints_def plan_partitions_def done_partitions_def ref_eval ex_defs deliver_def finished_def
      mock_target_def mock_write_batch_def background_def)

section \<open>The test of resumability\<close>

text \<open>
  The mock resumes after the offset of the checkpoint, where the queries of the adapters for databases
  include it (\<open>Resume\<close>): the test does not see the row that they write twice.
\<close>

lemma mock_resumes_after:
  assumes "0 \<le> k" and "k < 2 ^ 63 - 1" and "part_start p = VNumber (LInt k)"
  shows "mock_read_partition a background p =
    Some \<lparr>pr_records = drop (nat k + 1) (mk_records a), pr_error = None, pr_closes = True\<rparr>"
proof -
  have "mock_start (part_start p) = word_of_int (k + 1)"
    using assms by (simp add: mock_start_def number_or_bound_def)
  moreover have "sint (word_of_int (k + 1) :: 64 word) = k + 1" using assms(1,2) by (intro sint_word_of_int_eq) simp_all
  moreover have "uint (word_of_int (k + 1) :: 64 word) = k + 1"
    unfolding uint_word_of_int using assms(1,2) by (intro mod_pos_pos_trivial) simp_all
  then have "unat (word_of_int (k + 1) :: 64 word) = nat k + 1"
    using assms(1) by (simp only: unat_eq_nat_uint nat_add_distrib)
  ultimately show ?thesis using assms(1) by (simp add: mock_read_partition_def word_sless_alt)
qed

text \<open>
  Its first migration reads from the mock through the fault wrapper, and is expected to fail with the
  injected error. It never returns: when the wrapper gives up, the channel to the reader stays open.
\<close>

theorem resumability_test_hangs:
  assumes "migrate_from env (fault_source fc seen (mock_source (new_mock_adapter n))) table st q = MRuns s0"
    and "run_from (deliver mock_target env) es (s0, t) = Some (s, t')"
  shows "\<not> finished s"
  by (rule open_source_never_returns [OF _ assms(1) deliver_run [OF assms(2)]])
    (simp add: fault_source_def fault_read_open)

end
