(* ===== verification/Telemetry.thy ===== *)
theory Telemetry
  imports Config Storage
begin

text \<open>
  \<open>internal/telemetry/logger.go\<close> and \<open>internal/telemetry/tracer.go\<close>: the configuration of the logger, and
  the global tracing state with its shutdown function. The libraries zap and OpenTelemetry are the
  parameters \<open>zap\<close> and \<open>otel\<close>.
\<close>

section \<open>The logger\<close>

datatype level_encoder = LowercaseLevel | CapitalColorLevel

record encoder_config =
  en_time_key :: string
  en_level_key :: string
  en_name_key :: string
  en_caller_key :: string
  en_function_key :: string
  en_message_key :: string
  en_stacktrace_key :: string
  en_line_ending :: string
  en_level :: level_encoder
  en_time :: string
  en_duration :: string
  en_caller :: string

record 'l logger_config =
  lc_level :: 'l
  lc_development :: bool
  lc_encoding :: string
  lc_output :: "string list"
  lc_error_output :: "string list"
  lc_encoder :: encoder_config

text \<open>
  \<open>zl_parse\<close> is \<open>Level.UnmarshalText\<close>, \<open>zl_build\<close> is \<open>Config.Build\<close> with the caller options, \<open>zl_omit\<close> and
  \<open>zl_eol\<close> the constants \<open>OmitKey\<close> and \<open>DefaultLineEnding\<close>.
\<close>

record ('l, 'g) zap =
  zl_parse :: "string \<Rightarrow> 'l result"
  zl_info :: 'l
  zl_build :: "'l logger_config \<Rightarrow> 'g result"
  zl_nop :: 'g
  zl_omit :: string
  zl_eol :: string

definition log_level_of :: "('l, 'g) zap \<Rightarrow> string \<Rightarrow> 'l" where
  "log_level_of zl level = (case zl_parse zl level of Inl e \<Rightarrow> zl_info zl | Inr l \<Rightarrow> l)"

definition base_logger_config :: "('l, 'g) zap \<Rightarrow> 'l \<Rightarrow> 'l logger_config" where
  "base_logger_config zl l =
     \<lparr>lc_level = l, lc_development = False, lc_encoding = ''json'', lc_output = [''stdout''],
      lc_error_output = [''stderr''],
      lc_encoder = \<lparr>en_time_key = ''ts'', en_level_key = ''level'', en_name_key = ''logger'',
        en_caller_key = ''caller'', en_function_key = zl_omit zl, en_message_key = ''msg'',
        en_stacktrace_key = ''stacktrace'', en_line_ending = zl_eol zl, en_level = LowercaseLevel,
        en_time = ''ISO8601'', en_duration = ''Millis'', en_caller = ''Short''\<rparr>\<rparr>"

definition logger_config_of :: "('l, 'g) zap \<Rightarrow> string \<Rightarrow> string \<Rightarrow> 'l logger_config" where
  "logger_config_of zl level format =
     (let c = base_logger_config zl (log_level_of zl level) in
      if format = ''console''
      then c\<lparr>lc_encoding := ''console'', lc_encoder := (lc_encoder c)\<lparr>en_level := CapitalColorLevel\<rparr>\<rparr>
      else c)"

definition new_logger :: "('l, 'g) zap \<Rightarrow> string \<Rightarrow> string \<Rightarrow> 'g result" where
  "new_logger zl level format =
     wrap_err ''failed to build logger'' (zl_build zl (logger_config_of zl level format))"

definition nop_logger :: "('l, 'g) zap \<Rightarrow> 'g" where
  "nop_logger zl = zl_nop zl"

text \<open>\<open>initLogger\<close> of \<open>internal/cli/root.go\<close>.\<close>

definition init_logger :: "('l, 'g) zap \<Rightarrow> telemetry_config \<Rightarrow> 'g" where
  "init_logger zl tc =
     (case new_logger zl (tc_log_level tc) (tc_log_format tc) of Inl e \<Rightarrow> zl_nop zl | Inr g \<Rightarrow> g)"

section \<open>The tracer\<close>

text \<open>
  The exporter for an endpoint, the full resource for a service name and version, the minimal one, and
  the provider made of both.
\<close>

record ('e, 'r, 'p) otel =
  ot_exporter :: "string \<Rightarrow> 'e result"
  ot_resource :: "string \<Rightarrow> string \<Rightarrow> 'r result"
  ot_minimal :: "string \<Rightarrow> 'r"
  ot_provider :: "'e \<Rightarrow> 'r \<Rightarrow> 'p"

text \<open>The global provider and propagators of OpenTelemetry, and the variable \<open>Version\<close>.\<close>

record 'p tracing =
  tg_provider :: "'p option"
  tg_propagators :: "string list"
  tg_version :: string

definition default_tracing :: "'p tracing" where
  "default_tracing = \<lparr>tg_provider = None, tg_propagators = [], tg_version = ''dev''\<rparr>"

datatype 'p shutdown_func = NothingToShutDown | ShutDown 'p

definition set_version :: "string \<Rightarrow> 'p tracing \<Rightarrow> 'p tracing" where
  "set_version v g = g\<lparr>tg_version := v\<rparr>"

definition trace_resource :: "('e, 'r, 'p) otel \<Rightarrow> string \<Rightarrow> string \<Rightarrow> 'r" where
  "trace_resource ot service version =
     (case ot_resource ot service version of Inl e \<Rightarrow> ot_minimal ot service | Inr r \<Rightarrow> r)"

definition init_tracer ::
  "('e, 'r, 'p) otel \<Rightarrow> string \<Rightarrow> string \<Rightarrow> 'p tracing \<Rightarrow> 'p shutdown_func result \<times> 'p tracing" where
  "init_tracer ot endp service g =
     (if endp = [] then (Inr NothingToShutDown, g)
      else case ot_exporter ot endp of
        Inl e \<Rightarrow> (Inl (Wrapf ''failed to create OTLP trace exporter'' e), g)
      | Inr ex \<Rightarrow>
          let tp = ot_provider ot ex (trace_resource ot service (tg_version g))
          in (Inr (ShutDown tp),
              g\<lparr>tg_provider := Some tp, tg_propagators := [''TraceContext'', ''Baggage'']\<rparr>))"

section \<open>What the set-up guarantees\<close>

text \<open>
  The logger writes to standard output whatever is configured, at the level \<open>info\<close> for a level it does
  not know, and as JSON for every format but \<open>console\<close>.
\<close>

lemma logger_config_fallbacks:
  "lc_output (logger_config_of zl level format) = [''stdout'']"
  "zl_parse zl level = Inl e \<Longrightarrow> lc_level (logger_config_of zl level format) = zl_info zl"
  "lc_encoding (logger_config_of zl level format) = (if format = ''console'' then ''console'' else ''json'')"
  by (simp_all add: logger_config_of_def base_logger_config_def log_level_of_def Let_def)

text \<open>
  The global provider changes exactly when there is something to shut down, and then to it: no provider
  is installed that \<open>ShutdownFunc\<close> would not flush.
\<close>

lemma init_tracer_installs:
  assumes "init_tracer ot endp service g = (r, g')"
  shows "(\<exists>tp. r = Inr (ShutDown tp) \<and> tg_provider g' = Some tp) \<or>
    (r = Inr NothingToShutDown \<and> endp = [] \<or> (\<exists>e. r = Inl e \<and> endp \<noteq> [])) \<and> g' = g"
  using assms by (auto simp: init_tracer_def Let_def split: if_splits sum.splits)

end
