(* ===== verification/App.thy ===== *)
theory App
  imports Cli_Props Telemetry
begin

text \<open>
  The process around the commands, in \<open>internal/cli/root.go\<close> and \<open>cmd/gomigrate/main.go\<close>: the
  configuration file, the persistent pre-run with its logger, tracer and audit log, the choice of the
  command, and the exit. Cobra and viper are parameters: the command and the flags are already parsed,
  and \<open>viper.Unmarshal\<close> gives a configuration or an error.
\<close>

section \<open>Globals, flags and commands\<close>

definition app_version :: string where
  "app_version = ''v0.0.1-alpha''"

record ('g, 'p) app =
  ap_config :: config
  ap_logger :: "'g option"
  ap_tracing :: "'p tracing"
  ap_shutdown :: "'p shutdown_func option"
  ap_audit :: "audit_entry list option"

record flags =
  fl_config :: string
  fl_manifest :: string
  fl_failed_file :: string
  fl_checkpoint :: string

definition default_flags :: flags where
  "default_flags = \<lparr>fl_config = [], fl_manifest = ''manifest.json'', fl_failed_file = [], fl_checkpoint = []\<rparr>"

datatype command = MigrateCmd | BackupCmd | RestoreCmd | VerifyCmd | StatusCmd | ReplayCmd | VersionCmd

section \<open>The configuration file\<close>

datatype config_place = ConfigFile string | ConfigSearch string string

datatype config_read = ConfigRead string | ConfigNotFound | ConfigUnreadable string goerr

datatype console = Stdout string | Stderr string

definition config_place_of :: "string \<Rightarrow> config_place" where
  "config_place_of file = (if file \<noteq> [] then ConfigFile file else ConfigSearch ''.'' ''config'')"

text \<open>What is printed, and the exit code if the process ends here.\<close>

definition init_config :: "(config_place \<Rightarrow> config_read) \<Rightarrow> string \<Rightarrow> console list \<times> int option" where
  "init_config read file =
     (case read (config_place_of file) of
        ConfigRead used \<Rightarrow> ([Stdout (''Using config file: '' @ used)], None)
      | ConfigNotFound \<Rightarrow> ([], None)
      | ConfigUnreadable used e \<Rightarrow> ([Stderr (''Error reading config file ('' @ used @ ''): '' @ err_text e)], Some 1))"

section \<open>The path of the audit log\<close>

text \<open>\<open>filepath.Clean\<close> of any path, \<open>filepath.Dir\<close> and \<open>filepath.Join\<close>.\<close>

definition rel_clean_step :: "string list \<Rightarrow> string \<Rightarrow> string list" where
  "rel_clean_step st c =
     (if c = [] \<or> c = ''.'' then st
      else if c = ''..'' then (if st = [] \<or> last st = ''..'' then st @ [c] else butlast st)
      else st @ [c])"

definition clean_path :: "string \<Rightarrow> string" where
  "clean_path p =
     (if has_prefix p ''/'' then abs_text (clean_from [] p)
      else let cs = foldl rel_clean_step [] (split_on (CHR ''/'') p)
        in if cs = [] then ''.'' else join_strings ''/'' cs)"

definition dir_path :: "string \<Rightarrow> string" where
  "dir_path p = clean_path (rev (dropWhile (\<lambda>c. c \<noteq> CHR ''/'') (rev p)))"

definition join_path :: "string \<Rightarrow> string \<Rightarrow> string" where
  "join_path d f = clean_path (d @ ''/'' @ f)"

definition audit_path :: "config \<Rightarrow> string" where
  "audit_path cfg = join_path (dir_path (checkpoint_path cfg)) ''audit.jsonl''"

section \<open>The persistent pre-run\<close>

text \<open>
  \<open>unmarshalled\<close> is what viper makes of the configuration; \<open>audit_file path\<close> is the error of opening that
  file, and what it already holds.
\<close>

definition start_tracing ::
  "('e, 'r, 'p) otel \<Rightarrow> config \<Rightarrow> 'p tracing \<Rightarrow> 'p shutdown_func \<times> 'p tracing" where
  "start_tracing ot cfg g =
     (case init_tracer ot (tc_tracing (cf_telemetry cfg)) ''gomigrate'' (set_version app_version g) of
        (Inl e, g') \<Rightarrow> (NothingToShutDown, g')
      | (Inr f, g') \<Rightarrow> (f, g'))"

definition pre_run ::
  "('l, 'g) zap \<Rightarrow> ('e, 'r, 'p) otel \<Rightarrow> config result \<Rightarrow> (string \<Rightarrow> goerr option \<times> audit_entry list)
   \<Rightarrow> ('g, 'p) app \<Rightarrow> goerr option \<times> ('g, 'p) app" where
  "pre_run zl ot unmarshalled audit_file ap =
     (case unmarshalled of
        Inl e \<Rightarrow> (Some (Wrapf ''failed to unmarshal config'' e), ap)
      | Inr cfg \<Rightarrow>
          let (shut, g) = start_tracing ot cfg (ap_tracing ap);
              path = audit_path cfg;
              lg = (case new_audit_log (fst (audit_file path)) path (snd (audit_file path)) of
                      Inl e \<Rightarrow> ap_audit ap
                    | Inr es \<Rightarrow> Some es)
          in (None, ap\<lparr>ap_config := cfg, ap_logger := Some (init_logger zl (cf_telemetry cfg)),
                ap_tracing := g, ap_shutdown := Some shut, ap_audit := lg\<rparr>))"

section \<open>Running a command\<close>

text \<open>
  \<open>body\<close> is what a command returns for the configuration and the audit log: its error, the log, and what
  it prints. \<open>version\<close> has no body of that kind.
\<close>

type_synonym command_body =
  "command \<Rightarrow> config \<Rightarrow> audit_entry list option \<Rightarrow> goerr option \<times> audit_entry list option \<times> console list"

definition run_body :: "command_body \<Rightarrow> command \<Rightarrow> ('g, 'p) app \<Rightarrow> goerr option \<times> ('g, 'p) app \<times> console list" where
  "run_body body c ap =
     (if c = VersionCmd then (None, ap, [Stdout (''gomigrate '' @ app_version)])
      else case body c (ap_config ap) (ap_audit ap) of
             (err, lg, out) \<Rightarrow> (err, ap\<lparr>ap_audit := lg\<rparr>, out))"

definition run_command ::
  "('l, 'g) zap \<Rightarrow> ('e, 'r, 'p) otel \<Rightarrow> config result \<Rightarrow> (string \<Rightarrow> goerr option \<times> audit_entry list)
   \<Rightarrow> command_body \<Rightarrow> command \<Rightarrow> ('g, 'p) app \<Rightarrow> goerr option \<times> ('g, 'p) app \<times> console list" where
  "run_command zl ot unmarshalled audit_file body c ap =
     (case pre_run zl ot unmarshalled audit_file ap of
        (Some e, ap') \<Rightarrow> (Some e, ap', [])
      | (None, ap') \<Rightarrow> run_body body c ap')"

section \<open>The end of the process\<close>

datatype 'p action = Print console | CallShutdown "'p shutdown_func" | CloseAudit | Exit int

definition deferred :: "('g, 'p) app \<Rightarrow> 'p action list" where
  "deferred ap =
     (case ap_shutdown ap of None \<Rightarrow> [] | Some f \<Rightarrow> [CallShutdown f]) @
     (case ap_audit ap of None \<Rightarrow> [] | Some es \<Rightarrow> [CloseAudit])"

text \<open>\<open>os.Exit\<close> ends the process at once: deferred calls do not run.\<close>

definition root_execute :: "goerr option \<Rightarrow> ('g, 'p) app \<Rightarrow> 'p action list" where
  "root_execute err ap =
     (case err of
        Some e \<Rightarrow> [Print (Stderr (err_text e)), Exit 1]
      | None \<Rightarrow> deferred ap)"

definition main_program ::
  "('l, 'g) zap \<Rightarrow> ('e, 'r, 'p) otel \<Rightarrow> (config_place \<Rightarrow> config_read) \<Rightarrow> config result
   \<Rightarrow> (string \<Rightarrow> goerr option \<times> audit_entry list) \<Rightarrow> command_body \<Rightarrow> flags \<Rightarrow> command \<Rightarrow> ('g, 'p) app
   \<Rightarrow> 'p action list \<times> ('g, 'p) app" where
  "main_program zl ot read unmarshalled audit_file body fl c ap =
     (case init_config read (fl_config fl) of
        (out, Some code) \<Rightarrow> (map Print out @ [Exit code], ap)
      | (out, None) \<Rightarrow>
          (case run_command zl ot unmarshalled audit_file body c ap of
             (err, ap', out') \<Rightarrow> (map Print (out @ out') @ root_execute err ap', ap')))"

section \<open>What the process guarantees\<close>

text \<open>The audit log lies beside the checkpoint file.\<close>

lemma audit_path_examples:
  "cc_path (cf_checkpoint cfg) = [] \<Longrightarrow> audit_path cfg = ''audit.jsonl''"
  "cc_path (cf_checkpoint cfg) = ''/var/lib/cp.bolt'' \<Longrightarrow> audit_path cfg = ''/var/lib/audit.jsonl''"
  "cc_path (cf_checkpoint cfg) = ''../data/cp.bolt'' \<Longrightarrow> audit_path cfg = ''../data/audit.jsonl''"
  by (simp_all add: audit_path_def checkpoint_path_def join_path_def dir_path_def clean_path_def has_prefix_def
      clean_from_def clean_step_def rel_clean_step_def abs_text_def)

text \<open>Neither a broken logger, nor a tracer or an audit log that cannot be opened, stops a command.\<close>

lemma pre_run_continues: "\<exists>ap'. pre_run zl ot (Inr cfg) audit_file ap = (None, ap')"
  by (simp add: pre_run_def Let_def split: prod.splits)

lemma run_body_globals:
  "run_body body c ap = (err, ap', out) \<Longrightarrow> ap_shutdown ap' = ap_shutdown ap \<and> ap_tracing ap' = ap_tracing ap"
  by (auto simp: run_body_def split: if_splits prod.splits)

lemma root_execute_actions:
  "CallShutdown f \<in> set (root_execute err ap) \<longleftrightarrow> err = None \<and> ap_shutdown ap = Some f"
  "CloseAudit \<in> set (root_execute err ap) \<longleftrightarrow> err = None \<and> ap_audit ap \<noteq> None"
  "Exit n \<in> set (root_execute err ap) \<longleftrightarrow> err \<noteq> None \<and> n = 1"
  by (cases err; cases "ap_shutdown ap"; cases "ap_audit ap"; auto simp: root_execute_def deferred_def)+

lemma printed_actions:
  "CallShutdown f \<notin> Print ` A" "CloseAudit \<notin> Print ` A" "Exit n \<notin> Print ` A"
  by auto

text \<open>C40: when tracing is configured, its provider is flushed at the end exactly when the command
  succeeded: a command that fails ends the process with code 1 through \<open>os.Exit\<close>, which skips the
  deferred shutdown, and the spans of the failed operation, with the error recorded in them, that are
  still buffered are lost.\<close>

theorem flushed_iff_succeeded:
  assumes "init_config read (fl_config fl) = (out, None)" and "tc_tracing (cf_telemetry cfg) \<noteq> []"
    and "ot_exporter ot (tc_tracing (cf_telemetry cfg)) = Inr ex"
    and "run_command zl ot (Inr cfg) audit_file body c ap = (err, ap', out')"
  shows "\<exists>tp acts. main_program zl ot read (Inr cfg) audit_file body fl c ap = (acts, ap') \<and>
    tg_provider (ap_tracing ap') = Some tp \<and>
    (CallShutdown (ShutDown tp) \<in> set acts \<longleftrightarrow> err = None) \<and>
    (Exit 1 \<in> set acts \<longleftrightarrow> err \<noteq> None)"
proof -
  define tp where "tp = ot_provider ot ex (trace_resource ot ''gomigrate'' app_version)"
  obtain ap1 where pre: "pre_run zl ot (Inr cfg) audit_file ap = (None, ap1)" using pre_run_continues by blast
  with assms(2,3) have one: "ap_shutdown ap1 = Some (ShutDown tp)" "tg_provider (ap_tracing ap1) = Some tp"
    by (auto simp: pre_run_def start_tracing_def init_tracer_def set_version_def Let_def tp_def)
  have "run_body body c ap1 = (err, ap', out')" using assms(4) pre by (simp add: run_command_def)
  from run_body_globals [OF this] one have two: "ap_shutdown ap' = Some (ShutDown tp)" "tg_provider (ap_tracing ap') = Some tp"
    by simp_all
  have "main_program zl ot read (Inr cfg) audit_file body fl c ap = (map Print (out @ out') @ root_execute err ap', ap')"
    using assms(1,4) by (simp add: main_program_def)
  with two show ?thesis by (simp add: root_execute_actions printed_actions image_Un [symmetric] del: image_Un)
qed

text \<open>A migration that fails, with tracing to a collector on this host.\<close>

definition tiny_zap :: "(string, string) zap" where
  "tiny_zap = \<lparr>zl_parse = (\<lambda>l. Inr l), zl_info = ''info'', zl_build = (\<lambda>c. Inr ''logger''), zl_nop = ''nop'',
     zl_omit = [], zl_eol = ''eol''\<rparr>"

definition tiny_otel :: "(string, string, string \<times> string) otel" where
  "tiny_otel = \<lparr>ot_exporter = (\<lambda>e. Inr e), ot_resource = (\<lambda>service version. Inr (service @ version)),
     ot_minimal = (\<lambda>service. service), ot_provider = (\<lambda>e r. (e, r))\<rparr>"

definition traced_config :: config where
  "traced_config = sample_config\<lparr>cf_telemetry := (cf_telemetry sample_config)\<lparr>tc_tracing := ''localhost:4318''\<rparr>\<rparr>"

definition fresh_app :: "(string, string \<times> string) app" where
  "fresh_app = \<lparr>ap_config = sample_config, ap_logger = None, ap_tracing = default_tracing, ap_shutdown = None,
     ap_audit = None\<rparr>"

definition failing_body :: command_body where
  "failing_body c cfg lg = (Some (ErrMsg ''migration failed''), lg, [])"

theorem flushed_iff_succeeded_witness:
  "\<exists>tp acts ap'. main_program tiny_zap tiny_otel (\<lambda>p. ConfigNotFound) (Inr traced_config) (\<lambda>path. (None, []))
       failing_body default_flags MigrateCmd fresh_app = (acts, ap') \<and>
     tg_provider (ap_tracing ap') = Some tp \<and> CallShutdown (ShutDown tp) \<notin> set acts \<and> Exit 1 \<in> set acts"
proof -
  obtain ap1 where "pre_run tiny_zap tiny_otel (Inr traced_config) (\<lambda>path. (None, [])) fresh_app = (None, ap1)"
    using pre_run_continues by blast
  then obtain ap' where "run_command tiny_zap tiny_otel (Inr traced_config) (\<lambda>path. (None, [])) failing_body MigrateCmd
      fresh_app = (Some (ErrMsg ''migration failed''), ap', [])"
    by (simp add: run_command_def run_body_def failing_body_def)
  moreover have "init_config (\<lambda>p. ConfigNotFound) (fl_config default_flags) = ([], None)"
    by (simp add: init_config_def)
  moreover have "tc_tracing (cf_telemetry traced_config) \<noteq> []"
    "ot_exporter tiny_otel (tc_tracing (cf_telemetry traced_config)) = Inr ''localhost:4318''"
    by (simp_all add: traced_config_def tiny_otel_def)
  ultimately show ?thesis
    using flushed_iff_succeeded [of "\<lambda>p. ConfigNotFound" default_flags "[]" traced_config tiny_otel] by blast
qed

end
