(* ===== verification/Spec2Isabelle.thy ===== *)
theory Spec2Isabelle
  imports Pipeline_Props Mapper_Props Retry Circuit_Breaker Checkpoint_Props Storage_Props Parquet_Props
    Restore_Props Postgres_Props Cassandra Mongo Iceberg_Props Fault Secrets Cli_Props Delivery Upserts
    Open_Sources Resume Dead_Letters Metrics Command Archive Mock_Adapter App
begin

text \<open>
  gomigrate (\<open>src/\<close>) migrates tables between database engines and backs them up to object storage.
  This development models its Go code as functions and step relations, and proves what they guarantee,
  also where the guarantee is not the one that the code or its documentation intends.

  \<^bold>\<open>The program.\<close> The commands of \<open>internal/cli\<close> connect a source and a target adapter
  (\<open>internal/adapter\<close>) by configuration. \<open>migrate\<close> runs the pipeline of \<open>internal/pipeline\<close>: a reader per
  table partition, transformers that mask columns (\<open>internal/migration\<close>) and form batches, writers that
  retry a failed batch record by record, put what still fails in a dead-letter file (\<open>internal/errs\<close>) and
  save progress in a checkpoint store (\<open>internal/checkpoint\<close>). \<open>backup\<close> and \<open>restore\<close> (\<open>internal/backup\<close>)
  write compressed chunks with a manifest to a storage backend (\<open>internal/storage\<close>), and read them back.

  \<^bold>\<open>Theories.\<close>
  \<^item> \<open>Prelude\<close>: lists, strings, association lists and decimal numerals that the components share.
    \<open>Systems\<close>: the interface of event systems (invariants, bounded runs) that the pipeline implements.
  \<^item> \<open>Errs\<close> (\<open>errs/errors.go\<close>): error chains and their classification. \<open>Circuit_Breaker\<close>, \<open>Retry\<close>,
    \<open>Dlq\<close>: the other files of \<open>errs\<close>. The breaker's timeouts and the retry's waiting times are explicit.
  \<^item> \<open>Values\<close>, \<open>Float64\<close>, \<open>Json\<close>, \<open>Fmt\<close>, \<open>Sha256\<close>: dynamic values, records and schemas; rounding to
    floating point and the shortest decimal; what \<open>encoding/json\<close> and \<open>fmt\<close> do with values; the digest.
    \<open>Config\<close> (\<open>config/config.go\<close>): the configuration and its JSON.
  \<^item> \<open>Checkpoint\<close>, \<open>Checkpoint_Props\<close>: the store over a bbolt database that is a parameter with
    documented laws; the cursor loops of listing, deletion and garbage collection.
  \<^item> \<open>Pipeline\<close> (\<open>pipeline/orchestrator.go\<close>): planning, and one guarded event for each communication or
    write of a reader, transformer, writer, closer or of the error group. \<open>Pipeline_Inv\<close>: the invariant and
    the work measure, kept by each event. \<open>Pipeline_Props\<close>: what every interleaving guarantees.
  \<^item> \<open>Mapper\<close>, \<open>Mapper_Props\<close> (\<open>migration/schema_mapper.go\<close>): masking, transforms, flattening.
  \<^item> \<open>Storage\<close>, \<open>Storage_Props\<close>: the local backend over a file system whose device may fail a copy, a sync or a
    close (\<open>fs_device\<close>), S3 and GCS over their clients; the interface \<open>blob_store\<close> that backups rely on.
  \<^item> \<open>Serializer\<close>, \<open>Parquet_Props\<close>, \<open>Backup\<close>, \<open>Backup_Props\<close>, \<open>Restore\<close>, \<open>Restore_Props\<close>: serializers
    (interface \<open>chunk_serializer\<close>), the chunk manager, the engine, and the restore.
  \<^item> \<open>Adapter\<close> (\<open>adapter/adapter.go\<close>): the interfaces of sources and targets, and the contract
    \<open>range_partitioning\<close>, met by \<open>Postgres\<close>, \<open>Cassandra\<close> and \<open>Mongo\<close>. \<open>Iceberg\<close> lists files instead.
    \<open>Fault\<close>: the wrappers that inject failures.
  \<^item> \<open>Secrets\<close>: the secret providers and interpolation. \<open>Cli\<close>, \<open>Cli_Props\<close>: adapter factory, audit log
    and commands. \<open>Telemetry\<close> (\<open>telemetry/logger.go\<close>, \<open>telemetry/tracer.go\<close>): the logger's configuration and
    the global tracer. \<open>App\<close> (\<open>cli/root.go\<close>, \<open>cmd/gomigrate/main.go\<close>): the process around a command, from the
    configuration file to the exit.
  \<^item> Components together. \<open>Migrate\<close>: the orchestrator, \<open>Migrate\<close> with a source adapter (\<open>migrate_from\<close>) and a
    target whose state runs beside the pipeline's (\<open>deliver\<close>). \<open>Delivery\<close>: the contract
    \<open>delivering_target\<close> of a target, PostgreSQL as one, and a whole migration from PostgreSQL to PostgreSQL.
    \<open>Upserts\<close>: the contract \<open>upserting_target\<close>, with MongoDB and Cassandra. \<open>Open_Sources\<close>: sources that leave
    their channel open (Iceberg, the fault wrapper), and the contract \<open>closing_source\<close> of those that do not.
    \<open>Resume\<close>: a migration that starts from checkpoints, or is repeated without them. \<open>Dead_Letters\<close>: from the pipeline to the
    dead-letter file and through \<open>replay\<close>. \<open>Command\<close>: the command \<open>migrate\<close> with the orchestrator it starts, from
    the configuration to the rows and the audit log. \<open>Archive\<close>: a PostgreSQL table backed up and restored.
    \<open>Mock_Adapter\<close> (\<open>test/e2e/mock_adapter.go\<close>): the adapter of the end-to-end tests. \<open>Metrics\<close>
    (\<open>metrics/metrics.go\<close>): the collectors beside the run, and which targets they count right.

  \<^bold>\<open>Conventions.\<close> A struct is a record with the fields' names prefixed. Go's \<open>int\<close>, \<open>int32\<close> and \<open>int64\<close> are
  words where the code can overflow (\<open>go_div\<close>, \<open>split_range\<close>, \<open>chunk_bytes\<close>) and integers where it only
  counts. An operation that can fail returns \<open>goerr + 'a\<close>; one that changes an external state returns it
  also when it fails. A Go map is an association list in the order of one iteration. What is not
  under \<open>src/\<close> (databases and drivers, bbolt, zstd, Parquet, HTTP, Vault, the SDK clients) is a record of
  operations given as an argument, with laws as hypotheses where a theorem needs them, and a small
  instance for the witnesses. A source's reading is what it sends, what it returns, and whether it closes
  the channel; \<open>backup\<close> returns \<^const>\<open>None\<close> if it waits for ever on a channel.

  \<^bold>\<open>What the lemmas show.\<close> For the pipeline: conservation of records, absence of deadlock and a bound on
  the number of events without cancellation, channel discipline, and what checkpoints mean, with the two
  defects (a checkpoint overtakes an unwritten batch; a cancellation can leave a transformer blocked).
  For a migration with its target: what the target holds at the end, row by row (PostgreSQL) or key by key
  (MongoDB, Cassandra, also after batches that failed half-way, and after a run that was killed and repeated); that replaying the dead-letter file
  hands the target exactly the rejected records, with the values as JSON gives them back (\<open>as_replayed\<close>); that
  the counters reconcile for PostgreSQL and Cassandra, and do not for a MongoDB target that has the documents
  already; that a resumed run writes the row at its checkpoint again, and a repeated one into PostgreSQL every
  row already copied, for good if the table has no key to refuse it; and that a migration from a source that
  leaves its channel open never ends.
  For backups: completeness and order of a Parquet round trip, from PostgreSQL to PostgreSQL row by row, detection of tampering by \<open>restore\<close> and not
  by \<open>verify\<close>, that an NDJSON backup cannot be restored, and that every batch given to Parquet has the types of its
  columns. For the local storage: a finite map on plain names, errors of writing included, and
  confinement of all five operations to the base directory. For the checkpoint store: it refines a finite map per
  operation, with exact listing and deletion, and garbage collection that removes the metadata and the partition
  checkpoints of the operations that are too old, and no others. For the adapters: which keys the
  partitions cover exactly once, and which they lose. For the commands: the audit trail of a backup,
  the batches of a replay, and that \<open>status\<close> lists nothing.

  \<^bold>\<open>Fuel and bounds.\<close> Only \<open>fraction_digits\<close> uses fuel, 1100 digits after the point in the text of a float, more than the
  shortest decimal of any float64 has. All other loops are structural recursions or have measures (the
  Cassandra writer by the records left, SHA-256 and numerals by length or value, interpolation by the text
  left). The retry loop recurses on the attempts left. The pipeline is a relation, and its bound is a theorem.

  \<^bold>\<open>Not modelled.\<close> Log messages and spans (their set-up is); flag parsing, cobra's own messages and viper's
  loading; the HTTP server of the metrics; closing of connections and files; NaN, infinities, subnormal floats and out-of-range conversions of floats;
  symbolic links of the file system; the bytes of zstd and Parquet files; a cancellation
  of a context inside a driver call; text that is not a JSON value inside NDJSON files, beyond failing;
  strings that are not UTF-8, in which \<open>encoding/json\<close> replaces bytes; deadlines (\<open>ctx.Err()\<close> is always
  \<open>context.Canceled\<close>); and products of configured numbers (\<open>NumReaders * BatchSize\<close>, \<open>NumWriters * 2\<close>) that exceed a Go
  \<open>int\<close>, which no machine could allocate a channel for anyway unless they wrap around.
\<close>

end
